(* ===== verification/Prelude.thy ===== *)
theory Prelude
  imports Main "HOL-Library.Sublist"
begin

text \<open>
  Generic material shared by the components.

  \<^item> The error values of the program (package \<open>internal/domain\<close> defines the sentinels, the HTTP
    framework and \<open>fmt.Errorf\<close> the others) are in theory Domain; here only the shape of a Go call that
    returns \<open>(value, error)\<close> while it changes a state: type \<open>('s, 'e, 'a) go\<close>.
  \<^item> \<open>bnd m f\<close> is the Go idiom \<open>x, err := m(); if err != nil { return err }\<close>; \<open>attempt m f\<close> hands the
    outcome, error or value, to the code that inspects it; \<open>ignore m\<close> is \<open>_ = m()\<close>.
  \<^item> \<open>preserves I m\<close> says that \<open>m\<close> keeps the state invariant \<open>I\<close> whether it fails or not. Its rules
    (collection \<open>preserves_intro\<close>) let an invariant proof follow the shape of the code.
\<close>

named_theorems preserves_intro "rules that show that a state-changing call keeps an invariant"
named_theorems go_simps "evaluation of the call combinators"

type_synonym ('s, 'e, 'a) go = "'s \<Rightarrow> ('e + 'a) \<times> 's"

definition ret :: "'a \<Rightarrow> ('s, 'e, 'a) go" where
  "ret x s = (Inr x, s)"

definition fail :: "'e \<Rightarrow> ('s, 'e, 'a) go" where
  "fail e s = (Inl e, s)"

definition bnd :: "('s, 'e, 'a) go \<Rightarrow> ('a \<Rightarrow> ('s, 'e, 'b) go) \<Rightarrow> ('s, 'e, 'b) go" where
  "bnd m f s = (case m s of (Inl e, t) \<Rightarrow> (Inl e, t) | (Inr x, t) \<Rightarrow> f x t)"

definition attempt :: "('s, 'e, 'a) go \<Rightarrow> ('e + 'a \<Rightarrow> ('s, 'e, 'b) go) \<Rightarrow> ('s, 'e, 'b) go" where
  "attempt m f s = (case m s of (r, t) \<Rightarrow> f r t)"

definition ignore :: "('s, 'e, 'a) go \<Rightarrow> ('s, 'e, unit) go" where
  "ignore m = attempt m (\<lambda>_. ret ())"

definition upd :: "('s \<Rightarrow> 's) \<Rightarrow> ('s, 'e, unit) go" where
  "upd f s = (Inr (), f s)"

definition gets :: "('s \<Rightarrow> 'a) \<Rightarrow> ('s, 'e, 'a) go" where
  "gets f s = (Inr (f s), s)"

definition lift :: "'e + 'a \<Rightarrow> ('s, 'e, 'a) go" where
  "lift r s = (r, s)"

fun for_each :: "('x \<Rightarrow> ('s, 'e, unit) go) \<Rightarrow> 'x list \<Rightarrow> ('s, 'e, unit) go" where
  "for_each f [] = ret ()"
| "for_each f (x # xs) = bnd (f x) (\<lambda>_. for_each f xs)"

fun map_each :: "('x \<Rightarrow> ('s, 'e, 'y) go) \<Rightarrow> 'x list \<Rightarrow> ('s, 'e, 'y list) go" where
  "map_each f [] = ret []"
| "map_each f (x # xs) = bnd (f x) (\<lambda>y. bnd (map_each f xs) (\<lambda>ys. ret (y # ys)))"

lemmas [go_simps] = ret_def fail_def upd_def gets_def lift_def

lemma bnd_Inl [go_simps]: "m s = (Inl e, t) \<Longrightarrow> bnd m f s = (Inl e, t)"
  by (simp add: bnd_def)

lemma bnd_Inr [go_simps]: "m s = (Inr x, t) \<Longrightarrow> bnd m f s = f x t"
  by (simp add: bnd_def)

lemma attempt_eq [go_simps]: "m s = (r, t) \<Longrightarrow> attempt m f s = f r t"
  by (simp add: attempt_def)

lemma bnd_ok_iff:
  "bnd m f s = (Inr y, u) \<longleftrightarrow> (\<exists>x t. m s = (Inr x, t) \<and> f x t = (Inr y, u))"
  by (auto simp: bnd_def split: prod.splits sum.splits)

lemma bnd_ret [simp]: "bnd (ret x) f = f x"
  by (simp add: bnd_def ret_def fun_eq_iff)

lemma bnd_fail [simp]: "bnd (fail e) f = fail e"
  by (simp add: bnd_def fail_def fun_eq_iff)

lemma bnd_assoc: "bnd (bnd m f) g = bnd m (\<lambda>x. bnd (f x) g)"
  by (auto simp: bnd_def fun_eq_iff split: prod.splits sum.splits)

lemma ignore_ok: "ignore m s = (Inr (), snd (m s))"
  by (cases "m s") (simp add: ignore_def attempt_def ret_def)

definition preserves :: "('s \<Rightarrow> bool) \<Rightarrow> ('s, 'e, 'a) go \<Rightarrow> bool" where
  "preserves I m \<longleftrightarrow> (\<forall>s. I s \<longrightarrow> I (snd (m s)))"

lemma preservesI: "(\<And>s. I s \<Longrightarrow> I (snd (m s))) \<Longrightarrow> preserves I m"
  by (simp add: preserves_def)

lemma preservesD: "preserves I m \<Longrightarrow> I s \<Longrightarrow> m s = (r, t) \<Longrightarrow> I t"
  by (metis preserves_def snd_conv)

lemma preserves_run: "preserves I m \<Longrightarrow> I s \<Longrightarrow> I (snd (m s))"
  by (simp add: preserves_def)

lemma preserves_ret [preserves_intro]: "preserves I (ret x)"
  by (simp add: preserves_def ret_def)

lemma preserves_fail [preserves_intro]: "preserves I (fail e)"
  by (simp add: preserves_def fail_def)

lemma preserves_gets [preserves_intro]: "preserves I (gets f)"
  by (simp add: preserves_def gets_def)

lemma preserves_lift [preserves_intro]: "preserves I (lift r)"
  by (simp add: preserves_def lift_def)

lemma preserves_upd: "(\<And>s. I s \<Longrightarrow> I (f s)) \<Longrightarrow> preserves I (upd f)"
  by (simp add: preserves_def upd_def)

lemma preserves_bnd [preserves_intro]:
  assumes "preserves I m" and "\<And>x. preserves I (f x)"
  shows "preserves I (bnd m f)"
proof (rule preservesI)
  fix s assume "I s"
  obtain r t where m: "m s = (r, t)" by fastforce
  have "I t" using preservesD [OF assms(1) \<open>I s\<close> m] .
  with assms(2) show "I (snd (bnd m f s))"
    by (cases r) (simp_all add: bnd_def m preserves_def)
qed

lemma preserves_attempt [preserves_intro]:
  assumes "preserves I m" and "\<And>r. preserves I (f r)"
  shows "preserves I (attempt m f)"
proof (rule preservesI)
  fix s assume "I s"
  obtain r t where m: "m s = (r, t)" by fastforce
  have "I t" using preservesD [OF assms(1) \<open>I s\<close> m] .
  with assms(2) show "I (snd (attempt m f s))"
    by (simp add: attempt_def m preserves_def)
qed

lemma preserves_ignore [preserves_intro]: "preserves I m \<Longrightarrow> preserves I (ignore m)"
  by (simp add: ignore_def preserves_attempt preserves_ret)

lemma preserves_if [preserves_intro]:
  "preserves I m \<Longrightarrow> preserves I n \<Longrightarrow> preserves I (if b then m else n)"
  by simp

lemma preserves_case_option [preserves_intro]:
  "preserves I m \<Longrightarrow> (\<And>x. preserves I (f x)) \<Longrightarrow> preserves I (case v of None \<Rightarrow> m | Some x \<Rightarrow> f x)"
  by (simp split: option.split)

lemma preserves_case_sum [preserves_intro]:
  "(\<And>e. preserves I (g e)) \<Longrightarrow> (\<And>x. preserves I (f x)) \<Longrightarrow> preserves I (case v of Inl e \<Rightarrow> g e | Inr x \<Rightarrow> f x)"
  by (simp split: sum.split)

lemma preserves_for_each [preserves_intro]:
  "(\<And>x. preserves I (f x)) \<Longrightarrow> preserves I (for_each f xs)"
  by (induction xs) (auto intro: preserves_intro)

lemma preserves_map_each [preserves_intro]:
  "(\<And>x. preserves I (f x)) \<Longrightarrow> preserves I (map_each f xs)"
  by (induction xs) (auto intro!: preserves_intro)

subsection \<open>Lists\<close>

lemma filter_all_True: "(\<And>x. x \<in> set xs \<Longrightarrow> P x) \<Longrightarrow> filter P xs = xs"
  by (induction xs) auto

lemma sorted_wrt_filter_imp: "sorted_wrt R xs \<Longrightarrow> sorted_wrt R (filter P xs)"
  by (induction xs) auto

lemma find_Some_set: "find P xs = Some x \<Longrightarrow> x \<in> set xs \<and> P x"
  by (auto simp: find_Some_iff)

lemma set_map_filter_Some: "y \<in> set (List.map_filter f xs) \<longleftrightarrow> (\<exists>x\<in>set xs. f x = Some y)"
  by (induction xs) (auto simp: map_filter_simps split: option.splits)

lemma distinct_map_filter: "distinct (map f xs) \<Longrightarrow> distinct (map f (filter P xs))"
  by (induction xs) auto

definition lastn :: "nat \<Rightarrow> 'b list \<Rightarrow> 'b list" where
  "lastn n xs = drop (length xs - n) xs"

lemma lastn_Nil [simp]: "lastn n [] = []"
  by (simp add: lastn_def)

lemma lastn_append_one: "lastn n (lastn n xs @ [x]) = lastn n (xs @ [x])"
  by (cases "length xs \<le> n") (auto simp: lastn_def Suc_diff_le not_le)

lemma lastn_append: "lastn n (lastn n xs @ ys) = lastn n (xs @ ys)"
proof (induction ys rule: rev_induct)
  case Nil then show ?case by (simp add: lastn_def)
next
  case (snoc y ys)
  then show ?case by (metis append_assoc lastn_append_one)
qed

lemma length_lastn: "length (lastn n xs) \<le> n"
  by (simp add: lastn_def)

lemma rev_lastn: "rev (lastn n xs) = take n (rev xs)"
  by (cases "n \<le> length xs") (simp_all add: lastn_def rev_drop)

lemma length_filter_one:
  "distinct (map k xs) \<Longrightarrow> x \<in> set xs \<Longrightarrow> P x \<Longrightarrow> length (filter (\<lambda>y. k y = k x \<and> P y) xs) = 1"
  by (induction xs) (auto simp: image_iff filter_empty_conv)

end
