(* ===== verification/GoStrings.thy ===== *)
theory GoStrings
  imports Prelude
begin

text \<open>
  The parts of Go's \<open>strings\<close> and \<open>strconv\<close> packages that the program uses. A Go string is a list of
  bytes, here a list of characters. \<open>trim_space\<close> removes the white space of the Unicode standard in its
  UTF-8 encoding, as \<open>strings.TrimSpace\<close> does. \<open>to_lower\<close> and \<open>equal_fold\<close> are used by the program only to
  compare with ASCII names; they map the ASCII letters and exactly those non-ASCII characters whose
  lower-case (or folded) form is an ASCII letter, and leave every other byte alone, so a comparison with
  an ASCII name has the result it has in Go.
\<close>

section \<open>White space\<close>

text \<open>Length of the white-space character the bytes begin with, 0 if they begin with none.\<close>

fun lead_space :: "string \<Rightarrow> nat" where
  "lead_space [] = 0"
| "lead_space (a # r) =
    (if a \<in> {CHR 0x09, CHR 0x0A, CHR 0x0B, CHR 0x0C, CHR 0x0D, CHR '' ''} then 1
     else case r of
       [] \<Rightarrow> 0
     | b # r' \<Rightarrow>
       if a = CHR 0xC2 \<and> b \<in> {CHR 0x85, CHR 0xA0} then 2
       else case r' of
         [] \<Rightarrow> 0
       | c # _ \<Rightarrow>
         if (a = CHR 0xE1 \<and> b = CHR 0x9A \<and> c = CHR 0x80)
           \<or> (a = CHR 0xE2 \<and> b = CHR 0x80 \<and> c \<in> {CHR 0x80, CHR 0x81, CHR 0x82, CHR 0x83, CHR 0x84,
                CHR 0x85, CHR 0x86, CHR 0x87, CHR 0x88, CHR 0x89, CHR 0x8A, CHR 0xA8, CHR 0xA9, CHR 0xAF})
           \<or> (a = CHR 0xE2 \<and> b = CHR 0x81 \<and> c = CHR 0x9F)
           \<or> (a = CHR 0xE3 \<and> b = CHR 0x80 \<and> c = CHR 0x80)
         then 3 else 0)"

text \<open>The same at the end of a string, which is given reversed.\<close>

definition trail_space :: "string \<Rightarrow> nat" where
  "trail_space s =
    (if lead_space (rev (take 1 s)) = 1 then 1
     else if lead_space (rev (take 2 s)) = 2 then 2
     else if lead_space (rev (take 3 s)) = 3 then 3 else 0)"

function strip_by :: "(string \<Rightarrow> nat) \<Rightarrow> string \<Rightarrow> string" where
  "strip_by f s = (if s = [] \<or> f s = 0 then s else strip_by f (drop (f s) s))"
  by pat_completeness auto
termination
  by (relation "measure (\<lambda>(f, s). length s)") auto

declare strip_by.simps [simp del]

definition trim_space :: "string \<Rightarrow> string" where
  "trim_space s = rev (strip_by trail_space (rev (strip_by lead_space s)))"

lemma lead_space_Nil [simp]: "lead_space [] = 0"
  by simp

lemma strip_by_Nil [simp]: "strip_by f [] = []"
  by (subst strip_by.simps) simp

lemma strip_by_stop: "f s = 0 \<Longrightarrow> strip_by f s = s"
  by (subst strip_by.simps) simp

lemma strip_by_step: "s \<noteq> [] \<Longrightarrow> f s \<noteq> 0 \<Longrightarrow> strip_by f s = strip_by f (drop (f s) s)"
  by (subst strip_by.simps) simp

lemma strip_by_done: "strip_by f s = [] \<or> f (strip_by f s) = 0"
proof (induction f s rule: strip_by.induct)
  case (1 f s)
  then show ?case
    by (cases "s = [] \<or> f s = 0") (auto simp: strip_by_stop strip_by_step)
qed

lemma strip_by_suffix: "\<exists>p. s = p @ strip_by f s"
proof (induction f s rule: strip_by.induct)
  case (1 f s)
  show ?case
  proof (cases "s = [] \<or> f s = 0")
    case True
    then show ?thesis by (auto simp: strip_by_stop)
  next
    case False
    with 1 obtain p where "drop (f s) s = p @ strip_by f (drop (f s) s)" by auto
    then have "s = (take (f s) s @ p) @ strip_by f (drop (f s) s)"
      by (metis append.assoc append_take_drop_id)
    with False show ?thesis by (metis strip_by_step)
  qed
qed

lemma lead_space_append: "lead_space s \<noteq> 0 \<Longrightarrow> lead_space (s @ t) \<noteq> 0"
  by (cases s rule: lead_space.cases) (auto split: list.splits if_splits)

text \<open>Trimming twice trims no more than trimming once.\<close>

lemma trim_space_idem [simp]: "trim_space (trim_space s) = trim_space s"
proof -
  let ?l = "strip_by lead_space s" and ?t = "trim_space s"
  obtain p where p: "rev ?l = p @ strip_by trail_space (rev ?l)"
    using strip_by_suffix by blast
  have l: "?l = ?t @ rev p" using arg_cong [OF p, of rev] by (simp add: trim_space_def)
  have "lead_space ?l = 0" using strip_by_done [of lead_space s] by auto
  then have "lead_space ?t = 0" using lead_space_append [of ?t "rev p"] l by auto
  moreover have "strip_by trail_space (rev ?t) = rev ?t"
    using strip_by_done [of trail_space "rev ?l"] by (auto simp: trim_space_def strip_by_stop)
  ultimately show ?thesis
    by (subst trim_space_def) (simp add: strip_by_stop)
qed

section \<open>Letter case\<close>

definition lower_char :: "char \<Rightarrow> char" where
  "lower_char c = (let n = of_char c :: nat in if 65 \<le> n \<and> n \<le> 90 then char_of (n + 32) else c)"

fun to_lower :: "string \<Rightarrow> string" where
  "to_lower (a # b # c # s) =
    (if a = CHR 0xC4 \<and> b = CHR 0xB0 then CHR ''i'' # to_lower (c # s)
     else if a = CHR 0xE2 \<and> b = CHR 0x84 \<and> c = CHR 0xAA then CHR ''k'' # to_lower s
     else lower_char a # to_lower (b # c # s))"
| "to_lower [a, b] = (if a = CHR 0xC4 \<and> b = CHR 0xB0 then ''i'' else [lower_char a, lower_char b])"
| "to_lower [a] = [lower_char a]"
| "to_lower [] = []"

fun fold_case :: "string \<Rightarrow> string" where
  "fold_case (a # b # c # s) =
    (if a = CHR 0xC5 \<and> b = CHR 0xBF then CHR ''s'' # fold_case (c # s)
     else if a = CHR 0xE2 \<and> b = CHR 0x84 \<and> c = CHR 0xAA then CHR ''k'' # fold_case s
     else lower_char a # fold_case (b # c # s))"
| "fold_case [a, b] = (if a = CHR 0xC5 \<and> b = CHR 0xBF then ''s'' else [lower_char a, lower_char b])"
| "fold_case [a] = [lower_char a]"
| "fold_case [] = []"

definition equal_fold :: "string \<Rightarrow> string \<Rightarrow> bool" where
  "equal_fold s t \<longleftrightarrow> fold_case s = fold_case t"

section \<open>Substrings\<close>

definition has_prefix :: "string \<Rightarrow> string \<Rightarrow> bool" where
  "has_prefix s p \<longleftrightarrow> take (length p) s = p"

fun contains_sub :: "string \<Rightarrow> string \<Rightarrow> bool" where
  "contains_sub [] p = (p = [])"
| "contains_sub (c # s) p = (has_prefix (c # s) p \<or> contains_sub s p)"

fun split_on :: "char \<Rightarrow> string \<Rightarrow> string list" where
  "split_on d [] = [[]]"
| "split_on d (c # s) =
    (if c = d then [] # split_on d s
     else case split_on d s of w # ws \<Rightarrow> (c # w) # ws | [] \<Rightarrow> [[c]])"

fun join_with :: "string \<Rightarrow> string list \<Rightarrow> string" where
  "join_with d [] = []"
| "join_with d [w] = w"
| "join_with d (w # v # ws) = w @ d @ join_with d (v # ws)"

text \<open>\<open>strings.ReplaceAll s old new\<close> for a nonempty \<open>old\<close> (the program passes no empty one); \<open>k\<close> counts the
  bytes of a match still to be dropped.\<close>

fun replace_go :: "string \<Rightarrow> string \<Rightarrow> nat \<Rightarrow> string \<Rightarrow> string" where
  "replace_go old new k [] = []"
| "replace_go old new (Suc k) (c # s) = replace_go old new k s"
| "replace_go old new 0 (c # s) =
    (if has_prefix (c # s) old then new @ replace_go old new (length old - 1) s
     else c # replace_go old new 0 s)"

definition replace_all :: "string \<Rightarrow> string \<Rightarrow> string \<Rightarrow> string" where
  "replace_all s old new = replace_go old new 0 s"

lemma split_on_ne [simp]: "split_on d s \<noteq> []"
  by (induction s) (auto split: list.splits)

lemma split_on_no: "d \<notin> set s \<Longrightarrow> split_on d s = [s]"
  by (induction s) auto

lemma split_on_append:
  "d \<notin> set w \<Longrightarrow> split_on d (w @ d # s) = w # split_on d s"
  by (induction w) auto

lemma split_join:
  "ws \<noteq> [] \<Longrightarrow> (\<And>w. w \<in> set ws \<Longrightarrow> d \<notin> set w) \<Longrightarrow> split_on d (join_with [d] ws) = ws"
  by (induction "[d]" ws rule: join_with.induct) (auto simp: split_on_no split_on_append)

lemma join_with_eq_Nil: "join_with d ws = [] \<Longrightarrow> [] \<notin> set ws \<Longrightarrow> ws = []"
  by (induction d ws rule: join_with.induct) auto

section \<open>Decimal numbers\<close>

definition digit_char :: "nat \<Rightarrow> char" where
  "digit_char n = char_of (n + 48)"

definition digit_val :: "char \<Rightarrow> nat option" where
  "digit_val c = (let n = of_char c in if 48 \<le> n \<and> n \<le> 57 then Some (n - 48) else None)"

fun nat_digits :: "nat \<Rightarrow> string" where
  "nat_digits n = (if n < 10 then [digit_char n] else nat_digits (n div 10) @ [digit_char (n mod 10)])"

declare nat_digits.simps [simp del]

definition itoa :: "int \<Rightarrow> string" where
  "itoa i = (if i < 0 then CHR ''-'' # nat_digits (nat (- i)) else nat_digits (nat i))"

fun digits_val :: "nat \<Rightarrow> string \<Rightarrow> nat option" where
  "digits_val acc [] = Some acc"
| "digits_val acc (c # s) =
    (case digit_val c of None \<Rightarrow> None | Some d \<Rightarrow> digits_val (10 * acc + d) s)"

text \<open>\<open>strconv.Atoi\<close> and \<open>strconv.ParseInt(s, 10, 64)\<close>: an optional sign, at least one digit, and the
  value within 64 bits. \<open>None\<close> is the error.\<close>

definition int64_range :: "int \<Rightarrow> bool" where
  "int64_range i \<longleftrightarrow> - (2 ^ 63) \<le> i \<and> i < 2 ^ 63"

definition atoi :: "string \<Rightarrow> int option" where
  "atoi s =
    (let neg = (s \<noteq> [] \<and> hd s = CHR ''-'');
         body = (if s \<noteq> [] \<and> (hd s = CHR ''-'' \<or> hd s = CHR ''+'') then tl s else s)
     in if body = [] then None
        else case digits_val 0 body of
          None \<Rightarrow> None
        | Some n \<Rightarrow> (let i = (if neg then - int n else int n) in if int64_range i then Some i else None))"

lemma digit_val_digit_char [simp]: "n < 10 \<Longrightarrow> digit_val (digit_char n) = Some n"
  by (simp add: digit_val_def digit_char_def)

lemma digits_val_append:
  "digits_val a (s @ t) = (case digits_val a s of None \<Rightarrow> None | Some b \<Rightarrow> digits_val b t)"
  by (induction s arbitrary: a) (auto split: option.splits)

lemma digits_val_nat_digits [simp]: "digits_val 0 (nat_digits n) = Some n"
proof (induction n rule: nat_digits.induct)
  case (1 n)
  then show ?case by (subst nat_digits.simps) (auto simp: digits_val_append)
qed

lemma nat_digits_inj [simp]: "nat_digits m = nat_digits n \<longleftrightarrow> m = n"
  by (metis digits_val_nat_digits option.inject)

lemma nat_digits_ne [simp]: "nat_digits n \<noteq> []"
  by (subst nat_digits.simps) simp

lemma digit_val_nat_digits: "c \<in> set (nat_digits n) \<Longrightarrow> digit_val c \<noteq> None"
proof (induction n rule: nat_digits.induct)
  case (1 n)
  from "1.prems" have "c \<in> set (if n < 10 then [digit_char n] else nat_digits (n div 10) @ [digit_char (n mod 10)])"
    by (subst (asm) nat_digits.simps)
  with "1.IH" show ?case by (auto split: if_splits)
qed

lemma hd_nat_digits: "hd (nat_digits n) \<noteq> CHR ''-''" "hd (nat_digits n) \<noteq> CHR ''+''"
proof -
  have d: "digit_val (hd (nat_digits n)) \<noteq> None"
    by (rule digit_val_nat_digits [of _ n]) simp
  show "hd (nat_digits n) \<noteq> CHR ''-''" using d by (auto simp: digit_val_def)
  show "hd (nat_digits n) \<noteq> CHR ''+''" using d by (auto simp: digit_val_def)
qed

lemma itoa_ne [simp]: "itoa i \<noteq> []"
  by (simp add: itoa_def)

lemma itoa_inj [simp]: "itoa i = itoa j \<longleftrightarrow> i = j"
  using hd_nat_digits by (auto simp: itoa_def) (metis list.sel(1))+

lemma atoi_itoa: "int64_range i \<Longrightarrow> atoi (itoa i) = Some i"
  by (auto simp: atoi_def itoa_def hd_nat_digits)

section \<open>Strings without white space at the ends\<close>

definition trimmed :: "string \<Rightarrow> bool" where
  "trimmed s \<longleftrightarrow> trim_space s = s"

lemma trim_space_id: "lead_space s = 0 \<Longrightarrow> trail_space (rev s) = 0 \<Longrightarrow> trim_space s = s"
  by (simp add: trim_space_def strip_by_stop)

lemma trim_space_Nil [simp]: "trim_space [] = []"
  by (simp add: trim_space_def)

end
