(* ===== verification/GoJson.thy ===== *)
theory GoJson
  imports GoStrings
begin

text \<open>
  The parts of Go's \<open>encoding/json\<close> and \<open>unicode/utf8\<close> that the program uses. A document is the value it
  denotes: type \<open>json\<close>, numbers as their literals, objects with their members in order. A
  \<open>json.RawMessage\<close> is empty, does not parse, or is such a value (\<open>raw_json\<close>); its text is the compact
  form \<open>json.Marshal\<close> writes. The decoder's limit of 10000 nested values is left out.
\<close>

datatype json =
    JNull
  | JBool bool
  | JNum string
  | JStr string
  | JArr "json list"
  | JObj "(string \<times> json) list"

datatype raw_json = RawEmpty | RawCorrupt | RawDoc json

definition JInt :: "int \<Rightarrow> json" where
  "JInt i = JNum (itoa i)"

section \<open>UTF-8\<close>

definition byte :: "char \<Rightarrow> nat" where
  "byte c = of_char c"

definition cont_byte :: "char \<Rightarrow> bool" where
  "cont_byte c \<longleftrightarrow> 128 \<le> byte c \<and> byte c < 192"

text \<open>The length of the character the bytes begin with, 0 if they begin with none.\<close>

fun utf8_len :: "string \<Rightarrow> nat" where
  "utf8_len [] = 0"
| "utf8_len (a # r) =
    (let n = byte a in
     if n < 128 then 1
     else case r of [] \<Rightarrow> 0 | b # r' \<Rightarrow>
       if 194 \<le> n \<and> n \<le> 223 then (if cont_byte b then 2 else 0)
       else if 224 \<le> n \<and> n \<le> 239 then
         (case r' of [] \<Rightarrow> 0 | c # _ \<Rightarrow>
           if cont_byte b \<and> cont_byte c \<and> (n = 224 \<longrightarrow> 160 \<le> byte b) \<and> (n = 237 \<longrightarrow> byte b < 160) then 3 else 0)
       else if 240 \<le> n \<and> n \<le> 244 then
         (case r' of c # d # _ \<Rightarrow>
           if cont_byte b \<and> cont_byte c \<and> cont_byte d \<and> (n = 240 \<longrightarrow> 144 \<le> byte b) \<and> (n = 244 \<longrightarrow> byte b < 144)
           then 4 else 0
         | _ \<Rightarrow> 0)
       else 0)"

definition replacement_char :: string where
  "replacement_char = [CHR 0xEF, CHR 0xBF, CHR 0xBD]"

text \<open>Every byte that belongs to no character is replaced by U+FFFD, as the encoder and decoder do.\<close>

function utf8_fix :: "string \<Rightarrow> string" where
  "utf8_fix [] = []"
| "utf8_fix (c # s) =
    (let n = utf8_len (c # s) in
     if n = 0 then replacement_char @ utf8_fix s
     else c # take (n - 1) s @ utf8_fix (drop (n - 1) s))"
  by pat_completeness auto
termination
  by (relation "measure length") auto

lemma utf8_len_ascii: "byte c < 128 \<Longrightarrow> utf8_len (c # s) = 1"
  by simp

lemma utf8_fix_ascii: "(\<And>c. c \<in> set s \<Longrightarrow> byte c < 128) \<Longrightarrow> utf8_fix s = s"
  by (induction s) (simp_all add: Let_def)

definition utf8_encode :: "nat \<Rightarrow> string" where
  "utf8_encode n =
    (if n < 128 then [char_of n]
     else if n < 2048 then [char_of (192 + n div 64), char_of (128 + n mod 64)]
     else if n < 65536 then [char_of (224 + n div 4096), char_of (128 + n div 64 mod 64), char_of (128 + n mod 64)]
     else [char_of (240 + n div 262144), char_of (128 + n div 4096 mod 64), char_of (128 + n div 64 mod 64),
           char_of (128 + n mod 64)])"

section \<open>Reading a document\<close>

definition json_space :: "char \<Rightarrow> bool" where
  "json_space c \<longleftrightarrow> c \<in> {CHR '' '', CHR 0x09, CHR 0x0A, CHR 0x0D}"

definition skip_ws :: "string \<Rightarrow> string" where
  "skip_ws s = dropWhile json_space s"

definition hex_val :: "char \<Rightarrow> nat option" where
  "hex_val c = (let n = byte c in
     if 48 \<le> n \<and> n \<le> 57 then Some (n - 48)
     else if 97 \<le> n \<and> n \<le> 102 then Some (n - 87)
     else if 65 \<le> n \<and> n \<le> 70 then Some (n - 55) else None)"

definition hex4 :: "char \<Rightarrow> char \<Rightarrow> char \<Rightarrow> char \<Rightarrow> nat option" where
  "hex4 a b c d = (case (hex_val a, hex_val b, hex_val c, hex_val d) of
     (Some w, Some x, Some y, Some z) \<Rightarrow> Some (4096 * w + 256 * x + 16 * y + z) | _ \<Rightarrow> None)"

definition simple_escape :: "char \<Rightarrow> char option" where
  "simple_escape e = map_of
     [(CHR 0x22, CHR 0x22), (CHR 0x5C, CHR 0x5C), (CHR ''/'', CHR ''/''), (CHR ''b'', CHR 0x08),
      (CHR ''f'', CHR 0x0C), (CHR ''n'', CHR 0x0A), (CHR ''r'', CHR 0x0D), (CHR ''t'', CHR 0x09)] e"

text \<open>The rest of a string after its opening quote: its characters and what follows the closing quote.
  A \<open>\u\<close> escape of a high surrogate takes the low surrogate that follows with it; a lone surrogate is
  U+FFFD.\<close>

fun json_string :: "nat \<Rightarrow> string \<Rightarrow> (string \<times> string) option" where
  "json_string 0 s = None"
| "json_string (Suc k) s = (case s of [] \<Rightarrow> None
   | c # r \<Rightarrow>
      if c = CHR 0x22 then Some ([], r)
      else if byte c < 32 then None
      else if c \<noteq> CHR 0x5C then map_option (\<lambda>(t, q). (c # t, q)) (json_string k r)
      else (case r of [] \<Rightarrow> None
       | e # r' \<Rightarrow>
          if e \<noteq> CHR ''u'' then
            (case simple_escape e of None \<Rightarrow> None
             | Some x \<Rightarrow> map_option (\<lambda>(t, q). (x # t, q)) (json_string k r'))
          else (case r' of a # b # g # h # r4 \<Rightarrow>
             (case hex4 a b g h of None \<Rightarrow> None
              | Some n \<Rightarrow>
                 (case r4 of x # y # a' # b' # g' # h' # r10 \<Rightarrow>
                    (case hex4 a' b' g' h' of Some l \<Rightarrow>
                       if x = CHR 0x5C \<and> y = CHR ''u'' \<and> 55296 \<le> n \<and> n < 56320 \<and> 56320 \<le> l \<and> l < 57344
                       then map_option (\<lambda>(t, q). (utf8_encode (65536 + (n - 55296) * 1024 + (l - 56320)) @ t, q))
                              (json_string k r10)
                       else map_option (\<lambda>(t, q). ((if 55296 \<le> n \<and> n < 57344 then replacement_char else utf8_encode n) @ t, q))
                              (json_string k r4)
                     | None \<Rightarrow> map_option (\<lambda>(t, q). ((if 55296 \<le> n \<and> n < 57344 then replacement_char else utf8_encode n) @ t, q))
                              (json_string k r4))
                  | _ \<Rightarrow> map_option (\<lambda>(t, q). ((if 55296 \<le> n \<and> n < 57344 then replacement_char else utf8_encode n) @ t, q))
                              (json_string k r4)))
             | _ \<Rightarrow> None)))"

definition json_digit :: "char \<Rightarrow> bool" where
  "json_digit c \<longleftrightarrow> digit_val c \<noteq> None"

definition take_digits :: "string \<Rightarrow> string \<times> string" where
  "take_digits s = (takeWhile json_digit s, dropWhile json_digit s)"

text \<open>The literal of a number and the rest of the text.\<close>

definition json_number :: "string \<Rightarrow> (string \<times> string) option" where
  "json_number s =
    (let (sg, s1) = (if s \<noteq> [] \<and> hd s = CHR ''-'' then (''-'', tl s) else ([], s));
         (ip, s2) = take_digits s1;
         ip_ok = (ip = ''0'' \<or> (ip \<noteq> [] \<and> hd ip \<noteq> CHR ''0''));
         (fr, s3) = (if s2 \<noteq> [] \<and> hd s2 = CHR ''.''
                     then (let (f, q) = take_digits (tl s2) in (CHR ''.'' # f, q)) else ([], s2));
         (ex, s4) = (if s3 \<noteq> [] \<and> (hd s3 = CHR ''e'' \<or> hd s3 = CHR ''E'')
                     then (let t = tl s3;
                               (es, t') = (if t \<noteq> [] \<and> (hd t = CHR ''+'' \<or> hd t = CHR ''-'') then ([hd t], tl t) else ([], t));
                               (e, q) = take_digits t'
                           in (if e = [] then ''.'' else hd s3 # es @ e, q))
                     else ([], s3))
     in if ip_ok \<and> fr \<noteq> ''.'' \<and> ex \<noteq> ''.'' then Some (sg @ ip @ fr @ ex, s4) else None)"

fun json_value :: "nat \<Rightarrow> string \<Rightarrow> (json \<times> string) option"
  and json_items :: "nat \<Rightarrow> string \<Rightarrow> (json list \<times> string) option"
  and json_members :: "nat \<Rightarrow> string \<Rightarrow> ((string \<times> json) list \<times> string) option" where
  "json_value 0 s = None"
| "json_value (Suc k) s = (case skip_ws s of [] \<Rightarrow> None
   | c # r \<Rightarrow>
      if c = CHR 0x22 then map_option (\<lambda>(t, q). (JStr (utf8_fix t), q)) (json_string (Suc (length r)) r)
      else if c = CHR ''{'' then
        (case skip_ws r of [] \<Rightarrow> None
         | d # q \<Rightarrow> if d = CHR ''}'' then Some (JObj [], q)
                   else map_option (\<lambda>(ms, q). (JObj ms, q)) (json_members k r))
      else if c = CHR ''['' then
        (case skip_ws r of [] \<Rightarrow> None
         | d # q \<Rightarrow> if d = CHR '']'' then Some (JArr [], q)
                   else map_option (\<lambda>(vs, q). (JArr vs, q)) (json_items k r))
      else if has_prefix (c # r) ''null'' then Some (JNull, drop 3 r)
      else if has_prefix (c # r) ''true'' then Some (JBool True, drop 3 r)
      else if has_prefix (c # r) ''false'' then Some (JBool False, drop 4 r)
      else map_option (\<lambda>(t, q). (JNum t, q)) (json_number (c # r)))"
| "json_items 0 s = None"
| "json_items (Suc k) s = (case json_value k s of None \<Rightarrow> None
   | Some (v, r) \<Rightarrow> (case skip_ws r of [] \<Rightarrow> None
      | c # q \<Rightarrow> if c = CHR '']'' then Some ([v], q)
                else if c = CHR '','' then map_option (\<lambda>(vs, q). (v # vs, q)) (json_items k q) else None))"
| "json_members 0 s = None"
| "json_members (Suc k) s = (case skip_ws s of [] \<Rightarrow> None
   | c # r \<Rightarrow> if c \<noteq> CHR 0x22 then None
      else (case json_string (Suc (length r)) r of None \<Rightarrow> None
       | Some (n, r1) \<Rightarrow> (case skip_ws r1 of [] \<Rightarrow> None
          | d # r2 \<Rightarrow> if d \<noteq> CHR '':'' then None
             else (case json_value k r2 of None \<Rightarrow> None
              | Some (v, r3) \<Rightarrow> (case skip_ws r3 of [] \<Rightarrow> None
                 | e # q \<Rightarrow> if e = CHR ''}'' then Some ([(utf8_fix n, v)], q)
                    else if e = CHR '','' then map_option (\<lambda>(ms, q). ((utf8_fix n, v) # ms, q)) (json_members k q)
                    else None)))))"

text \<open>Each nested call reads at least one byte, or is one of at most three calls made at the same byte:
  three times the length of the text is enough fuel.\<close>

definition json_parse :: "string \<Rightarrow> json option" where
  "json_parse s = (case json_value (3 * length s + 3) s of
     Some (v, r) \<Rightarrow> if skip_ws r = [] then Some v else None | None \<Rightarrow> None)"

section \<open>Writing a document\<close>

definition hex_digit :: "nat \<Rightarrow> char" where
  "hex_digit n = (if n < 10 then char_of (n + 48) else char_of (n + 87))"

definition u_escape :: "nat \<Rightarrow> string" where
  "u_escape n = [CHR 0x5C, CHR ''u'', hex_digit (n div 4096 mod 16), hex_digit (n div 256 mod 16),
                 hex_digit (n div 16 mod 16), hex_digit (n mod 16)]"

definition json_char :: "char \<Rightarrow> string" where
  "json_char c =
    (if c = CHR 0x22 \<or> c = CHR 0x5C then [CHR 0x5C, c]
     else if c = CHR 0x08 then [CHR 0x5C, CHR ''b''] else if c = CHR 0x0C then [CHR 0x5C, CHR ''f'']
     else if c = CHR 0x0A then [CHR 0x5C, CHR ''n''] else if c = CHR 0x0D then [CHR 0x5C, CHR ''r'']
     else if c = CHR 0x09 then [CHR 0x5C, CHR ''t'']
     else if byte c < 32 \<or> c = CHR ''<'' \<or> c = CHR ''>'' \<or> c = CHR ''&'' then u_escape (byte c)
     else [c])"

fun json_chars :: "string \<Rightarrow> string" where
  "json_chars (a # b # c # s) =
    (if a = CHR 0xE2 \<and> b = CHR 0x80 \<and> (c = CHR 0xA8 \<or> c = CHR 0xA9) then u_escape (8192 + (byte c - 128)) @ json_chars s
     else json_char a @ json_chars (b # c # s))"
| "json_chars [a, b] = json_char a @ json_char b"
| "json_chars [a] = json_char a"
| "json_chars [] = []"

definition json_quote :: "string \<Rightarrow> string" where
  "json_quote s = CHR 0x22 # json_chars (utf8_fix s) @ [CHR 0x22]"

fun json_print :: "json \<Rightarrow> string" where
  "json_print JNull = ''null''"
| "json_print (JBool b) = (if b then ''true'' else ''false'')"
| "json_print (JNum t) = t"
| "json_print (JStr s) = json_quote s"
| "json_print (JArr vs) = ''['' @ join_with '','' (map json_print vs) @ '']''"
| "json_print (JObj ms) = ''{'' @ join_with '','' (map (\<lambda>(n, v). json_quote n @ '':'' @ json_print v) ms) @ ''}''"

definition raw_text :: "raw_json \<Rightarrow> string" where
  "raw_text r = (case r of RawDoc j \<Rightarrow> json_print j | _ \<Rightarrow> [])"

section \<open>Decoding into a struct\<close>

text \<open>
  \<open>json.Unmarshal\<close> into a struct: a member belongs to the field whose name it equals up to letter case; null
  leaves a string or a bool as it is and empties a slice or a map; a value of another type is an error;
  the last member of a field wins; other members are ignored. \<open>members_of\<close> are the values of one field.
\<close>

definition members_of :: "string \<Rightarrow> (string \<times> json) list \<Rightarrow> json list" where
  "members_of f ms = map snd (filter (\<lambda>(n, v). equal_fold n f) ms)"

text \<open>\<open>None\<close>: a value of the wrong type.\<close>

definition field_with :: "(json \<Rightarrow> 'a option) \<Rightarrow> 'a \<Rightarrow> json list \<Rightarrow> 'a option" where
  "field_with conv zero ms =
    (let vs = map conv ms
     in if None \<in> set vs then None else if vs = [] then Some zero else last vs)"

fun as_string :: "json \<Rightarrow> string option" where
  "as_string (JStr s) = Some s" | "as_string _ = None"

fun as_bool :: "json \<Rightarrow> bool option" where
  "as_bool (JBool b) = Some b" | "as_bool _ = None"

fun all_strings :: "json list \<Rightarrow> string list option" where
  "all_strings [] = Some []"
| "all_strings (v # vs) =
    (case (if v = JNull then Some [] else as_string v, all_strings vs) of
       (Some s, Some ss) \<Rightarrow> Some (s # ss) | _ \<Rightarrow> None)"

fun as_strings :: "json \<Rightarrow> string list option" where
  "as_strings (JArr vs) = all_strings vs" | "as_strings JNull = Some []" | "as_strings _ = None"

definition field_string :: "string \<Rightarrow> (string \<times> json) list \<Rightarrow> string option" where
  "field_string f ms = field_with as_string [] (filter (\<lambda>v. v \<noteq> JNull) (members_of f ms))"

definition field_bool :: "string \<Rightarrow> (string \<times> json) list \<Rightarrow> bool option" where
  "field_bool f ms = field_with as_bool False (filter (\<lambda>v. v \<noteq> JNull) (members_of f ms))"

definition field_strings :: "string \<Rightarrow> (string \<times> json) list \<Rightarrow> string list option" where
  "field_strings f ms = field_with as_strings [] (members_of f ms)"

text \<open>A \<open>map[string]string\<close>: the members of one object after the other are added; keys are kept in the
  order of their first use.\<close>

fun put_all :: "(string \<times> json) list \<Rightarrow> (string \<times> string) list \<Rightarrow> (string \<times> string) list option" where
  "put_all [] m = Some m"
| "put_all ((k, v) # ms) m =
    (case (if v = JNull then Some [] else as_string v) of None \<Rightarrow> None
     | Some s \<Rightarrow> put_all ms (if k \<in> fst ` set m then map (\<lambda>(a, b). if a = k then (a, s) else (a, b)) m else m @ [(k, s)]))"

fun field_string_map_go :: "json list \<Rightarrow> (string \<times> string) list \<Rightarrow> (string \<times> string) list option" where
  "field_string_map_go [] m = Some m"
| "field_string_map_go (JObj ms # vs) m = (case put_all ms m of None \<Rightarrow> None | Some m' \<Rightarrow> field_string_map_go vs m')"
| "field_string_map_go (JNull # vs) m = field_string_map_go vs []"
| "field_string_map_go (v # vs) m = None"

definition field_string_map :: "string \<Rightarrow> (string \<times> json) list \<Rightarrow> (string \<times> string) list option" where
  "field_string_map f ms = field_string_map_go (members_of f ms) []"

text \<open>A \<open>json.RawMessage\<close> takes any value, null too.\<close>

definition field_raw :: "string \<Rightarrow> (string \<times> json) list \<Rightarrow> raw_json" where
  "field_raw f ms =
    (let vs = members_of f ms in if vs = [] then RawEmpty else RawDoc (last vs))"

text \<open>The members to decode: an empty message and null leave the struct as it is (the callers test
  \<open>len(data) > 0\<close> before they decode); \<open>None\<close> is the decoder's error.\<close>

fun struct_members :: "raw_json \<Rightarrow> (string \<times> json) list option" where
  "struct_members RawEmpty = Some []"
| "struct_members RawCorrupt = None"
| "struct_members (RawDoc (JObj ms)) = Some ms"
| "struct_members (RawDoc JNull) = Some []"
| "struct_members (RawDoc _) = None"

text \<open>Members written with \<open>omitempty\<close>.\<close>

definition opt_str :: "string \<Rightarrow> string \<Rightarrow> (string \<times> json) list" where
  "opt_str n s = (if s = [] then [] else [(n, JStr (utf8_fix s))])"

definition opt_bool :: "string \<Rightarrow> bool \<Rightarrow> (string \<times> json) list" where
  "opt_bool n b = (if b then [(n, JBool True)] else [])"

definition opt_strs :: "string \<Rightarrow> string list \<Rightarrow> (string \<times> json) list" where
  "opt_strs n ss = (if ss = [] then [] else [(n, JArr (map (\<lambda>s. JStr (utf8_fix s)) ss))])"

end
