(* ===== verification/GoUrl.thy ===== *)
theory GoUrl
  imports GoJson
begin

text \<open>
  The parts of Go's \<open>net/url\<close> (and \<open>net.JoinHostPort\<close>) that the program uses on share links: \<open>url.Parse\<close>,
  the accessors of a URL, \<open>URL.String\<close> for a URL without a path, and \<open>url.Values\<close>. The values of a query
  are kept as a list of pairs in the order of the text; \<open>Get\<close> returns the first value of a key.
\<close>

record url =
  u_scheme :: string
  u_opaque :: string
  u_user :: "string option"
  u_password :: "string option"
  u_host :: string
  u_path :: string
  u_raw_query :: string
  u_fragment :: string

section \<open>Escaping\<close>

datatype encode_mode = EncPath | EncUser | EncHost | EncZone | EncQuery | EncFragment

definition alnum :: "char \<Rightarrow> bool" where
  "alnum c \<longleftrightarrow> (let n = byte c in (48 \<le> n \<and> n \<le> 57) \<or> (65 \<le> n \<and> n \<le> 90) \<or> (97 \<le> n \<and> n \<le> 122))"

definition host_marks :: string where
  "host_marks = [CHR 0x22, CHR 0x27] @ ''!$&()*+,;=:[]<>''"
definition unreserved_marks :: string where
  "unreserved_marks = ''-_.~''"
definition reserved_marks :: string where
  "reserved_marks = ''$&+,/:;=?@''"
definition fragment_marks :: string where
  "fragment_marks = ''!()*''"

definition shouldEscape :: "char \<Rightarrow> encode_mode \<Rightarrow> bool" where
  "shouldEscape c m =
    (if alnum c then False
     else if (m = EncHost \<or> m = EncZone) \<and> c \<in> set host_marks then False
     else if c \<in> set unreserved_marks then False
     else if c \<in> set reserved_marks then
       (case m of EncPath \<Rightarrow> c = CHR ''?''
        | EncUser \<Rightarrow> c = CHR ''@'' \<or> c = CHR ''/'' \<or> c = CHR ''?'' \<or> c = CHR '':''
        | EncQuery \<Rightarrow> True
        | EncFragment \<Rightarrow> False
        | _ \<Rightarrow> True)
     else if m = EncFragment \<and> c \<in> set fragment_marks then False
     else True)"

definition upper_hex :: "nat \<Rightarrow> char" where
  "upper_hex n = (if n < 10 then char_of (n + 48) else char_of (n + 55))"

definition escape_char :: "encode_mode \<Rightarrow> char \<Rightarrow> string" where
  "escape_char m c =
    (if c = CHR '' '' \<and> m = EncQuery then ''+''
     else if shouldEscape c m then [CHR ''%'', upper_hex (byte c div 16), upper_hex (byte c mod 16)]
     else [c])"

definition escape :: "encode_mode \<Rightarrow> string \<Rightarrow> string" where
  "escape m s = concat (map (escape_char m) s)"

text \<open>\<open>None\<close> is the error: a bad escape, or a byte a host may not contain.\<close>

fun unescape :: "encode_mode \<Rightarrow> string \<Rightarrow> string option" where
  "unescape m [] = Some []"
| "unescape m (c # s) =
    (if c = CHR ''%'' then
       (case s of a # b # r \<Rightarrow>
          (case (hex_val a, hex_val b) of
             (Some x, Some y) \<Rightarrow>
               (let v = char_of (16 * x + y)
                in if m = EncHost \<and> x < 8 \<and> \<not> (a = CHR ''2'' \<and> b = CHR ''5'') then None
                   else if m = EncZone \<and> \<not> (a = CHR ''2'' \<and> b = CHR ''5'') \<and> v \<noteq> CHR '' '' \<and> shouldEscape v EncHost then None
                   else map_option ((#) v) (unescape m r))
           | _ \<Rightarrow> None)
        | _ \<Rightarrow> None)
     else if (m = EncHost \<or> m = EncZone) \<and> byte c < 128 \<and> shouldEscape c m then None
     else map_option ((#) (if c = CHR ''+'' \<and> m = EncQuery then CHR '' '' else c)) (unescape m s))"

section \<open>Cutting strings\<close>

text \<open>\<open>strings.Cut\<close>: before and after the first separator, and whether there was one.\<close>

fun cut_at :: "char \<Rightarrow> string \<Rightarrow> string \<times> string \<times> bool" where
  "cut_at d [] = ([], [], False)"
| "cut_at d (c # s) = (if c = d then ([], s, True) else (case cut_at d s of (a, b, f) \<Rightarrow> (c # a, b, f)))"

definition cut_last :: "char \<Rightarrow> string \<Rightarrow> string \<times> string \<times> bool" where
  "cut_last d s = (case cut_at d (rev s) of (a, b, f) \<Rightarrow> if f then (rev b, rev a, True) else (s, [], False))"

lemma cut_at_no: "d \<notin> set s \<Longrightarrow> cut_at d s = (s, [], False)"
  by (induction s) auto

lemma cut_at_first: "d \<notin> set s \<Longrightarrow> cut_at d (s @ d # t) = (s, t, True)"
  by (induction s) auto

lemma cut_last_no: "d \<notin> set s \<Longrightarrow> cut_last d s = (s, [], False)"
  by (simp add: cut_last_def cut_at_no)

lemma cut_last_last: "d \<notin> set t \<Longrightarrow> cut_last d (s @ d # t) = (s, t, True)"
  by (simp add: cut_last_def cut_at_first)

section \<open>Parsing\<close>

text \<open>\<open>getScheme\<close>: \<open>None\<close> is the error "missing protocol scheme"; an empty scheme leaves the text whole.\<close>

fun scheme_go :: "string \<Rightarrow> string \<Rightarrow> (string \<times> string) option" where
  "scheme_go seen [] = Some ([], rev seen)"
| "scheme_go seen (c # s) =
    (if alnum c \<and> digit_val c = None then scheme_go (c # seen) s
     else if digit_val c \<noteq> None \<or> c \<in> set ''+-.'' then
       (if seen = [] then Some ([], c # s) else scheme_go (c # seen) s)
     else if c = CHR '':'' then (if seen = [] then None else Some (rev seen, s))
     else Some ([], rev seen @ c # s))"

definition userinfo_marks :: string where
  "userinfo_marks = CHR 0x27 # ''-._:~!$&()*+,;=%@''"

definition valid_userinfo :: "string \<Rightarrow> bool" where
  "valid_userinfo s \<longleftrightarrow> (\<forall>c\<in>set s. alnum c \<or> c \<in> set userinfo_marks)"

definition valid_optional_port :: "string \<Rightarrow> bool" where
  "valid_optional_port p \<longleftrightarrow> p = [] \<or> (hd p = CHR '':'' \<and> (\<forall>c\<in>set (tl p). digit_val c \<noteq> None))"

text \<open>Position of the first \<open>%25\<close>, which begins the zone of an IPv6 literal.\<close>

fun find_zone :: "string \<Rightarrow> nat option" where
  "find_zone [] = None"
| "find_zone (c # s) = (if has_prefix (c # s) ''%25'' then Some 0 else map_option Suc (find_zone s))"

definition parse_host :: "string \<Rightarrow> string option" where
  "parse_host h =
    (if h \<noteq> [] \<and> hd h = CHR ''['' then
       (case cut_last (CHR '']'') h of (before, after, found) \<Rightarrow>
          if \<not> found \<or> \<not> valid_optional_port after then None
          else (case find_zone before of
             None \<Rightarrow> unescape EncHost h
           | Some z \<Rightarrow> (case (unescape EncHost (take z h), unescape EncZone (drop z before),
                             unescape EncHost (CHR '']'' # after)) of
               (Some a, Some b, Some c) \<Rightarrow> Some (a @ b @ c) | _ \<Rightarrow> None)))
     else (case cut_last (CHR '':'') h of (before, after, found) \<Rightarrow>
       if found \<and> \<not> valid_optional_port (CHR '':'' # after) then None else unescape EncHost h))"

text \<open>User, password and host of an authority.\<close>

definition parse_authority :: "string \<Rightarrow> (string option \<times> string option \<times> string) option" where
  "parse_authority a =
    (case cut_last (CHR ''@'') a of (ui, h, found) \<Rightarrow>
      if \<not> found then (case parse_host a of None \<Rightarrow> None | Some x \<Rightarrow> Some (None, None, x))
      else (case parse_host h of None \<Rightarrow> None
        | Some x \<Rightarrow>
          if \<not> valid_userinfo ui then None
          else (case cut_at (CHR '':'') ui of (un, pw, colon) \<Rightarrow>
            if \<not> colon then (case unescape EncUser ui of None \<Rightarrow> None | Some u \<Rightarrow> Some (Some u, None, x))
            else (case (unescape EncUser un, unescape EncUser pw) of
               (Some u, Some p) \<Rightarrow> Some (Some u, Some p, x) | _ \<Rightarrow> None))))"

definition has_ctl :: "string \<Rightarrow> bool" where
  "has_ctl s \<longleftrightarrow> (\<exists>c\<in>set s. byte c < 32 \<or> byte c = 127)"

definition empty_url :: url where
  "empty_url = \<lparr>u_scheme = [], u_opaque = [], u_user = None, u_password = None, u_host = [], u_path = [],
     u_raw_query = [], u_fragment = []\<rparr>"

text \<open>\<open>url.Parse\<close>. The flag \<open>ForceQuery\<close> (a trailing question mark) has no effect on what the program reads.\<close>

definition parse_rest :: "string \<Rightarrow> string \<Rightarrow> string \<Rightarrow> url option" where
  "parse_rest sch rest q =
    (let u = empty_url\<lparr>u_scheme := to_lower sch, u_raw_query := q\<rparr>
     in if \<not> has_prefix rest ''/'' \<and> sch \<noteq> [] then Some (u\<lparr>u_opaque := rest\<rparr>)
        else if \<not> has_prefix rest ''/'' \<and> CHR '':'' \<in> set (fst (cut_at (CHR ''/'') rest)) then None
        else if has_prefix rest ''//'' \<and> (sch \<noteq> [] \<or> \<not> has_prefix rest ''///'') then
          (case cut_at (CHR ''/'') (drop 2 rest) of (auth, p, slash) \<Rightarrow>
            (case (parse_authority auth, unescape EncPath (if slash then CHR ''/'' # p else [])) of
               (Some (us, pw, h), Some path) \<Rightarrow> Some (u\<lparr>u_user := us, u_password := pw, u_host := h, u_path := path\<rparr>)
             | _ \<Rightarrow> None))
        else map_option (\<lambda>p. u\<lparr>u_path := p\<rparr>) (unescape EncPath rest))"

definition url_parse :: "string \<Rightarrow> url option" where
  "url_parse raw =
    (case cut_at (CHR ''#'') raw of (s, frag, _) \<Rightarrow>
      if has_ctl s then None
      else if s = ''*'' then map_option (\<lambda>f. empty_url\<lparr>u_path := ''*'', u_fragment := f\<rparr>) (unescape EncFragment frag)
      else (case scheme_go [] s of None \<Rightarrow> None
       | Some (sch, rest) \<Rightarrow>
          (case cut_at (CHR ''?'') rest of (rest', q, _) \<Rightarrow>
            (case (parse_rest sch rest' q, unescape EncFragment frag) of
               (Some u, Some f) \<Rightarrow> Some (u\<lparr>u_fragment := f\<rparr>) | _ \<Rightarrow> None))))"

section \<open>Accessors\<close>

definition split_port :: "string \<Rightarrow> string \<times> string" where
  "split_port h = (case cut_last (CHR '':'') h of (a, p, found) \<Rightarrow>
     if found \<and> valid_optional_port (CHR '':'' # p) then (a, p) else (h, []))"

definition url_hostname :: "string \<Rightarrow> string" where
  "url_hostname h = (let a = fst (split_port h)
     in if a \<noteq> [] \<and> hd a = CHR ''['' \<and> last a = CHR '']'' then butlast (tl a) else a)"

definition url_port :: "string \<Rightarrow> string" where
  "url_port h = snd (split_port h)"

section \<open>Queries\<close>

type_synonym query = "(string \<times> string) list"

definition query_pair :: "string \<Rightarrow> (string \<times> string) option" where
  "query_pair kv =
    (if CHR '';'' \<in> set kv \<or> kv = [] then None
     else case cut_at (CHR ''='') kv of (k, v, _) \<Rightarrow>
       (case (unescape EncQuery k, unescape EncQuery v) of (Some a, Some b) \<Rightarrow> Some (a, b) | _ \<Rightarrow> None))"

text \<open>\<open>URL.Query\<close> drops the pairs it cannot read.\<close>

definition parse_query :: "string \<Rightarrow> query" where
  "parse_query s = List.map_filter query_pair (split_on (CHR ''&'') s)"

definition q_get :: "query \<Rightarrow> string \<Rightarrow> string" where
  "q_get q k = (case map_of q k of None \<Rightarrow> [] | Some v \<Rightarrow> v)"

definition q_set :: "string \<Rightarrow> string \<Rightarrow> query \<Rightarrow> query" where
  "q_set k v q = (k, v) # filter (\<lambda>(a, b). a \<noteq> k) q"

definition q_set_opt :: "string \<Rightarrow> string \<Rightarrow> query \<Rightarrow> query" where
  "q_set_opt k v q = (if v = [] then q else q_set k v q)"

fun str_le :: "string \<Rightarrow> string \<Rightarrow> bool" where
  "str_le [] t = True"
| "str_le (a # s) [] = False"
| "str_le (a # s) (b # t) = (byte a < byte b \<or> (byte a = byte b \<and> str_le s t))"

fun insert_pair :: "string \<times> string \<Rightarrow> query \<Rightarrow> query" where
  "insert_pair p [] = [p]"
| "insert_pair p (r # q) = (if str_le (fst p) (fst r) then p # r # q else r # insert_pair p q)"

text \<open>\<open>Values.Encode\<close> for values with one value per key, which is all the program builds.\<close>

definition q_encode :: "query \<Rightarrow> string" where
  "q_encode q = join_with ''&'' (map (\<lambda>(k, v). escape EncQuery k @ ''='' @ escape EncQuery v) (foldr insert_pair q []))"

lemma q_get_set [simp]: "q_get (q_set k v q) k = v"
  by (simp add: q_get_def q_set_def)

lemma map_of_filter_other: "j \<noteq> k \<Longrightarrow> map_of (filter (\<lambda>(a, b). a \<noteq> k) q) j = map_of q j"
  by (induction q) auto

lemma q_get_set_other: "j \<noteq> k \<Longrightarrow> q_get (q_set k v q) j = q_get q j"
  by (simp add: q_get_def q_set_def map_of_filter_other)

lemma q_get_Nil [simp]: "q_get [] k = []"
  by (simp add: q_get_def)

lemma q_get_set_opt: "q_get (q_set_opt k v q) k = (if v = [] then q_get q k else v)"
  by (simp add: q_set_opt_def)

lemma q_get_set_opt_other: "j \<noteq> k \<Longrightarrow> q_get (q_set_opt k v q) j = q_get q j"
  by (simp add: q_set_opt_def q_get_set_other)

lemma q_get_set_if: "q_get (q_set k v q) j = (if j = k then v else q_get q j)"
  by (simp add: q_get_set_other)

lemma q_get_set_opt_if: "q_get (q_set_opt k v q) j = (if j = k \<and> v \<noteq> [] then v else q_get q j)"
  by (simp add: q_set_opt_def q_get_set_if)

section \<open>Writing a URL\<close>

definition join_host_port :: "string \<Rightarrow> string \<Rightarrow> string" where
  "join_host_port h p = (if CHR '':'' \<in> set h then ''['' @ h @ '']:'' @ p else h @ '':'' @ p)"

text \<open>\<open>URL.String\<close> of a URL with a scheme, a user, a host, a query and a fragment, as \<open>buildRawURI\<close> fills
  it in.\<close>

definition url_string :: "string \<Rightarrow> string \<Rightarrow> string \<Rightarrow> string \<Rightarrow> string \<Rightarrow> string" where
  "url_string sch user host raw_query frag =
    sch @ ''://'' @ escape EncUser user @ ''@'' @ escape EncHost host
      @ (if raw_query = [] then [] else ''?'' @ raw_query)
      @ (if frag = [] then [] else ''#'' @ escape EncFragment frag)"

end
