(* ===== verification/Domain.thy ===== *)
theory Domain
  imports GoUrl
begin

text \<open>
  Package \<open>internal/domain\<close> (entities and errors), the error mapping of
  \<open>internal/api/middleware/errors.go\<close> and the merge rules of \<open>internal/app/tunnel_merge.go\<close>.

  Instants are integers (\<open>time.Time\<close> in seconds, the resolution at which the database keeps them); database
  ids are unbounded integers, as the program only compares them. A nil pointer is \<open>None\<close>. A \<open>json.RawMessage\<close>
  is a \<open>raw_json\<close> (theory GoJson).
\<close>

section \<open>Errors\<close>

datatype sentinel =
    NotFound | Conflict | NodeInUse | Validation | Unauthorized | RateLimited | BootstrapDone
  | InvalidPassword | SessionNotFound | SessionExpired

datatype error_code =
    CodeNotFound | CodeUnauthorized | CodeForbidden | CodeValidation | CodeConflict | CodeNodeInUse
  | CodeRateLimited | CodeBootstrapDone | CodeInternal

text \<open>
  An error value: a sentinel of the program, a \<open>*domain.Error\<close>, the framework's \<open>*echo.HTTPError\<close> (its
  message is any value; only strings, errors and the rest are told apart), an error wrapped by
  \<open>fmt.Errorf("...: %w", err)\<close>, or an error of the standard library or of a dependency, of which the
  program uses the text only.
\<close>

datatype go_error =
    Sentinel sentinel
  | DomErr error_code string "go_error option"
  | HTTPErr int http_message "go_error option"
  | Wrap string go_error
  | Opaque string
and http_message = MsgString string | MsgError go_error | MsgNil | MsgOther

type_synonym ('s, 'a) call = "('s, go_error, 'a) go"

abbreviation (input) ErrNotFound :: go_error where "ErrNotFound \<equiv> Sentinel NotFound"
abbreviation (input) ErrConflict :: go_error where "ErrConflict \<equiv> Sentinel Conflict"
abbreviation (input) ErrNodeInUse :: go_error where "ErrNodeInUse \<equiv> Sentinel NodeInUse"
abbreviation (input) ErrValidation :: go_error where "ErrValidation \<equiv> Sentinel Validation"
abbreviation (input) ErrUnauthorized :: go_error where "ErrUnauthorized \<equiv> Sentinel Unauthorized"
abbreviation (input) ErrRateLimited :: go_error where "ErrRateLimited \<equiv> Sentinel RateLimited"
abbreviation (input) ErrBootstrapDone :: go_error where "ErrBootstrapDone \<equiv> Sentinel BootstrapDone"
abbreviation (input) ErrInvalidPassword :: go_error where "ErrInvalidPassword \<equiv> Sentinel InvalidPassword"

fun sentinel_text :: "sentinel \<Rightarrow> string" where
  "sentinel_text NotFound = ''not_found''"
| "sentinel_text Conflict = ''conflict''"
| "sentinel_text NodeInUse = ''manual node is in use by a tunnel; change the tunnel outbound first''"
| "sentinel_text Validation = ''validation''"
| "sentinel_text Unauthorized = ''unauthorized''"
| "sentinel_text RateLimited = ''rate_limited''"
| "sentinel_text BootstrapDone = ''bootstrap_done''"
| "sentinel_text InvalidPassword = ''invalid_password''"
| "sentinel_text SessionNotFound = ''refresh session not found''"
| "sentinel_text SessionExpired = ''refresh session expired''"

fun code_text :: "error_code \<Rightarrow> string" where
  "code_text CodeNotFound = ''NOT_FOUND''"
| "code_text CodeUnauthorized = ''UNAUTHORIZED''"
| "code_text CodeForbidden = ''FORBIDDEN''"
| "code_text CodeValidation = ''VALIDATION''"
| "code_text CodeConflict = ''CONFLICT''"
| "code_text CodeNodeInUse = ''NODE_IN_USE''"
| "code_text CodeRateLimited = ''RATE_LIMIT''"
| "code_text CodeBootstrapDone = ''BOOTSTRAP_DONE''"
| "code_text CodeInternal = ''INTERNAL''"

text \<open>The \<open>Error()\<close> method. The text of a framework error is not used by the program (its \<open>%v\<close>
  rendering of the message is the framework's); it is the status code here.\<close>

fun error_text :: "go_error \<Rightarrow> string" where
  "error_text (Sentinel s) = sentinel_text s"
| "error_text (DomErr c m (Some e)) = m @ '': '' @ error_text e"
| "error_text (DomErr c m None) = m"
| "error_text (HTTPErr c m i) = ''code='' @ itoa c"
| "error_text (Wrap p e) = p @ '': '' @ error_text e"
| "error_text (Opaque m) = m"

text \<open>The chain that \<open>errors.Is\<close> and \<open>errors.As\<close> walk: the error, what it unwraps to, and so on.\<close>

fun err_chain :: "go_error \<Rightarrow> go_error list" where
  "err_chain (Sentinel s) = [Sentinel s]"
| "err_chain (DomErr c m (Some e)) = DomErr c m (Some e) # err_chain e"
| "err_chain (DomErr c m None) = [DomErr c m None]"
| "err_chain (HTTPErr c m (Some e)) = HTTPErr c m (Some e) # err_chain e"
| "err_chain (HTTPErr c m None) = [HTTPErr c m None]"
| "err_chain (Wrap p e) = Wrap p e # err_chain e"
| "err_chain (Opaque m) = [Opaque m]"

definition errors_is :: "go_error \<Rightarrow> sentinel \<Rightarrow> bool" where
  "errors_is e s \<longleftrightarrow> Sentinel s \<in> set (err_chain e)"

fun first_dom :: "go_error list \<Rightarrow> (error_code \<times> string) option" where
  "first_dom [] = None"
| "first_dom (DomErr c m i # es) = Some (c, m)"
| "first_dom (e # es) = first_dom es"

fun first_http :: "go_error list \<Rightarrow> (int \<times> http_message) option" where
  "first_http [] = None"
| "first_http (HTTPErr c m i # es) = Some (c, m)"
| "first_http (e # es) = first_http es"

definition errors_as_dom :: "go_error \<Rightarrow> (error_code \<times> string) option" where
  "errors_as_dom e = first_dom (err_chain e)"

definition errors_as_http :: "go_error \<Rightarrow> (int \<times> http_message) option" where
  "errors_as_http e = first_http (err_chain e)"

lemma err_chain_ne [simp]: "err_chain e \<noteq> []"
  by (cases e rule: err_chain.cases) auto

definition NewNotFoundError :: "string \<Rightarrow> go_error" where
  "NewNotFoundError msg = DomErr CodeNotFound msg None"

definition NewUnauthorizedError :: "string \<Rightarrow> go_error" where
  "NewUnauthorizedError msg = DomErr CodeUnauthorized msg None"

definition NewValidationError :: "string \<Rightarrow> go_error" where
  "NewValidationError msg = DomErr CodeValidation msg None"

definition NewConflictError :: "string \<Rightarrow> go_error" where
  "NewConflictError msg = DomErr CodeConflict msg None"

definition NewForbiddenError :: "string \<Rightarrow> go_error" where
  "NewForbiddenError msg = DomErr CodeForbidden msg None"

section \<open>Mapping of errors to responses (middleware/errors.go)\<close>

record mapped_error =
  me_status :: int
  me_code :: string
  me_msg :: string
  me_log :: bool

text \<open>\<open>http.StatusText\<close> for the client-error codes the framework and the handlers use; the standard
  library gives the empty string for a code it does not know.\<close>

definition status_text :: "int \<Rightarrow> string" where
  "status_text c = (case map_of
     [(200, ''OK''), (201, ''Created''), (202, ''Accepted''), (204, ''No Content''),
      (301, ''Moved Permanently''), (302, ''Found''), (304, ''Not Modified''),
      (400, ''Bad Request''), (401, ''Unauthorized''), (402, ''Payment Required''), (403, ''Forbidden''),
      (404, ''Not Found''), (405, ''Method Not Allowed''), (406, ''Not Acceptable''),
      (407, ''Proxy Authentication Required''), (408, ''Request Timeout''), (409, ''Conflict''),
      (410, ''Gone''), (411, ''Length Required''), (412, ''Precondition Failed''),
      (413, ''Request Entity Too Large''), (414, ''Request URI Too Long''),
      (415, ''Unsupported Media Type''), (416, ''Requested Range Not Satisfiable''),
      (417, ''Expectation Failed''), (418, ''I'' @ [CHR 0x27] @ ''m a teapot''),
      (421, ''Misdirected Request''), (422, ''Unprocessable Entity''), (423, ''Locked''),
      (424, ''Failed Dependency''), (425, ''Too Early''), (426, ''Upgrade Required''),
      (428, ''Precondition Required''), (429, ''Too Many Requests''),
      (431, ''Request Header Fields Too Large''), (451, ''Unavailable For Legal Reasons'')] c
   of None \<Rightarrow> [] | Some t \<Rightarrow> t)"

fun httpStatusTextSafe :: "int \<Rightarrow> http_message \<Rightarrow> string" where
  "httpStatusTextSafe c (MsgString m) = m"
| "httpStatusTextSafe c (MsgError e) = error_text e"
| "httpStatusTextSafe c MsgNil = status_text c"
| "httpStatusTextSafe c MsgOther = status_text c"

fun httpStatusAndCodeForDomain :: "error_code \<Rightarrow> int \<times> error_code" where
  "httpStatusAndCodeForDomain CodeNotFound = (404, CodeNotFound)"
| "httpStatusAndCodeForDomain CodeUnauthorized = (401, CodeUnauthorized)"
| "httpStatusAndCodeForDomain CodeForbidden = (403, CodeForbidden)"
| "httpStatusAndCodeForDomain CodeValidation = (400, CodeValidation)"
| "httpStatusAndCodeForDomain CodeConflict = (409, CodeConflict)"
| "httpStatusAndCodeForDomain CodeNodeInUse = (409, CodeNodeInUse)"
| "httpStatusAndCodeForDomain CodeRateLimited = (429, CodeRateLimited)"
| "httpStatusAndCodeForDomain CodeBootstrapDone = (400, CodeBootstrapDone)"
| "httpStatusAndCodeForDomain CodeInternal = (500, CodeInternal)"

definition internal_response :: "int \<Rightarrow> mapped_error" where
  "internal_response st =
    \<lparr>me_status = st, me_code = ''INTERNAL'', me_msg = ''internal server error'', me_log = True\<rparr>"

definition sentinel_response :: "int \<Rightarrow> string \<Rightarrow> sentinel \<Rightarrow> mapped_error" where
  "sentinel_response st code s =
    \<lparr>me_status = st, me_code = code, me_msg = sentinel_text s, me_log = False\<rparr>"

definition mapError :: "go_error \<Rightarrow> mapped_error" where
  "mapError err =
    (case errors_as_dom err of
      Some (c, msg) \<Rightarrow>
        (let (st, dc) = httpStatusAndCodeForDomain c
         in if st \<ge> 500 then internal_response st
            else \<lparr>me_status = st, me_code = code_text dc, me_msg = msg, me_log = False\<rparr>)
    | None \<Rightarrow>
        if errors_is err Unauthorized then sentinel_response 401 ''UNAUTHORIZED'' Unauthorized
        else if errors_is err NotFound then sentinel_response 404 ''NOT_FOUND'' NotFound
        else if errors_is err Conflict then sentinel_response 409 ''CONFLICT'' Conflict
        else if errors_is err NodeInUse then sentinel_response 409 ''NODE_IN_USE'' NodeInUse
        else if errors_is err Validation then sentinel_response 400 ''VALIDATION'' Validation
        else if errors_is err RateLimited then sentinel_response 429 ''RATE_LIMIT'' RateLimited
        else if errors_is err BootstrapDone then sentinel_response 400 ''BOOTSTRAP_DONE'' BootstrapDone
        else if errors_is err InvalidPassword then sentinel_response 401 ''UNAUTHORIZED'' InvalidPassword
        else case errors_as_http err of
          Some (code, m) \<Rightarrow>
            if code \<ge> 500 then internal_response 500
            else \<lparr>me_status = code, me_code = (if code = 401 then ''UNAUTHORIZED'' else ''HTTP_ERROR''),
                  me_msg = httpStatusTextSafe code m, me_log = False\<rparr>
        | None \<Rightarrow> internal_response 500)"

text \<open>\<open>ErrorHandler\<close>: the request id is the context's, else the response header's, else the request
  header's. The result is the status and the three fields of the JSON body, and whether the error is
  logged.\<close>

record error_detail =
  ed_code :: string
  ed_message :: string
  ed_request_id :: string

definition ErrorHandler :: "go_error \<Rightarrow> string \<Rightarrow> string \<Rightarrow> string \<Rightarrow> int \<times> error_detail \<times> bool" where
  "ErrorHandler err ctx_rid resp_rid req_rid =
    (let m = mapError err;
         rid = (if ctx_rid = [] then (if resp_rid = [] then req_rid else resp_rid) else ctx_rid)
     in (me_status m, \<lparr>ed_code = me_code m, ed_message = me_msg m, ed_request_id = rid\<rparr>, me_log m))"

lemma chain_Wrap [simp]:
  "errors_as_dom (Wrap p e) = errors_as_dom e"
  "errors_as_http (Wrap p e) = errors_as_http e"
  "errors_is (Wrap p e) s = errors_is e s"
  by (simp_all add: errors_as_dom_def errors_as_http_def errors_is_def)

text \<open>\<open>fmt.Errorf\<close> with \<open>%w\<close> hides nothing from the mapping.\<close>

lemma mapError_Wrap [simp]: "mapError (Wrap p e) = mapError e"
  by (simp only: mapError_def chain_Wrap)

lemma domain_status_client: "c \<noteq> CodeInternal \<Longrightarrow> fst (httpStatusAndCodeForDomain c) < 500"
  by (cases c) auto

section \<open>Entities\<close>

datatype sub_status = SubInactive | SubActive | SubError

record subscription =
  sub_id :: int
  sub_name :: string
  sub_url :: string
  sub_refresh :: int
  sub_fetched :: "int option"
  sub_node_count :: int
  sub_status :: sub_status
  sub_error :: string
  sub_created :: int
  sub_updated :: int

record vless_node =
  vn_id :: int
  vn_sub :: int
  vn_display :: string
  vn_uuid :: string
  vn_address :: string
  vn_port :: int
  vn_flow :: string
  vn_encryption :: string
  vn_packet :: string
  vn_network :: string
  vn_transport :: raw_json
  vn_security :: string
  vn_sec_config :: raw_json
  vn_raw :: string
  vn_created :: int

datatype wg_status = WgRunning | WgStopped | WgError

record wg_interface =
  wi_id :: int
  wi_name :: string
  wi_tun :: string
  wi_pubkey :: string
  wi_port :: int
  wi_address :: string
  wi_dns :: string
  wi_mtu :: int
  wi_mss :: int
  wi_sub :: "int option"
  wi_node :: "int option"
  wi_xray_port :: int
  wi_fwmark :: int
  wi_status :: wg_status
  wi_error :: string
  wi_uptime :: "int option"
  wi_strategy :: string
  wi_created :: int
  wi_updated :: int

record wg_peer =
  wp_id :: int
  wp_iface :: int
  wp_name :: string
  wp_pubkey :: string
  wp_address :: string
  wp_allowed :: string
  wp_keepalive :: int
  wp_handshake :: "int option"
  wp_rx :: int
  wp_tx :: int
  wp_created :: int
  wp_updated :: int

record node_health_entry =
  nh_tag :: string
  nh_alive :: bool
  nh_delay :: int

record stat_snapshot =
  ss_id :: int
  ss_iface :: "int option"
  ss_peer :: "int option"
  ss_rx :: int
  ss_tx :: int
  ss_rx_rate :: int
  ss_tx_rate :: int
  ss_active :: "int option"
  ss_at :: int

record active_binding =
  ab_iface :: int
  ab_raw :: string

record tunnel_binding =
  tb_iface :: int
  tb_raw :: string
  tb_pos :: int

definition BalancingRoundRobin :: string where "BalancingRoundRobin = ''round_robin''"
definition BalancingLeastPing :: string where "BalancingLeastPing = ''least_ping''"

section \<open>Merging a PUT body over the stored tunnel (app/tunnel_merge.go)\<close>

text \<open>The Go functions mutate \<open>incoming\<close>; here they return it. The nil checks of the two pointers are
  not needed: both callers pass values.\<close>

definition PreserveTunnelLifecycleOnMetadataUpdate :: "wg_interface \<Rightarrow> wg_interface \<Rightarrow> wg_interface" where
  "PreserveTunnelLifecycleOnMetadataUpdate existing incoming =
    incoming\<lparr>wi_status := wi_status existing, wi_error := wi_error existing,
             wi_uptime := wi_uptime existing\<rparr>"

definition PreserveTunnelUpdateBindings :: "wg_interface \<Rightarrow> wg_interface \<Rightarrow> wg_interface" where
  "PreserveTunnelUpdateBindings existing incoming =
    (if wi_node incoming \<noteq> None \<or> wi_node existing = None then incoming
     else let incSub = (case wi_sub incoming of None \<Rightarrow> wi_sub existing | Some x \<Rightarrow> Some x)
          in if wi_sub existing = None \<or> incSub = None then incoming
             else if wi_sub existing = incSub then incoming\<lparr>wi_node := wi_node existing\<rparr>
             else incoming)"

end
