(* ===== verification/Vless.thy ===== *)
theory Vless
  imports Domain
begin

text \<open>
  Package \<open>internal/vless\<close>: the registries of transports and security modes, the six transports, the three
  security modes, \<open>ParseURI\<close> (parse.go) and \<open>Build\<close> (build.go). A \<open>Spec\<close> (an \<open>any\<close> that each
  implementation asserts to its own struct) is a tagged union. Of the text of a formatted error only the
  literal part is kept.
\<close>

section \<open>Specs\<close>

record ws_spec =
  ws_path :: string
  ws_host :: string

record grpc_spec =
  gr_service :: string
  gr_multi :: bool
  gr_authority :: string

record httpupgrade_spec =
  hu_path :: string
  hu_host :: string
  hu_headers :: "(string \<times> string) list"

record kcp_spec =
  kcp_header :: string
  kcp_seed :: string

record xhttp_spec =
  xh_path :: string
  xh_host :: string
  xh_mode :: string
  xh_extra :: raw_json

record tls_spec =
  tls_server :: string
  tls_alpn :: "string list"
  tls_fp :: string
  tls_insecure :: bool

record reality_spec =
  re_server :: string
  re_fp :: string
  re_pbk :: string
  re_sid :: string
  re_spx :: string

datatype transport = TCP | WS | GRPC | HTTPUpgrade | KCP | XHTTP
datatype tspec = TCPSpec | WSSpec ws_spec | GRPCSpec grpc_spec | HTTPUpgradeSpec httpupgrade_spec
  | KCPSpec kcp_spec | XHTTPSpec xhttp_spec

datatype security = NoneSec | TLS | REALITY
datatype sspec = NoneSpec | TLSSpec tls_spec | RealitySpec reality_spec

definition json_error :: go_error where
  "json_error = Opaque ''json''"

definition decoded :: "'a option \<Rightarrow> go_error + 'a" where
  "decoded v = (case v of None \<Rightarrow> Inl json_error | Some x \<Rightarrow> Inr x)"

section \<open>Transports\<close>

subsection \<open>ws.go\<close>

definition ws_ParseURI :: "query \<Rightarrow> ws_spec" where
  "ws_ParseURI q = \<lparr>ws_path = trim_space (q_get q ''path''), ws_host = trim_space (q_get q ''host'')\<rparr>"

definition ws_EmitSettings :: "ws_spec \<Rightarrow> json" where
  "ws_EmitSettings s = JObj
     [(''path'', JStr (if ws_path s \<noteq> [] \<and> has_prefix (ws_path s) ''/'' then ws_path s else ''/'')),
      (''headers'', JObj [(''Host'', JStr (ws_host s))])]"

definition ws_EncodeSpec :: "ws_spec \<Rightarrow> json" where
  "ws_EncodeSpec s = JObj (opt_str ''path'' (ws_path s) @ opt_str ''host'' (ws_host s))"

definition ws_DecodeSpec :: "raw_json \<Rightarrow> ws_spec option" where
  "ws_DecodeSpec d = (case struct_members d of None \<Rightarrow> None | Some ms \<Rightarrow>
     (case (field_string ''path'' ms, field_string ''host'' ms) of
       (Some p, Some h) \<Rightarrow> Some \<lparr>ws_path = p, ws_host = h\<rparr> | _ \<Rightarrow> None))"

definition ws_ShareLink :: "ws_spec \<Rightarrow> query" where
  "ws_ShareLink s = q_set_opt ''host'' (ws_host s) (q_set_opt ''path'' (ws_path s) [])"

subsection \<open>grpc.go\<close>

definition grpc_ParseURI :: "query \<Rightarrow> grpc_spec" where
  "grpc_ParseURI q =
    (let svc = trim_space (q_get q ''serviceName'')
     in \<lparr>gr_service = (if svc = [] then trim_space (q_get q ''alpn'') else svc),
         gr_multi = equal_fold (trim_space (q_get q ''mode'')) ''multi'',
         gr_authority = trim_space (q_get q ''authority'')\<rparr>)"

definition grpc_EmitSettings :: "grpc_spec \<Rightarrow> json" where
  "grpc_EmitSettings s = JObj
     ([(''serviceName'', JStr (if gr_service s = [] then ''GunService'' else gr_service s))]
      @ (if gr_multi s then [(''multiMode'', JBool True)] else [])
      @ (if gr_authority s \<noteq> [] then [(''authority'', JStr (gr_authority s))] else []))"

definition grpc_EncodeSpec :: "grpc_spec \<Rightarrow> json" where
  "grpc_EncodeSpec s = JObj (opt_str ''serviceName'' (gr_service s) @ opt_bool ''multiMode'' (gr_multi s)
     @ opt_str ''authority'' (gr_authority s))"

definition grpc_DecodeSpec :: "raw_json \<Rightarrow> grpc_spec option" where
  "grpc_DecodeSpec d = (case struct_members d of None \<Rightarrow> None | Some ms \<Rightarrow>
     (case (field_string ''serviceName'' ms, field_bool ''multiMode'' ms, field_string ''authority'' ms) of
       (Some n, Some m, Some a) \<Rightarrow> Some \<lparr>gr_service = n, gr_multi = m, gr_authority = a\<rparr> | _ \<Rightarrow> None))"

definition grpc_ShareLink :: "grpc_spec \<Rightarrow> query" where
  "grpc_ShareLink s = q_set_opt ''authority'' (gr_authority s)
     (q_set_opt ''mode'' (if gr_multi s then ''multi'' else []) (q_set_opt ''serviceName'' (gr_service s) []))"

subsection \<open>httpupgrade.go\<close>

definition httpupgrade_ParseURI :: "query \<Rightarrow> httpupgrade_spec" where
  "httpupgrade_ParseURI q = \<lparr>hu_path = trim_space (q_get q ''path''), hu_host = trim_space (q_get q ''host''),
     hu_headers = []\<rparr>"

definition httpupgrade_EmitSettings :: "httpupgrade_spec \<Rightarrow> json" where
  "httpupgrade_EmitSettings s = JObj
     ([(''path'', JStr (if hu_path s = [] then ''/'' else hu_path s))]
      @ (if hu_host s \<noteq> [] then [(''host'', JStr (hu_host s))] else [])
      @ (if hu_headers s \<noteq> [] then [(''headers'', JObj (map (\<lambda>(k, v). (k, JStr v)) (hu_headers s)))] else []))"

definition httpupgrade_EncodeSpec :: "httpupgrade_spec \<Rightarrow> json" where
  "httpupgrade_EncodeSpec s = JObj (opt_str ''path'' (hu_path s) @ opt_str ''host'' (hu_host s)
     @ (if hu_headers s = [] then []
        else [(''headers'', JObj (map (\<lambda>(k, v). (utf8_fix k, JStr (utf8_fix v))) (hu_headers s)))]))"

definition httpupgrade_DecodeSpec :: "raw_json \<Rightarrow> httpupgrade_spec option" where
  "httpupgrade_DecodeSpec d = (case struct_members d of None \<Rightarrow> None | Some ms \<Rightarrow>
     (case (field_string ''path'' ms, field_string ''host'' ms, field_string_map ''headers'' ms) of
       (Some p, Some h, Some hs) \<Rightarrow> Some \<lparr>hu_path = p, hu_host = h, hu_headers = hs\<rparr> | _ \<Rightarrow> None))"

definition httpupgrade_ShareLink :: "httpupgrade_spec \<Rightarrow> query" where
  "httpupgrade_ShareLink s = q_set_opt ''host'' (hu_host s) (q_set_opt ''path'' (hu_path s) [])"

subsection \<open>kcp.go\<close>

definition allowedKCPHeaderTypes :: "string list" where
  "allowedKCPHeaderTypes = [''none'', ''srtp'', ''utp'', ''wechat-video'', ''dtls'', ''wireguard'', ''dns'']"

definition kcp_ParseURI :: "query \<Rightarrow> kcp_spec" where
  "kcp_ParseURI q = \<lparr>kcp_header = trim_space (q_get q ''headerType''), kcp_seed = trim_space (q_get q ''seed'')\<rparr>"

definition kcp_Validate :: "kcp_spec \<Rightarrow> go_error option" where
  "kcp_Validate s = (if kcp_header s = [] \<or> kcp_header s \<in> set allowedKCPHeaderTypes then None
     else Some (Opaque ''kcp: invalid headerType''))"

definition kcp_EmitSettings :: "kcp_spec \<Rightarrow> json" where
  "kcp_EmitSettings s = JObj
     ([(''mtu'', JInt 1350), (''tti'', JInt 20), (''uplinkCapacity'', JInt 5), (''downlinkCapacity'', JInt 20),
       (''congestion'', JBool False), (''readBufferSize'', JInt 1), (''writeBufferSize'', JInt 1),
       (''header'', JObj [(''type'', JStr (if kcp_header s = [] then ''none'' else kcp_header s))])]
      @ (if kcp_seed s \<noteq> [] then [(''seed'', JStr (kcp_seed s))] else []))"

definition kcp_EncodeSpec :: "kcp_spec \<Rightarrow> json" where
  "kcp_EncodeSpec s = JObj (opt_str ''headerType'' (kcp_header s) @ opt_str ''seed'' (kcp_seed s))"

definition kcp_DecodeSpec :: "raw_json \<Rightarrow> kcp_spec option" where
  "kcp_DecodeSpec d = (case struct_members d of None \<Rightarrow> None | Some ms \<Rightarrow>
     (case (field_string ''headerType'' ms, field_string ''seed'' ms) of
       (Some h, Some s) \<Rightarrow> Some \<lparr>kcp_header = h, kcp_seed = s\<rparr> | _ \<Rightarrow> None))"

definition kcp_ShareLink :: "kcp_spec \<Rightarrow> query" where
  "kcp_ShareLink s = q_set_opt ''seed'' (kcp_seed s) (q_set_opt ''headerType'' (kcp_header s) [])"

subsection \<open>xhttp.go\<close>

definition xhttp_ParseURI :: "query \<Rightarrow> xhttp_spec" where
  "xhttp_ParseURI q =
    (let mode = trim_space (q_get q ''mode''); raw = trim_space (q_get q ''extra'')
     in \<lparr>xh_path = trim_space (q_get q ''path''), xh_host = trim_space (q_get q ''host''),
         xh_mode = (if mode = [] then ''auto'' else mode),
         xh_extra = (if raw = [] then RawEmpty
                     else case json_parse raw of None \<Rightarrow> RawEmpty | Some j \<Rightarrow> RawDoc j)\<rparr>)"

definition xhttp_Validate :: "xhttp_spec \<Rightarrow> go_error option" where
  "xhttp_Validate s = (if xh_mode s \<in> {[], ''auto'', ''packet-up'', ''stream-up'', ''stream-one''} then None
     else Some (Opaque ''xhttp: invalid mode''))"

definition defaultString :: "string \<Rightarrow> string \<Rightarrow> string" where
  "defaultString v def = (if v = [] then def else v)"

text \<open>\<open>Extra\<close> is emitted when it decodes into a \<open>map[string]any\<close>; null decodes into the nil map.\<close>

definition xhttp_EmitSettings :: "xhttp_spec \<Rightarrow> json" where
  "xhttp_EmitSettings s = JObj
     ([(''path'', JStr (if xh_path s = [] then ''/'' else xh_path s)),
       (''mode'', JStr (defaultString (xh_mode s) ''auto''))]
      @ (if xh_host s \<noteq> [] then [(''host'', JStr (xh_host s))] else [])
      @ (case xh_extra s of
           RawDoc (JObj ms) \<Rightarrow> [(''extra'', JObj ms)]
         | RawDoc JNull \<Rightarrow> [(''extra'', JNull)]
         | _ \<Rightarrow> []))"

definition xhttp_EncodeSpec :: "xhttp_spec \<Rightarrow> json option" where
  "xhttp_EncodeSpec s =
    (let base = opt_str ''path'' (xh_path s) @ opt_str ''host'' (xh_host s) @ opt_str ''mode'' (xh_mode s)
     in case xh_extra s of
          RawEmpty \<Rightarrow> Some (JObj base)
        | RawCorrupt \<Rightarrow> None
        | RawDoc j \<Rightarrow> Some (JObj (base @ [(''extra'', j)])))"

definition xhttp_DecodeSpec :: "raw_json \<Rightarrow> xhttp_spec option" where
  "xhttp_DecodeSpec d = (case struct_members d of None \<Rightarrow> None | Some ms \<Rightarrow>
     (case (field_string ''path'' ms, field_string ''host'' ms, field_string ''mode'' ms) of
       (Some p, Some h, Some m) \<Rightarrow>
          Some \<lparr>xh_path = p, xh_host = h, xh_mode = m, xh_extra = field_raw ''extra'' ms\<rparr> | _ \<Rightarrow> None))"

definition xhttp_ShareLink :: "xhttp_spec \<Rightarrow> query" where
  "xhttp_ShareLink s = q_set_opt ''extra'' (raw_text (xh_extra s))
     (q_set_opt ''mode'' (if xh_mode s = ''auto'' then [] else xh_mode s)
       (q_set_opt ''host'' (xh_host s) (q_set_opt ''path'' (xh_path s) [])))"

subsection \<open>The interface\<close>

fun tr_Name :: "transport \<Rightarrow> string" where
  "tr_Name TCP = ''tcp''" | "tr_Name WS = ''ws''" | "tr_Name GRPC = ''grpc''"
| "tr_Name HTTPUpgrade = ''httpupgrade''" | "tr_Name KCP = ''kcp''" | "tr_Name XHTTP = ''xhttp''"

fun tr_Aliases :: "transport \<Rightarrow> string list" where
  "tr_Aliases WS = [''websocket'']" | "tr_Aliases GRPC = [''gun'']" | "tr_Aliases KCP = [''mkcp'']"
| "tr_Aliases XHTTP = [''splithttp'']" | "tr_Aliases _ = []"

fun tr_ParseURI :: "transport \<Rightarrow> query \<Rightarrow> tspec" where
  "tr_ParseURI TCP q = TCPSpec"
| "tr_ParseURI WS q = WSSpec (ws_ParseURI q)"
| "tr_ParseURI GRPC q = GRPCSpec (grpc_ParseURI q)"
| "tr_ParseURI HTTPUpgrade q = HTTPUpgradeSpec (httpupgrade_ParseURI q)"
| "tr_ParseURI KCP q = KCPSpec (kcp_ParseURI q)"
| "tr_ParseURI XHTTP q = XHTTPSpec (xhttp_ParseURI q)"

fun tr_Validate :: "tspec \<Rightarrow> go_error option" where
  "tr_Validate (KCPSpec s) = kcp_Validate s"
| "tr_Validate (XHTTPSpec s) = xhttp_Validate s"
| "tr_Validate _ = None"

fun tr_EmitSettings :: "tspec \<Rightarrow> json option" where
  "tr_EmitSettings TCPSpec = None"
| "tr_EmitSettings (WSSpec s) = Some (ws_EmitSettings s)"
| "tr_EmitSettings (GRPCSpec s) = Some (grpc_EmitSettings s)"
| "tr_EmitSettings (HTTPUpgradeSpec s) = Some (httpupgrade_EmitSettings s)"
| "tr_EmitSettings (KCPSpec s) = Some (kcp_EmitSettings s)"
| "tr_EmitSettings (XHTTPSpec s) = Some (xhttp_EmitSettings s)"

fun tr_EncodeSpec :: "tspec \<Rightarrow> go_error + raw_json" where
  "tr_EncodeSpec TCPSpec = Inr (RawDoc (JObj []))"
| "tr_EncodeSpec (WSSpec s) = Inr (RawDoc (ws_EncodeSpec s))"
| "tr_EncodeSpec (GRPCSpec s) = Inr (RawDoc (grpc_EncodeSpec s))"
| "tr_EncodeSpec (HTTPUpgradeSpec s) = Inr (RawDoc (httpupgrade_EncodeSpec s))"
| "tr_EncodeSpec (KCPSpec s) = Inr (RawDoc (kcp_EncodeSpec s))"
| "tr_EncodeSpec (XHTTPSpec s) = decoded (map_option RawDoc (xhttp_EncodeSpec s))"

fun tr_DecodeSpec :: "transport \<Rightarrow> raw_json \<Rightarrow> go_error + tspec" where
  "tr_DecodeSpec TCP d = Inr TCPSpec"
| "tr_DecodeSpec WS d = decoded (map_option WSSpec (ws_DecodeSpec d))"
| "tr_DecodeSpec GRPC d = decoded (map_option GRPCSpec (grpc_DecodeSpec d))"
| "tr_DecodeSpec HTTPUpgrade d = decoded (map_option HTTPUpgradeSpec (httpupgrade_DecodeSpec d))"
| "tr_DecodeSpec KCP d = decoded (map_option KCPSpec (kcp_DecodeSpec d))"
| "tr_DecodeSpec XHTTP d = decoded (map_option XHTTPSpec (xhttp_DecodeSpec d))"

fun tr_ShareLink :: "tspec \<Rightarrow> query" where
  "tr_ShareLink TCPSpec = []"
| "tr_ShareLink (WSSpec s) = ws_ShareLink s"
| "tr_ShareLink (GRPCSpec s) = grpc_ShareLink s"
| "tr_ShareLink (HTTPUpgradeSpec s) = httpupgrade_ShareLink s"
| "tr_ShareLink (KCPSpec s) = kcp_ShareLink s"
| "tr_ShareLink (XHTTPSpec s) = xhttp_ShareLink s"

section \<open>Security modes\<close>

subsection \<open>tls.go\<close>

definition splitALPN :: "string \<Rightarrow> string list" where
  "splitALPN raw = (if trim_space raw = [] then []
     else filter (\<lambda>p. p \<noteq> []) (map trim_space (split_on (CHR '','') raw)))"

definition tls_ParseURI :: "query \<Rightarrow> tls_spec" where
  "tls_ParseURI q = \<lparr>tls_server = trim_space (q_get q ''sni''), tls_alpn = splitALPN (q_get q ''alpn''),
     tls_fp = trim_space (q_get q ''fp''),
     tls_insecure = to_lower (trim_space (q_get q ''allowInsecure'')) \<in> {''1'', ''true'', ''yes''}\<rparr>"

text \<open>The fingerprint is not emitted.\<close>

definition tls_EmitSettings :: "tls_spec \<Rightarrow> json" where
  "tls_EmitSettings s = JObj
     [(''allowInsecure'', JBool (tls_insecure s)), (''serverName'', JStr (tls_server s)),
      (''alpn'', if tls_alpn s = [] then JNull else JArr (map JStr (tls_alpn s)))]"

definition tls_EncodeSpec :: "tls_spec \<Rightarrow> json" where
  "tls_EncodeSpec s = JObj (opt_str ''serverName'' (tls_server s) @ opt_strs ''alpn'' (tls_alpn s)
     @ opt_str ''fingerprint'' (tls_fp s) @ opt_bool ''allowInsecure'' (tls_insecure s))"

definition tls_DecodeSpec :: "raw_json \<Rightarrow> tls_spec option" where
  "tls_DecodeSpec d = (case struct_members d of None \<Rightarrow> None | Some ms \<Rightarrow>
     (case (field_string ''serverName'' ms, field_strings ''alpn'' ms, field_string ''fingerprint'' ms,
            field_bool ''allowInsecure'' ms) of
       (Some n, Some a, Some f, Some i) \<Rightarrow> Some \<lparr>tls_server = n, tls_alpn = a, tls_fp = f, tls_insecure = i\<rparr>
     | _ \<Rightarrow> None))"

definition tls_ShareLink :: "tls_spec \<Rightarrow> query" where
  "tls_ShareLink s =
    (let q1 = q_set_opt ''sni'' (tls_server s) [];
         q2 = (if tls_alpn s \<noteq> [] then q_set ''alpn'' (join_with '','' (tls_alpn s)) q1 else q1);
         q3 = q_set_opt ''fp'' (tls_fp s) q2
     in if tls_insecure s then q_set ''allowInsecure'' ''1'' q3 else q3)"

subsection \<open>reality.go\<close>

definition reality_ParseURI :: "query \<Rightarrow> reality_spec" where
  "reality_ParseURI q = \<lparr>re_server = trim_space (q_get q ''sni''), re_fp = trim_space (q_get q ''fp''),
     re_pbk = trim_space (q_get q ''pbk''), re_sid = trim_space (q_get q ''sid''),
     re_spx = trim_space (q_get q ''spx'')\<rparr>"

definition reality_Validate :: "reality_spec \<Rightarrow> go_error option" where
  "reality_Validate s = (if re_pbk s = [] then Some (Opaque ''reality: missing required pbk (publicKey)'') else None)"

definition reality_EmitSettings :: "reality_spec \<Rightarrow> json" where
  "reality_EmitSettings s = JObj
     [(''fingerprint'', JStr (if re_fp s = [] then ''chrome'' else re_fp s)),
      (''serverName'', JStr (re_server s)), (''publicKey'', JStr (re_pbk s)), (''shortId'', JStr (re_sid s)),
      (''spiderX'', JStr (if re_spx s = [] then ''/'' else re_spx s))]"

definition reality_EncodeSpec :: "reality_spec \<Rightarrow> json" where
  "reality_EncodeSpec s = JObj (opt_str ''serverName'' (re_server s) @ opt_str ''fingerprint'' (re_fp s)
     @ opt_str ''publicKey'' (re_pbk s) @ opt_str ''shortId'' (re_sid s) @ opt_str ''spiderX'' (re_spx s))"

definition reality_DecodeSpec :: "raw_json \<Rightarrow> reality_spec option" where
  "reality_DecodeSpec d = (case struct_members d of None \<Rightarrow> None | Some ms \<Rightarrow>
     (case (field_string ''serverName'' ms, field_string ''fingerprint'' ms, field_string ''publicKey'' ms,
            field_string ''shortId'' ms, field_string ''spiderX'' ms) of
       (Some n, Some f, Some p, Some i, Some x) \<Rightarrow>
          Some \<lparr>re_server = n, re_fp = f, re_pbk = p, re_sid = i, re_spx = x\<rparr>
     | _ \<Rightarrow> None))"

definition reality_ShareLink :: "reality_spec \<Rightarrow> query" where
  "reality_ShareLink s = q_set_opt ''spx'' (re_spx s) (q_set_opt ''sid'' (re_sid s) (q_set_opt ''pbk'' (re_pbk s)
     (q_set_opt ''fp'' (re_fp s) (q_set_opt ''sni'' (re_server s) []))))"

subsection \<open>The interface\<close>

fun sec_Name :: "security \<Rightarrow> string" where
  "sec_Name NoneSec = ''none''" | "sec_Name TLS = ''tls''" | "sec_Name REALITY = ''reality''"

definition sec_Aliases :: "security \<Rightarrow> string list" where
  "sec_Aliases s = []"

fun sec_ParseURI :: "security \<Rightarrow> query \<Rightarrow> sspec" where
  "sec_ParseURI NoneSec q = NoneSpec"
| "sec_ParseURI TLS q = TLSSpec (tls_ParseURI q)"
| "sec_ParseURI REALITY q = RealitySpec (reality_ParseURI q)"

fun sec_Validate :: "sspec \<Rightarrow> go_error option" where
  "sec_Validate (RealitySpec s) = reality_Validate s"
| "sec_Validate _ = None"

fun sec_EmitSettings :: "sspec \<Rightarrow> json option" where
  "sec_EmitSettings NoneSpec = None"
| "sec_EmitSettings (TLSSpec s) = Some (tls_EmitSettings s)"
| "sec_EmitSettings (RealitySpec s) = Some (reality_EmitSettings s)"

fun sec_EncodeSpec :: "sspec \<Rightarrow> raw_json" where
  "sec_EncodeSpec NoneSpec = RawDoc (JObj [])"
| "sec_EncodeSpec (TLSSpec s) = RawDoc (tls_EncodeSpec s)"
| "sec_EncodeSpec (RealitySpec s) = RawDoc (reality_EncodeSpec s)"

fun sec_DecodeSpec :: "security \<Rightarrow> raw_json \<Rightarrow> go_error + sspec" where
  "sec_DecodeSpec NoneSec d = Inr NoneSpec"
| "sec_DecodeSpec TLS d = decoded (map_option TLSSpec (tls_DecodeSpec d))"
| "sec_DecodeSpec REALITY d = decoded (map_option RealitySpec (reality_DecodeSpec d))"

fun sec_ShareLink :: "sspec \<Rightarrow> query" where
  "sec_ShareLink NoneSpec = []"
| "sec_ShareLink (TLSSpec s) = tls_ShareLink s"
| "sec_ShareLink (RealitySpec s) = reality_ShareLink s"

end
