(* ===== verification/ShareLinks.thy ===== *)
theory ShareLinks
  imports Vless
begin

text \<open>
  The two registries (transport.go, security.go), \<open>ParseURI\<close> (parse.go) and \<open>Build\<close> (build.go), and the
  round trips between a structured node, its JSON columns and its share link. What every transport and
  security mode owes to \<open>ParseURI\<close> and \<open>Build\<close> is the locale \<open>link_codec\<close>; it is interpreted on each of them.
\<close>

section \<open>Registries\<close>

record 'a registry =
  rg_byName :: "(string \<times> 'a) list"
  rg_aliases :: "(string \<times> string) list"

definition NewRegistry :: "'a registry" where
  "NewRegistry = \<lparr>rg_byName = [], rg_aliases = []\<rparr>"

text \<open>\<open>None\<close> is the panic on a duplicate.\<close>

fun add_aliases :: "string \<Rightarrow> string list \<Rightarrow> 'a registry \<Rightarrow> 'a registry option" where
  "add_aliases n [] r = Some r"
| "add_aliases n (a # as) r =
    (let a' = to_lower a
     in if a' = [] \<or> a' = n then add_aliases n as r
        else if map_of (rg_aliases r) a' \<noteq> None then None
        else add_aliases n as (r\<lparr>rg_aliases := (a', n) # rg_aliases r\<rparr>))"

definition reg_Register :: "('a \<Rightarrow> string) \<Rightarrow> ('a \<Rightarrow> string list) \<Rightarrow> 'a \<Rightarrow> 'a registry \<Rightarrow> 'a registry option" where
  "reg_Register name aliases t r =
    (let n = to_lower (name t)
     in if n = [] \<or> map_of (rg_byName r) n \<noteq> None then None
        else add_aliases n (aliases t) (r\<lparr>rg_byName := (n, t) # rg_byName r\<rparr>))"

fun register_all :: "('a \<Rightarrow> 'a registry \<Rightarrow> 'a registry option) \<Rightarrow> 'a list \<Rightarrow> 'a registry option" where
  "register_all reg [] = Some NewRegistry"
| "register_all reg (t # ts) = (case register_all reg ts of None \<Rightarrow> None | Some r \<Rightarrow> reg t r)"

definition reg_Resolve :: "string \<Rightarrow> 'a registry \<Rightarrow> string \<Rightarrow> go_error + 'a" where
  "reg_Resolve pkg r name =
    (let key = to_lower (trim_space name)
     in case map_of (rg_byName r) key of Some t \<Rightarrow> Inr t
      | None \<Rightarrow> (case map_of (rg_aliases r) key of
          Some canon \<Rightarrow> (case map_of (rg_byName r) canon of Some t \<Rightarrow> Inr t | None \<Rightarrow> Inl (Opaque pkg))
        | None \<Rightarrow> Inl (Opaque pkg)))"

definition transport_Register :: "transport \<Rightarrow> transport registry \<Rightarrow> transport registry option" where
  "transport_Register = reg_Register tr_Name tr_Aliases"

definition security_Register :: "security \<Rightarrow> security registry \<Rightarrow> security registry option" where
  "security_Register = reg_Register sec_Name sec_Aliases"

text \<open>The registries after the \<open>init\<close> functions, which run in the order of the file names (the list is
  registered from its end).\<close>

definition transport_Default :: "transport registry option" where
  "transport_Default = register_all transport_Register [XHTTP, WS, TCP, KCP, HTTPUpgrade, GRPC]"

definition security_Default :: "security registry option" where
  "security_Default = register_all security_Register [TLS, REALITY, NoneSec]"

definition transport_Resolve :: "string \<Rightarrow> go_error + transport" where
  "transport_Resolve name = (case transport_Default of None \<Rightarrow> Inl (Opaque ''panic'')
     | Some r \<Rightarrow> reg_Resolve ''vless/transport: unknown'' r name)"

definition security_Resolve :: "string \<Rightarrow> go_error + security" where
  "security_Resolve name = (case security_Default of None \<Rightarrow> Inl (Opaque ''panic'')
     | Some r \<Rightarrow> reg_Resolve ''vless/security: unknown'' r name)"

definition transport_table :: "transport registry" where
  "transport_table = \<lparr>
     rg_byName = [(''xhttp'', XHTTP), (''ws'', WS), (''tcp'', TCP), (''kcp'', KCP), (''httpupgrade'', HTTPUpgrade), (''grpc'', GRPC)],
     rg_aliases = [(''splithttp'', ''xhttp''), (''websocket'', ''ws''), (''mkcp'', ''kcp''), (''gun'', ''grpc'')]\<rparr>"

definition security_table :: "security registry" where
  "security_table = \<lparr>rg_byName = [(''tls'', TLS), (''reality'', REALITY), (''none'', NoneSec)], rg_aliases = []\<rparr>"

lemma transport_Default_eq: "transport_Default = Some transport_table"
  by code_simp

lemma security_Default_eq: "security_Default = Some security_table"
  by code_simp

section \<open>ParseURI (parse.go)\<close>

definition checked :: "go_error option \<Rightarrow> go_error + unit" where
  "checked v = (case v of None \<Rightarrow> Inr () | Some e \<Rightarrow> Inl e)"

definition then_or :: "'e + 'a \<Rightarrow> ('a \<Rightarrow> 'e + 'b) \<Rightarrow> 'e + 'b" where
  "then_or r f = (case r of Inl e \<Rightarrow> Inl e | Inr x \<Rightarrow> f x)"

lemma then_or_simps [simp]: "then_or (Inl e) f = Inl e" "then_or (Inr x) f = f x"
  by (simp_all add: then_or_def)

lemma then_or_ok: "then_or r f = Inr y \<longleftrightarrow> (\<exists>x. r = Inr x \<and> f x = Inr y)"
  by (cases r) simp_all

lemma checked_ok [simp]: "checked v = Inr u \<longleftrightarrow> v = None"
  by (simp add: checked_def split: option.split)

definition or_default :: "string \<Rightarrow> string \<Rightarrow> string" where
  "or_default s d = (if s = [] then d else s)"

text \<open>The part of \<open>ParseURI\<close> after the URL has been taken apart: user name, address, port, query and
  fragment of the text \<open>raw\<close>.\<close>

definition parse_parts ::
    "string \<Rightarrow> string \<Rightarrow> string \<Rightarrow> int \<Rightarrow> query \<Rightarrow> string \<Rightarrow> go_error + vless_node" where
  "parse_parts raw user addr port q frag =
    then_or (transport_Resolve (or_default (q_get q ''type'') ''tcp'')) (\<lambda>tr.
    let tSpec = tr_ParseURI tr q in
    then_or (checked (tr_Validate tSpec)) (\<lambda>_.
    then_or (tr_EncodeSpec tSpec) (\<lambda>tJSON.
    then_or (security_Resolve (or_default (q_get q ''security'') ''none'')) (\<lambda>sec.
    let sSpec = sec_ParseURI sec q in
    then_or (checked (sec_Validate sSpec)) (\<lambda>_.
    Inr \<lparr>vn_id = 0, vn_sub = 0, vn_display = or_default frag addr, vn_uuid = user, vn_address = addr,
         vn_port = port, vn_flow = trim_space (q_get q ''flow''),
         vn_encryption = or_default (trim_space (q_get q ''encryption'')) ''none'',
         vn_packet = trim_space (q_get q ''packetEncoding''), vn_network = tr_Name tr, vn_transport = tJSON,
         vn_security = sec_Name sec, vn_sec_config = sec_EncodeSpec sSpec, vn_raw = raw, vn_created = 0\<rparr>)))))"

definition ParseURI :: "string \<Rightarrow> go_error + vless_node" where
  "ParseURI raw =
    (case url_parse (trim_space raw) of None \<Rightarrow> Inl (Opaque ''parse'')
     | Some u \<Rightarrow>
        if to_lower (u_scheme u) \<noteq> ''vless'' then Inl ErrValidation
        else if u_user u = None \<or> u_user u = Some [] then Inl ErrValidation
        else let p = url_port (u_host u); addr = url_hostname (u_host u)
             in if p \<noteq> [] \<and> atoi p = None then Inl (Opaque ''strconv.Atoi'')
                else if addr = [] then Inl ErrValidation
                else parse_parts raw (the (u_user u)) addr (if p = [] then 443 else the (atoi p))
                       (parse_query (u_raw_query u)) (u_fragment u))"

section \<open>Build (build.go)\<close>

record build_input =
  bi_display :: string
  bi_uuid :: string
  bi_address :: string
  bi_port :: int
  bi_flow :: string
  bi_encryption :: string
  bi_packet :: string
  bi_network :: string
  bi_transport :: raw_json
  bi_security :: string
  bi_sec_config :: raw_json

definition share_query :: "build_input \<Rightarrow> string \<Rightarrow> string \<Rightarrow> tspec \<Rightarrow> sspec \<Rightarrow> string \<Rightarrow> query" where
  "share_query i netName secName tSpec sSpec enc =
    (let q0 = q_set ''security'' secName (q_set ''type'' netName []);
         q1 = (if enc \<noteq> [] \<and> enc \<noteq> ''none'' then q_set ''encryption'' enc q0 else q0);
         q2 = q_set_opt ''packetEncoding'' (trim_space (bi_packet i)) q1;
         q3 = q_set_opt ''flow'' (trim_space (bi_flow i)) q2;
         q4 = fold (\<lambda>(k, v). q_set k v) (tr_ShareLink tSpec) q3
     in fold (\<lambda>(k, v). q_set k v) (sec_ShareLink sSpec) q4)"

definition buildRawURI :: "build_input \<Rightarrow> string \<Rightarrow> string \<Rightarrow> tspec \<Rightarrow> sspec \<Rightarrow> string \<Rightarrow> string" where
  "buildRawURI i netName secName tSpec sSpec enc =
    url_string ''vless'' (bi_uuid i) (join_host_port (bi_address i) (itoa (bi_port i)))
      (q_encode (share_query i netName secName tSpec sSpec enc)) (bi_display i)"

definition wrapped :: "string \<Rightarrow> go_error + 'a \<Rightarrow> go_error + 'a" where
  "wrapped msg r = (case r of Inl e \<Rightarrow> Inl (Wrap msg e) | Inr x \<Rightarrow> Inr x)"

lemma wrapped_ok [simp]: "wrapped m r = Inr x \<longleftrightarrow> r = Inr x"
  by (simp add: wrapped_def split: sum.split)

definition Build :: "build_input \<Rightarrow> go_error + vless_node" where
  "Build i =
    (if trim_space (bi_uuid i) = [] then Inl (Opaque ''vless.Build: uuid is required'')
     else if trim_space (bi_address i) = [] then Inl (Opaque ''vless.Build: address is required'')
     else if bi_port i \<le> 0 \<or> bi_port i > 65535 then Inl (Opaque (''vless.Build: invalid port '' @ itoa (bi_port i)))
     else then_or (transport_Resolve (or_default (trim_space (bi_network i)) ''tcp'')) (\<lambda>tr.
          then_or (wrapped ''vless.Build: decode transport config'' (tr_DecodeSpec tr (bi_transport i))) (\<lambda>tSpec.
          then_or (checked (tr_Validate tSpec)) (\<lambda>_.
          then_or (tr_EncodeSpec tSpec) (\<lambda>tJSON.
          then_or (security_Resolve (or_default (trim_space (bi_security i)) ''none'')) (\<lambda>sec.
          then_or (wrapped ''vless.Build: decode security config'' (sec_DecodeSpec sec (bi_sec_config i))) (\<lambda>sSpec.
          then_or (checked (sec_Validate sSpec)) (\<lambda>_.
          let enc = or_default (trim_space (bi_encryption i)) ''none'' in
          Inr \<lparr>vn_id = 0, vn_sub = 0,
               vn_display = or_default (trim_space (bi_display i)) (bi_address i),
               vn_uuid = bi_uuid i, vn_address = bi_address i, vn_port = bi_port i,
               vn_flow = trim_space (bi_flow i), vn_encryption = enc, vn_packet = trim_space (bi_packet i),
               vn_network = tr_Name tr, vn_transport = tJSON, vn_security = sec_Name sec,
               vn_sec_config = sec_EncodeSpec sSpec,
               vn_raw = buildRawURI i (tr_Name tr) (sec_Name sec) tSpec sSpec enc, vn_created = 0\<rparr>))))))))"

section \<open>What a transport or a security mode promises\<close>

text \<open>
  \<open>share\<close> writes a spec as query parameters, \<open>parse\<close> reads the parameters \<open>reads s\<close>, \<open>encode\<close>/\<open>decode\<close> are the
  JSON columns, and \<open>canon\<close> tells the specs for which the promises hold.
\<close>

locale link_codec =
  fixes parse :: "query \<Rightarrow> 'spec" and share :: "'spec \<Rightarrow> query"
    and encode :: "'spec \<Rightarrow> raw_json" and decode :: "raw_json \<Rightarrow> 'spec option"
    and canon :: "'spec \<Rightarrow> bool" and reads :: "'spec \<Rightarrow> string list"
  assumes parse_share: "canon s \<Longrightarrow> (\<And>k. k \<in> set (reads s) \<Longrightarrow> q_get q k = q_get (share s) k) \<Longrightarrow> parse q = s"
    and decode_encode: "canon s \<Longrightarrow> decode (encode s) = Some s"
begin

text \<open>A spec survives its own link, whatever other parameters the link carries.\<close>

lemma link_roundtrip:
  assumes "canon s" "\<And>k. k \<in> set (reads s) \<Longrightarrow> k \<notin> fst ` set extra"
    "\<And>k. k \<in> set (reads s) \<Longrightarrow> q_get q k = q_get (share s) k"
  shows "parse (fold (\<lambda>(k, v). q_set k v) extra q) = s"
proof (rule parse_share [OF assms(1)])
  fix k assume k: "k \<in> set (reads s)"
  have "k \<notin> fst ` set extra \<Longrightarrow> q_get (fold (\<lambda>(k, v). q_set k v) extra q) k = q_get q k" for extra q
    by (induction extra arbitrary: q) (auto simp: q_get_set_if)
  with assms(2,3) k show "q_get (fold (\<lambda>(k, v). q_set k v) extra q) k = q_get (share s) k"
    by simp
qed

text \<open>Storing what was read from the link and decoding it again gives the spec that was shared.\<close>

lemma store_roundtrip: "canon s \<Longrightarrow> decode (encode (parse (share s))) = Some s"
  using parse_share [of s "share s"] by (simp add: decode_encode)

end

section \<open>The promises hold\<close>

definition clean :: "string \<Rightarrow> bool" where
  "clean s \<longleftrightarrow> trim_space s = s \<and> utf8_fix s = s"

lemma members_of_Nil [simp]: "members_of f [] = []"
  by (simp add: members_of_def)

lemma members_of_append: "members_of f (ms @ ns) = members_of f ms @ members_of f ns"
  by (simp add: members_of_def)

lemma members_of_Cons [simp]:
  "members_of f ((n, v) # ms) = (if equal_fold n f then v # members_of f ms else members_of f ms)"
  by (simp add: members_of_def)

lemma members_of_opt [simp]:
  "members_of f (opt_str n s) = (if equal_fold n f \<and> s \<noteq> [] then [JStr (utf8_fix s)] else [])"
  "members_of f (opt_bool n b) = (if equal_fold n f \<and> b then [JBool True] else [])"
  "members_of f (opt_strs n ss) = (if equal_fold n f \<and> ss \<noteq> [] then [JArr (map (\<lambda>s. JStr (utf8_fix s)) ss)] else [])"
  by (simp_all add: opt_str_def opt_bool_def opt_strs_def)

lemma field_with_Nil [simp]: "field_with c z [] = Some z"
  by (simp add: field_with_def)

lemma field_with_one [simp]: "field_with c z [v] = c v"
  by (cases "c v") (simp_all add: field_with_def)

lemma all_strings_map: "(\<And>s. s \<in> set ss \<Longrightarrow> utf8_fix s = s) \<Longrightarrow> all_strings (map (\<lambda>s. JStr (utf8_fix s)) ss) = Some ss"
  by (induction ss) auto

lemmas fold_eval = equal_fold_def lower_char_def
lemmas decode_eval = members_of_append field_string_def field_bool_def field_strings_def field_raw_def
  field_string_map_def
lemmas share_eval = q_get_set_opt_if q_get_set_if clean_def

interpretation ws_link: link_codec ws_ParseURI ws_ShareLink "\<lambda>s. RawDoc (ws_EncodeSpec s)" ws_DecodeSpec
  "\<lambda>s. clean (ws_path s) \<and> clean (ws_host s)" "\<lambda>s. [''path'', ''host'']"
  by unfold_locales
    (auto simp: ws_ParseURI_def ws_ShareLink_def share_eval ws_DecodeSpec_def ws_EncodeSpec_def decode_eval fold_eval)

interpretation grpc_link: link_codec grpc_ParseURI grpc_ShareLink "\<lambda>s. RawDoc (grpc_EncodeSpec s)" grpc_DecodeSpec
  "\<lambda>s. clean (gr_service s) \<and> clean (gr_authority s)"
  "\<lambda>s. [''serviceName'', ''mode'', ''authority''] @ (if gr_service s = [] then [''alpn''] else [])"
proof (unfold_locales, goal_cases)
  case (1 s q)
  have m: "equal_fold (trim_space ''multi'') ''multi''" "\<not> equal_fold (trim_space []) ''multi''" by code_simp+
  from 1 m show ?case
    by (cases "gr_service s = []") (auto simp: grpc_ParseURI_def grpc_ShareLink_def share_eval Let_def)
next
  case (2 s)
  then show ?case
    by (auto simp: share_eval grpc_DecodeSpec_def grpc_EncodeSpec_def decode_eval fold_eval)
qed

interpretation httpupgrade_link: link_codec httpupgrade_ParseURI httpupgrade_ShareLink
  "\<lambda>s. RawDoc (httpupgrade_EncodeSpec s)" httpupgrade_DecodeSpec
  "\<lambda>s. clean (hu_path s) \<and> clean (hu_host s) \<and> hu_headers s = []" "\<lambda>s. [''path'', ''host'']"
  by unfold_locales
    (auto simp: httpupgrade_ParseURI_def httpupgrade_ShareLink_def share_eval httpupgrade_DecodeSpec_def
      httpupgrade_EncodeSpec_def decode_eval fold_eval)

interpretation kcp_link: link_codec kcp_ParseURI kcp_ShareLink "\<lambda>s. RawDoc (kcp_EncodeSpec s)" kcp_DecodeSpec
  "\<lambda>s. clean (kcp_header s) \<and> clean (kcp_seed s)" "\<lambda>s. [''headerType'', ''seed'']"
  by unfold_locales
    (auto simp: kcp_ParseURI_def kcp_ShareLink_def share_eval kcp_DecodeSpec_def kcp_EncodeSpec_def decode_eval fold_eval)

text \<open>The free-form object of xhttp survives when its text reads back.\<close>

definition extra_ok :: "raw_json \<Rightarrow> bool" where
  "extra_ok e = (case e of RawEmpty \<Rightarrow> True | RawCorrupt \<Rightarrow> False
     | RawDoc j \<Rightarrow> json_print j \<noteq> [] \<and> trim_space (json_print j) = json_print j \<and> json_parse (json_print j) = Some j)"

interpretation xhttp_link: link_codec xhttp_ParseURI xhttp_ShareLink
  "\<lambda>s. RawDoc (the (xhttp_EncodeSpec s))" xhttp_DecodeSpec
  "\<lambda>s. clean (xh_path s) \<and> clean (xh_host s) \<and> clean (xh_mode s) \<and> xh_mode s \<noteq> [] \<and> extra_ok (xh_extra s)"
  "\<lambda>s. [''path'', ''host'', ''mode'', ''extra'']"
  by unfold_locales
    (auto simp: xhttp_ParseURI_def xhttp_ShareLink_def share_eval xhttp_DecodeSpec_def xhttp_EncodeSpec_def
      decode_eval fold_eval extra_ok_def raw_text_def Let_def split: raw_json.splits)

lemma splitALPN_join:
  assumes "\<And>p. p \<in> set ps \<Longrightarrow> clean p \<and> p \<noteq> [] \<and> CHR '','' \<notin> set p"
    and "ps \<noteq> [] \<Longrightarrow> trim_space (join_with '','' ps) \<noteq> []"
  shows "splitALPN (if ps = [] then [] else join_with '','' ps) = ps"
proof (cases "ps = []")
  case False
  then have "split_on (CHR '','') (join_with [CHR '',''] ps) = ps" using assms(1) by (intro split_join) auto
  moreover have "map trim_space ps = ps" using assms(1) by (auto simp: clean_def intro: map_idI)
  ultimately show ?thesis using assms False by (simp add: splitALPN_def filter_all_True)
qed (simp add: splitALPN_def)

definition alpn_ok :: "string list \<Rightarrow> bool" where
  "alpn_ok ps \<longleftrightarrow> (\<forall>p\<in>set ps. clean p \<and> p \<noteq> [] \<and> CHR '','' \<notin> set p)
     \<and> (ps \<noteq> [] \<longrightarrow> trim_space (join_with '','' ps) \<noteq> [])"

interpretation tls_link: link_codec tls_ParseURI tls_ShareLink "\<lambda>s. RawDoc (tls_EncodeSpec s)" tls_DecodeSpec
  "\<lambda>s. clean (tls_server s) \<and> clean (tls_fp s) \<and> alpn_ok (tls_alpn s)"
  "\<lambda>s. [''sni'', ''alpn'', ''fp'', ''allowInsecure'']"
proof (unfold_locales, goal_cases)
  case (1 s q)
  have i: "to_lower (trim_space ''1'') = ''1''" "to_lower (trim_space []) = []" by code_simp+
  have "q_get (tls_ShareLink s) ''alpn'' = (if tls_alpn s = [] then [] else join_with '','' (tls_alpn s))"
    by (simp add: tls_ShareLink_def Let_def share_eval)
  with 1 splitALPN_join [of "tls_alpn s"] have a: "splitALPN (q_get q ''alpn'') = tls_alpn s"
    by (auto simp: alpn_ok_def)
  have "q_get q ''sni'' = tls_server s" "q_get q ''fp'' = tls_fp s"
    "q_get q ''allowInsecure'' = (if tls_insecure s then ''1'' else [])"
    using 1 by (auto simp: tls_ShareLink_def Let_def share_eval)
  with 1 a i show ?case by (simp add: tls_ParseURI_def clean_def)
next
  case (2 s)
  then show ?case
    by (auto simp: tls_DecodeSpec_def tls_EncodeSpec_def decode_eval fold_eval clean_def alpn_ok_def all_strings_map)
qed

interpretation reality_link: link_codec reality_ParseURI reality_ShareLink "\<lambda>s. RawDoc (reality_EncodeSpec s)"
  reality_DecodeSpec
  "\<lambda>s. clean (re_server s) \<and> clean (re_fp s) \<and> clean (re_pbk s) \<and> clean (re_sid s) \<and> clean (re_spx s)"
  "\<lambda>s. [''sni'', ''fp'', ''pbk'', ''sid'', ''spx'']"
  by unfold_locales
    (auto simp: reality_ParseURI_def reality_ShareLink_def share_eval reality_DecodeSpec_def reality_EncodeSpec_def
      decode_eval fold_eval)

end
