(* ===== verification/LinkText.thy ===== *)
theory LinkText
  imports ShareLinks
begin

text \<open>
  The text of a share link: what \<open>buildRawURI\<close> writes, \<open>ParseURI\<close> reads. First the escaping and the query
  string, then the parts of the URL, then the whole node.
\<close>

section \<open>Escaping is undone\<close>

lemma byte_less [simp]: "byte c < 256"
  by (simp add: byte_def)

lemma hex_val_upper [simp]: "n < 16 \<Longrightarrow> hex_val (upper_hex n) = Some n"
  by (auto simp: hex_val_def upper_hex_def byte_def Let_def)

lemma byte_div_16: "byte c div 16 < 16" "byte c mod 16 < 16"
  using less_mult_imp_div_less [of "byte c" 16 16] by simp_all

lemma char_of_byte [simp]: "char_of (byte c) = c" "char_of (16 * (byte c div 16) + byte c mod 16) = c"
  by (simp_all add: byte_def)

lemma escape_reserved_modes:
  "shouldEscape (CHR ''%'') EncPath" "shouldEscape (CHR ''%'') EncUser" "shouldEscape (CHR ''%'') EncHost"
  "shouldEscape (CHR ''%'') EncZone" "shouldEscape (CHR ''%'') EncQuery" "shouldEscape (CHR ''%'') EncFragment"
  "shouldEscape (CHR ''+'') EncQuery"
  by code_simp+

lemma escape_reserved: "shouldEscape (CHR ''%'') m" "shouldEscape (CHR ''+'') EncQuery"
proof -
  show "shouldEscape (CHR ''%'') m" using escape_reserved_modes by (cases m) simp_all
qed (rule escape_reserved_modes(7))

lemma unescape_escape_char:
  assumes "m \<noteq> EncHost" "m \<noteq> EncZone"
  shows "unescape m (escape_char m c @ r) = map_option ((#) c) (unescape m r)"
proof (cases "c = CHR '' '' \<and> m = EncQuery")
  case True
  then show ?thesis by (simp add: escape_char_def)
next
  case False
  show ?thesis
  proof (cases "shouldEscape c m")
    case True
    have "escape_char m c = [CHR ''%'', upper_hex (byte c div 16), upper_hex (byte c mod 16)]"
      unfolding escape_char_def using False True by simp
    then show ?thesis using assms by (simp add: byte_div_16 Let_def)
  next
    case nesc: False
    with escape_reserved have "c \<noteq> CHR ''%''" "m = EncQuery \<Longrightarrow> c \<noteq> CHR ''+''" by metis+
    moreover have "escape_char m c = [c]" unfolding escape_char_def using False nesc by simp
    ultimately show ?thesis using assms by auto
  qed
qed

lemma unescape_escape: "m \<noteq> EncHost \<Longrightarrow> m \<noteq> EncZone \<Longrightarrow> unescape m (escape m s) = Some s"
  by (induction s) (simp_all add: escape_def unescape_escape_char)

lemma escape_safe:
  assumes "shouldEscape x m" "\<not> alnum x" "x \<noteq> CHR ''%''" "m = EncQuery \<Longrightarrow> x \<noteq> CHR ''+''"
  shows "x \<notin> set (escape m s)"
proof
  assume "x \<in> set (escape m s)"
  then obtain c where "x \<in> set (escape_char m c)" by (auto simp: escape_def)
  moreover have "alnum (upper_hex n)" if "n < 16" for n
    using that by (auto simp: alnum_def upper_hex_def byte_def Let_def)
  ultimately show False using assms byte_div_16 [of c]
    by (auto simp: escape_char_def split: if_splits)
qed

definition plain :: "char \<Rightarrow> bool" where
  "plain c \<longleftrightarrow> 32 < byte c \<and> byte c < 127"

lemma alnum_plain: "alnum c \<Longrightarrow> plain c"
  by (auto simp: alnum_def plain_def Let_def)

lemma marks_plain:
  "\<forall>c\<in>set host_marks. plain c" "\<forall>c\<in>set unreserved_marks. plain c" "\<forall>c\<in>set reserved_marks. plain c"
  "\<forall>c\<in>set fragment_marks. plain c"
  by code_simp+

lemma not_escaped_plain: "\<not> shouldEscape c m \<Longrightarrow> plain c"
  using marks_plain alnum_plain unfolding shouldEscape_def by (metis (full_types))

lemma escape_plain: "c \<in> set (escape m s) \<Longrightarrow> plain c"
proof -
  assume "c \<in> set (escape m s)"
  then obtain d where "c \<in> set (escape_char m d)" by (auto simp: escape_def)
  moreover have "plain (upper_hex n)" if "n < 16" for n
    using that by (auto simp: plain_def upper_hex_def byte_def)
  moreover have "plain (CHR ''%'')" "plain (CHR ''+'')" by code_simp+
  ultimately show ?thesis using byte_div_16 [of d] not_escaped_plain [of d m]
    by (auto simp: escape_char_def split: if_splits)
qed

section \<open>Plain text is not trimmed\<close>

lemma plain_no_space:
  "\<forall>c\<in>set [CHR 0x09, CHR 0x0A, CHR 0x0B, CHR 0x0C, CHR 0x0D, CHR '' '', CHR 0xC2, CHR 0xE1, CHR 0xE2, CHR 0xE3,
     CHR 0x85, CHR 0xA0, CHR 0x80, CHR 0x81, CHR 0x82, CHR 0x83, CHR 0x84, CHR 0x86, CHR 0x87, CHR 0x88, CHR 0x89,
     CHR 0x8A, CHR 0xA8, CHR 0xA9, CHR 0xAF, CHR 0x9F]. \<not> plain c"
  by code_simp

lemma lead_space_plain: "plain a \<Longrightarrow> lead_space (a # s) = 0"
  using plain_no_space by (cases s; cases "tl s") auto

lemma lead_space_last:
  "plain c \<Longrightarrow> lead_space [c] = 0" "plain c \<Longrightarrow> lead_space [b, c] \<noteq> 2" "plain c \<Longrightarrow> lead_space [a, b, c] \<noteq> 3"
  using plain_no_space by (auto split: if_splits)

lemma trail_space_plain:
  assumes "plain c" shows "trail_space (c # s) = 0"
proof -
  have "lead_space (rev (take 1 (c # s))) \<noteq> 1" using lead_space_last(1) [OF assms] by simp
  moreover have "lead_space (rev (take 2 (c # s))) \<noteq> 2"
  proof (cases s)
    case (Cons b t)
    then show ?thesis using lead_space_last(2) [OF assms, of b] by (simp add: numeral_2_eq_2 del: lead_space.simps)
  qed (use lead_space_last(1) [OF assms] in \<open>simp del: lead_space.simps\<close>)
  moreover have "lead_space (rev (take 3 (c # s))) \<noteq> 3"
  proof (cases s)
    case (Cons b t)
    then show ?thesis using lead_space_last(2) [OF assms, of b] lead_space_last(3) [OF assms, of _ b]
      by (cases t) (auto simp: numeral_3_eq_3 split: if_splits)
  qed (use lead_space_last(1) [OF assms] in \<open>simp del: lead_space.simps\<close>)
  ultimately show ?thesis by (simp add: trail_space_def)
qed

lemma trim_plain: "(\<And>c. c \<in> set s \<Longrightarrow> plain c) \<Longrightarrow> trim_space s = s"
proof (cases s rule: rev_cases)
  case (snoc t c)
  assume p: "\<And>c. c \<in> set s \<Longrightarrow> plain c"
  have "trail_space (rev s) = 0" using p snoc by (simp add: trail_space_plain)
  moreover have "s \<noteq> []" using snoc by simp
  then obtain a u where "s = a # u" by (meson neq_Nil_conv)
  then have "lead_space s = 0" using p by (simp only: lead_space_plain list.set_intros)
  ultimately show ?thesis by (rule trim_space_id [rotated])
qed simp

section \<open>The query string reads back\<close>

definition q_keys :: "query \<Rightarrow> string set" where
  "q_keys q = fst ` set q"

lemma q_keys_set [simp]: "q_keys (q_set k v q) = insert k (q_keys q)"
  by (auto simp: q_keys_def q_set_def)

lemma q_keys_set_opt: "q_keys (q_set_opt k v q) \<subseteq> insert k (q_keys q)"
  by (auto simp: q_set_opt_def)

lemma q_keys_Nil [simp]: "q_keys [] = {}"
  by (simp add: q_keys_def)

lemma distinct_q_set [simp]: "distinct (map fst q) \<Longrightarrow> distinct (map fst (q_set k v q))"
  by (auto simp: q_set_def distinct_map_filter)

lemma distinct_q_set_opt [simp]: "distinct (map fst q) \<Longrightarrow> distinct (map fst (q_set_opt k v q))"
  by (simp add: q_set_opt_def)

lemma distinct_q_fold: "distinct (map fst q) \<Longrightarrow> distinct (map fst (fold (\<lambda>(k, v). q_set k v) sh q))"
  by (induction sh arbitrary: q) auto

lemma q_get_no_key: "k \<notin> q_keys q \<Longrightarrow> q_get q k = []"
  by (simp add: q_get_def q_keys_def map_of_eq_None_iff [symmetric])

lemma q_get_fold:
  "distinct (map fst sh) \<Longrightarrow>
   q_get (fold (\<lambda>(k, v). q_set k v) sh q) k = (if k \<in> q_keys sh then q_get sh k else q_get q k)"
proof (induction sh arbitrary: q)
  case (Cons p sh)
  obtain a v where p: "p = (a, v)" by fastforce
  have "k \<in> q_keys sh \<Longrightarrow> a \<notin> q_keys sh \<Longrightarrow> q_get ((a, v) # sh) k = q_get sh k"
    by (auto simp: q_get_def)
  moreover have "q_get ((a, v) # sh) a = v" by (simp add: q_get_def)
  ultimately show ?case using Cons by (auto simp: p q_keys_def q_get_set_if)
qed simp

lemma insert_pair_set [simp]: "set (insert_pair p q) = insert p (set q)"
  by (induction p q rule: insert_pair.induct) auto

lemma insert_pairs_set: "set (foldr insert_pair q []) = set q"
  by (induction q) auto

lemma insert_pair_get: "fst p \<notin> q_keys q \<Longrightarrow> map_of (insert_pair p q) = map_of (p # q)"
  by (induction p q rule: insert_pair.induct) (auto simp: q_keys_def fun_eq_iff)

lemma insert_pairs_get: "distinct (map fst q) \<Longrightarrow> map_of (foldr insert_pair q []) = map_of q"
proof (induction q)
  case (Cons p q)
  then have "fst p \<notin> q_keys (foldr insert_pair q [])" by (auto simp: q_keys_def insert_pairs_set)
  then show ?case using Cons by (simp add: insert_pair_get)
qed simp

lemma query_pair_encode: "query_pair (escape EncQuery k @ ''='' @ escape EncQuery v) = Some (k, v)"
proof -
  have "CHR '';'' \<notin> set (escape EncQuery x)" "CHR ''='' \<notin> set (escape EncQuery x)" for x
    by (rule escape_safe; code_simp)+
  then show ?thesis by (simp add: query_pair_def cut_at_first unescape_escape)
qed

lemma parse_query_encode: "q \<noteq> [] \<Longrightarrow> parse_query (q_encode q) = foldr insert_pair q []"
proof -
  assume "q \<noteq> []"
  let ?e = "\<lambda>(k, v). escape EncQuery k @ ''='' @ escape EncQuery v" and ?r = "foldr insert_pair q []"
  have "CHR ''&'' \<notin> set (escape EncQuery x)" for x by (rule escape_safe; code_simp)
  moreover have "?r \<noteq> []" using \<open>q \<noteq> []\<close> insert_pairs_set [of q] by (metis set_empty)
  ultimately have "split_on (CHR ''&'') (q_encode q) = map ?e ?r"
    unfolding q_encode_def by (intro split_join) auto
  moreover have "List.map_filter query_pair (map ?e r) = r" for r
    by (induction r) (auto simp: map_filter_simps query_pair_encode [simplified])
  ultimately show ?thesis by (simp add: parse_query_def)
qed

lemma q_get_parse_encode: "q \<noteq> [] \<Longrightarrow> distinct (map fst q) \<Longrightarrow> q_get (parse_query (q_encode q)) = q_get q"
  by (simp add: fun_eq_iff parse_query_encode q_get_def insert_pairs_get)

lemma set_join_with: "set (join_with d ws) \<subseteq> set d \<union> (\<Union>w\<in>set ws. set w)"
  by (induction d ws rule: join_with.induct) auto

lemma q_encode_chars: "c \<in> set (q_encode q) \<Longrightarrow> plain c \<and> c \<noteq> CHR ''#''"
proof -
  assume "c \<in> set (q_encode q)"
  then have "c = CHR ''&'' \<or> c = CHR ''='' \<or> (\<exists>x. c \<in> set (escape EncQuery x))"
    using set_join_with [of "''&''"] by (fastforce simp: q_encode_def)
  moreover have "CHR ''#'' \<notin> set (escape EncQuery x)" for x by (rule escape_safe; code_simp)
  moreover have "plain (CHR ''&'')" "plain (CHR ''='')" by code_simp+
  ultimately show ?thesis using escape_plain by auto
qed

section \<open>The URL reads back\<close>

text \<open>Host names, IPv4 addresses and IPv6 addresses without a zone: ASCII, no bracket.\<close>

definition addr_ok :: "string \<Rightarrow> bool" where
  "addr_ok a \<longleftrightarrow> a \<noteq> [] \<and> (\<forall>c\<in>set a. \<not> shouldEscape c EncHost \<and> c \<noteq> CHR ''['' \<and> c \<noteq> CHR '']'')"

lemma escape_host_id: "(\<And>c. c \<in> set h \<Longrightarrow> \<not> shouldEscape c EncHost) \<Longrightarrow> escape EncHost h = h"
  by (induction h) (auto simp: escape_def escape_char_def)

lemma unescape_host_id:
  "(\<And>c. c \<in> set h \<Longrightarrow> \<not> shouldEscape c EncHost) \<Longrightarrow> unescape EncHost h = Some h"
proof (induction h)
  case (Cons c h)
  then have "\<not> shouldEscape c EncHost" by simp
  with escape_reserved(1) have "c \<noteq> CHR ''%''" by metis
  with Cons show ?case by simp
qed simp

lemma find_zone_none: "CHR ''%'' \<notin> set s \<Longrightarrow> find_zone s = None"
  by (induction s) (auto simp: has_prefix_def numeral_3_eq_3)

lemma nat_digits_chars: "c \<in> set (nat_digits n) \<Longrightarrow> digit_val c \<noteq> None"
  by (rule digit_val_nat_digits)

lemma digit_alnum: "digit_val c \<noteq> None \<Longrightarrow> alnum c"
  by (auto simp: digit_val_def alnum_def byte_def Let_def split: if_splits)

lemma port_chars: "0 \<le> p \<Longrightarrow> c \<in> set (itoa p) \<Longrightarrow> digit_val c \<noteq> None"
  by (simp add: itoa_def nat_digits_chars)

lemma port_no: "0 \<le> p \<Longrightarrow> digit_val x = None \<Longrightarrow> x \<notin> set (itoa p)"
  using port_chars by blast

lemma valid_port: "0 \<le> p \<Longrightarrow> valid_optional_port (CHR '':'' # itoa p)"
  by (auto simp: valid_optional_port_def dest: port_chars)

lemma digit_marks: "digit_val (CHR '':'') = None" "digit_val (CHR '']'') = None" "digit_val (CHR ''['') = None"
  "\<not> shouldEscape (CHR '':'') EncHost" "\<not> shouldEscape (CHR ''['') EncHost" "\<not> shouldEscape (CHR '']'') EncHost"
  by code_simp+

lemma host_chars:
  assumes "addr_ok a" "0 \<le> p" "c \<in> set (join_host_port a (itoa p))"
  shows "\<not> shouldEscape c EncHost"
proof -
  have "c \<in> set a \<or> c \<in> set (itoa p) \<or> c = CHR '':'' \<or> c = CHR ''['' \<or> c = CHR '']''"
    using assms(3) by (auto simp: join_host_port_def split: if_splits)
  moreover have "\<not> shouldEscape c EncHost" if "c \<in> set (itoa p)"
    using digit_alnum [OF port_chars [OF assms(2) that]] by (simp add: shouldEscape_def)
  ultimately show ?thesis using assms(1) digit_marks(4-6) by (auto simp: addr_ok_def)
qed

lemma host_escape:
  assumes "addr_ok a" "0 \<le> p"
  shows "escape EncHost (join_host_port a (itoa p)) = join_host_port a (itoa p)"
    "unescape EncHost (join_host_port a (itoa p)) = Some (join_host_port a (itoa p))"
  using host_chars [OF assms] by (auto intro: escape_host_id unescape_host_id)

lemma addr_hd: "addr_ok a \<Longrightarrow> hd (a @ s) \<noteq> CHR ''[''"
  by (cases a) (auto simp: addr_ok_def)

lemma parse_host_join:
  assumes "addr_ok a" "0 \<le> p"
  shows "parse_host (join_host_port a (itoa p)) = Some (join_host_port a (itoa p))"
proof (cases "CHR '':'' \<in> set a")
  case True
  let ?h = "''['' @ a @ '']:'' @ itoa p"
  have j: "join_host_port a (itoa p) = ?h" using True by (simp add: join_host_port_def)
  have "cut_last (CHR '']'') (''['' @ a @ CHR '']'' # (CHR '':'' # itoa p)) = (''['' @ a, CHR '':'' # itoa p, True)"
    using cut_last_last [of "CHR '']''" "CHR '':'' # itoa p" "''['' @ a"] port_no [OF assms(2) digit_marks(2)] by simp
  then have "cut_last (CHR '']'') ?h = (''['' @ a, CHR '':'' # itoa p, True)" by simp
  moreover have "find_zone (''['' @ a) = None"
    using assms(1) escape_reserved(1) by (intro find_zone_none) (auto simp: addr_ok_def)
  ultimately show ?thesis
    using host_escape(2) [OF assms] valid_port [OF assms(2)] unfolding j
    by (simp add: parse_host_def del: find_zone.simps unescape.simps)
next
  case False
  let ?h = "a @ '':'' @ itoa p"
  have j: "join_host_port a (itoa p) = ?h" using False by (simp add: join_host_port_def)
  have "cut_last (CHR '':'') ?h = (a, itoa p, True)"
    using cut_last_last [of "CHR '':''" "itoa p" a] port_no [OF assms(2) digit_marks(1)] by simp
  then show ?thesis
    using host_escape(2) [OF assms] valid_port [OF assms(2)] addr_hd [OF assms(1)] unfolding j
    by (simp add: parse_host_def)
qed

lemma split_port_join:
  assumes "0 \<le> p"
  shows "split_port (x @ '':'' @ itoa p) = (x, itoa p)"
  using cut_last_last [of "CHR '':''" "itoa p" x] port_no [OF assms digit_marks(1)] valid_port [OF assms]
  by (simp add: split_port_def)

lemma host_parts:
  assumes "addr_ok a" "0 \<le> p"
  shows "url_hostname (join_host_port a (itoa p)) = a" "url_port (join_host_port a (itoa p)) = itoa p"
proof -
  have "split_port (join_host_port a (itoa p)) = (if CHR '':'' \<in> set a then ''['' @ a @ '']'' else a, itoa p)"
    using split_port_join [OF assms(2), of "''['' @ a @ '']''"] split_port_join [OF assms(2), of a]
    by (simp add: join_host_port_def)
  then show "url_hostname (join_host_port a (itoa p)) = a" "url_port (join_host_port a (itoa p)) = itoa p"
    using addr_hd [OF assms(1), of "[]"] by (auto simp: url_hostname_def url_port_def butlast_append)
qed

lemma user_text:
  shows "valid_userinfo (escape EncUser u)" "CHR '':'' \<notin> set (escape EncUser u)" "CHR ''@'' \<notin> set (escape EncUser u)"
    "CHR ''/'' \<notin> set (escape EncUser u)" "CHR ''?'' \<notin> set (escape EncUser u)" "CHR ''#'' \<notin> set (escape EncUser u)"
proof -
  have m: "\<forall>c\<in>set unreserved_marks. c \<in> set userinfo_marks"
    "\<forall>c\<in>set reserved_marks. c \<in> {CHR ''@'', CHR ''/'', CHR ''?'', CHR '':''} \<or> c \<in> set userinfo_marks"
    "CHR ''%'' \<in> set userinfo_marks"
    by code_simp+
  have x: "alnum (upper_hex n)" if "n < 16" for n
    using that by (auto simp: alnum_def upper_hex_def byte_def Let_def)
  have "alnum c \<or> c \<in> set userinfo_marks" if "\<not> shouldEscape c EncUser" for c
    using that m(1,2) by (auto simp: shouldEscape_def split: if_splits)
  then show "valid_userinfo (escape EncUser u)" using m(3) x byte_div_16
    by (auto simp: valid_userinfo_def escape_def escape_char_def split: if_splits)
  show "CHR '':'' \<notin> set (escape EncUser u)" "CHR ''@'' \<notin> set (escape EncUser u)"
    "CHR ''/'' \<notin> set (escape EncUser u)" "CHR ''?'' \<notin> set (escape EncUser u)" "CHR ''#'' \<notin> set (escape EncUser u)"
    by (rule escape_safe; code_simp)+
qed

lemma host_text:
  assumes "addr_ok a" "0 \<le> p" "x \<in> {CHR ''@'', CHR ''/'', CHR ''?'', CHR ''#''}"
  shows "x \<notin> set (join_host_port a (itoa p))"
proof -
  have "\<forall>c\<in>{CHR ''@'', CHR ''/'', CHR ''?'', CHR ''#''}. shouldEscape c EncHost" by code_simp
  with assms(3) host_chars [OF assms(1,2), of x] show ?thesis by blast
qed

lemma parse_authority_text:
  assumes "addr_ok a" "0 \<le> p"
  shows "parse_authority (escape EncUser u @ ''@'' @ join_host_port a (itoa p))
    = Some (Some u, None, join_host_port a (itoa p))"
proof -
  have "cut_last (CHR ''@'') (escape EncUser u @ ''@'' @ join_host_port a (itoa p))
      = (escape EncUser u, join_host_port a (itoa p), True)"
    using cut_last_last [of "CHR ''@''" "join_host_port a (itoa p)" "escape EncUser u"] host_text [OF assms] by simp
  then show ?thesis
    using parse_host_join [OF assms] user_text [of u]
    by (simp add: parse_authority_def cut_at_no unescape_escape)
qed

lemma parse_rest_text:
  assumes "addr_ok a" "0 \<le> p"
  shows "parse_rest ''vless'' (''//'' @ escape EncUser u @ ''@'' @ join_host_port a (itoa p)) q
    = Some (empty_url\<lparr>u_scheme := ''vless'', u_raw_query := q, u_user := Some u, u_password := None,
        u_host := join_host_port a (itoa p), u_path := []\<rparr>)"
proof -
  have l: "to_lower ''vless'' = ''vless''" by code_simp
  have "CHR ''/'' \<notin> set (escape EncUser u @ ''@'' @ join_host_port a (itoa p))"
    using user_text [of u] host_text [OF assms] by simp
  then have c: "cut_at (CHR ''/'') (escape EncUser u @ ''@'' @ join_host_port a (itoa p))
      = (escape EncUser u @ ''@'' @ join_host_port a (itoa p), [], False)" by (rule cut_at_no)
  show ?thesis
    using c parse_authority_text [OF assms, of u] l
    by (simp add: parse_rest_def has_prefix_def numeral_2_eq_2 numeral_3_eq_3 Let_def empty_url_def)
qed

lemma scheme_text: "scheme_go [] (''vless:'' @ s) = Some (''vless'', s)"
proof -
  have "alnum c \<and> digit_val c = None" if "c \<in> set ''vless''" for c
    using that by (auto simp: alnum_def digit_val_def byte_def)
  moreover have "\<not> alnum (CHR '':'')" by code_simp
  ultimately show ?thesis by (simp add: digit_marks)
qed

lemma url_parse_string:
  assumes "addr_ok a" "0 \<le> p" "q \<noteq> []" "\<And>c. c \<in> set q \<Longrightarrow> plain c \<and> c \<noteq> CHR ''#''"
  shows "url_parse (url_string ''vless'' u (join_host_port a (itoa p)) q f)
    = Some (empty_url\<lparr>u_scheme := ''vless'', u_raw_query := q, u_user := Some u, u_password := None,
        u_host := join_host_port a (itoa p), u_path := [], u_fragment := f\<rparr>)"
proof -
  let ?au = "''//'' @ escape EncUser u @ ''@'' @ join_host_port a (itoa p)"
  let ?s = "''vless:'' @ ?au @ ''?'' @ q"
  have j: "c \<in> set (join_host_port a (itoa p)) \<Longrightarrow> plain c" for c
    using host_chars [OF assms(1,2)] not_escaped_plain by blast
  have m: "\<forall>c\<in>set ''vless://@?''. plain c" by code_simp
  have pl: "plain c" if "c \<in> set ?s" for c
    using that m j assms(4) escape_plain [of c EncUser u] by auto
  then have ctl: "\<not> has_ctl ?s" by (force simp: has_ctl_def plain_def)
  have h: "CHR ''#'' \<notin> set ?s" using user_text(6) [of u] host_text [OF assms(1,2)] assms(4) by auto
  have cut: "cut_at (CHR ''#'') (?s @ (if f = [] then [] else ''#'' @ escape EncFragment f))
      = (?s, escape EncFragment f, f \<noteq> [])"
    using cut_at_no [OF h] cut_at_first [OF h, of "escape EncFragment f"] by (cases "f = []") (simp_all add: escape_def)
  have "CHR ''?'' \<notin> set ?au" using user_text(5) [of u] host_text [OF assms(1,2)] by simp
  then have "cut_at (CHR ''?'') (?au @ ''?'' @ q) = (?au, q, True)" using cut_at_first [of "CHR ''?''" ?au q] by simp
  moreover have "scheme_go [] ?s = Some (''vless'', ?au @ ''?'' @ q)" by (rule scheme_text)
  moreover have "url_string ''vless'' u (join_host_port a (itoa p)) q f
      = ?s @ (if f = [] then [] else ''#'' @ escape EncFragment f)"
    using assms(3) host_escape(1) [OF assms(1,2)] by (simp add: url_string_def)
  moreover have "?s \<noteq> ''*''" by simp
  ultimately show ?thesis
    using cut ctl parse_rest_text [OF assms(1,2), of u q]
    by (simp only: url_parse_def prod.case if_False option.case unescape_escape encode_mode.distinct simp_thms)
qed

lemma url_string_plain:
  assumes "addr_ok a" "0 \<le> p" "\<And>c. c \<in> set q \<Longrightarrow> plain c"
    "c \<in> set (url_string ''vless'' u (join_host_port a (itoa p)) q f)"
  shows "plain c"
proof -
  have j: "c \<in> set (join_host_port a (itoa p)) \<Longrightarrow> plain c"
    using host_chars [OF assms(1,2)] not_escaped_plain by blast
  have m: "\<forall>c\<in>set ''vless://@?#''. plain c" by code_simp
  show ?thesis
    using assms(3,4) j m escape_plain [of c EncUser u] escape_plain [of c EncFragment f] host_escape(1) [OF assms(1,2)]
    by (auto simp: url_string_def split: if_splits)
qed

section \<open>The parameters of a link\<close>

text \<open>The specs whose link and JSON forms determine them (the promises of the interpretations in
  ShareLinks).\<close>

fun tspec_canon :: "tspec \<Rightarrow> bool" where
  "tspec_canon TCPSpec = True"
| "tspec_canon (WSSpec s) = (clean (ws_path s) \<and> clean (ws_host s))"
| "tspec_canon (GRPCSpec s) = (clean (gr_service s) \<and> clean (gr_authority s))"
| "tspec_canon (HTTPUpgradeSpec s) = (clean (hu_path s) \<and> clean (hu_host s) \<and> hu_headers s = [])"
| "tspec_canon (KCPSpec s) = (clean (kcp_header s) \<and> clean (kcp_seed s))"
| "tspec_canon (XHTTPSpec s) =
     (clean (xh_path s) \<and> clean (xh_host s) \<and> clean (xh_mode s) \<and> xh_mode s \<noteq> [] \<and> extra_ok (xh_extra s))"

fun sspec_canon :: "sspec \<Rightarrow> bool" where
  "sspec_canon NoneSpec = True"
| "sspec_canon (TLSSpec s) = (clean (tls_server s) \<and> clean (tls_fp s) \<and> alpn_ok (tls_alpn s))"
| "sspec_canon (RealitySpec s) =
     (clean (re_server s) \<and> clean (re_fp s) \<and> clean (re_pbk s) \<and> clean (re_sid s) \<and> clean (re_spx s))"

fun tspec_reads :: "tspec \<Rightarrow> string list" where
  "tspec_reads TCPSpec = []"
| "tspec_reads (WSSpec s) = [''path'', ''host'']"
| "tspec_reads (GRPCSpec s) = [''serviceName'', ''mode'', ''authority''] @ (if gr_service s = [] then [''alpn''] else [])"
| "tspec_reads (HTTPUpgradeSpec s) = [''path'', ''host'']"
| "tspec_reads (KCPSpec s) = [''headerType'', ''seed'']"
| "tspec_reads (XHTTPSpec s) = [''path'', ''host'', ''mode'', ''extra'']"

fun sspec_reads :: "sspec \<Rightarrow> string list" where
  "sspec_reads NoneSpec = []"
| "sspec_reads (TLSSpec s) = [''sni'', ''alpn'', ''fp'', ''allowInsecure'']"
| "sspec_reads (RealitySpec s) = [''sni'', ''fp'', ''pbk'', ''sid'', ''spx'']"

fun tspec_kind :: "tspec \<Rightarrow> transport" where
  "tspec_kind TCPSpec = TCP" | "tspec_kind (WSSpec s) = WS" | "tspec_kind (GRPCSpec s) = GRPC"
| "tspec_kind (HTTPUpgradeSpec s) = HTTPUpgrade" | "tspec_kind (KCPSpec s) = KCP" | "tspec_kind (XHTTPSpec s) = XHTTP"

fun sspec_kind :: "sspec \<Rightarrow> security" where
  "sspec_kind NoneSpec = NoneSec" | "sspec_kind (TLSSpec s) = TLS" | "sspec_kind (RealitySpec s) = REALITY"

lemma tspec_parse:
  assumes "tspec_canon t" "\<And>k. k \<in> set (tspec_reads t) \<Longrightarrow> q_get q k = q_get (tr_ShareLink t) k"
  shows "tr_ParseURI (tspec_kind t) q = t"
proof (cases t)
  case TCPSpec
  then show ?thesis by simp
next
  case (WSSpec s)
  have "ws_ParseURI q = s" using assms unfolding WSSpec
    by (intro ws_link.parse_share) (simp_all only: tspec_canon.simps tspec_reads.simps tr_ShareLink.simps simp_thms)
  with WSSpec show ?thesis by simp
next
  case (GRPCSpec s)
  have "grpc_ParseURI q = s" using assms unfolding GRPCSpec
    by (intro grpc_link.parse_share) (simp_all only: tspec_canon.simps tspec_reads.simps tr_ShareLink.simps simp_thms)
  with GRPCSpec show ?thesis by simp
next
  case (HTTPUpgradeSpec s)
  have "httpupgrade_ParseURI q = s" using assms unfolding HTTPUpgradeSpec
    by (intro httpupgrade_link.parse_share) (simp_all only: tspec_canon.simps tspec_reads.simps tr_ShareLink.simps simp_thms)
  with HTTPUpgradeSpec show ?thesis by simp
next
  case (KCPSpec s)
  have "kcp_ParseURI q = s" using assms unfolding KCPSpec
    by (intro kcp_link.parse_share) (simp_all only: tspec_canon.simps tspec_reads.simps tr_ShareLink.simps simp_thms)
  with KCPSpec show ?thesis by simp
next
  case (XHTTPSpec s)
  have "xhttp_ParseURI q = s" using assms unfolding XHTTPSpec
    by (intro xhttp_link.parse_share) (simp_all only: tspec_canon.simps tspec_reads.simps tr_ShareLink.simps simp_thms)
  with XHTTPSpec show ?thesis by simp
qed

lemma sspec_parse:
  assumes "sspec_canon t" "\<And>k. k \<in> set (sspec_reads t) \<Longrightarrow> q_get q k = q_get (sec_ShareLink t) k"
  shows "sec_ParseURI (sspec_kind t) q = t"
proof (cases t)
  case NoneSpec
  then show ?thesis by simp
next
  case (TLSSpec s)
  have "tls_ParseURI q = s" using assms unfolding TLSSpec
    by (intro tls_link.parse_share) (simp_all only: sspec_canon.simps sspec_reads.simps sec_ShareLink.simps)
  with TLSSpec show ?thesis by simp
next
  case (RealitySpec s)
  have "reality_ParseURI q = s" using assms unfolding RealitySpec
    by (intro reality_link.parse_share) (simp_all only: sspec_canon.simps sspec_reads.simps sec_ShareLink.simps)
  with RealitySpec show ?thesis by simp
qed

lemma tr_DecodeSpec_kind: "tr_DecodeSpec tr d = Inr t \<Longrightarrow> tspec_kind t = tr"
  by (cases tr) (auto simp: decoded_def split: option.splits)

lemma sec_DecodeSpec_kind: "sec_DecodeSpec tr d = Inr t \<Longrightarrow> sspec_kind t = tr"
  by (cases tr) (auto simp: decoded_def split: option.splits)

lemma q_keys_set_opt_iff: "q_keys (q_set_opt k v q) = (if v = [] then q_keys q else insert k (q_keys q))"
  by (simp add: q_set_opt_def)

text \<open>The parameters a transport writes, and those a security mode writes, are among the ones it reads.\<close>

lemma share_keys:
  "q_keys (tr_ShareLink t) \<subseteq> {''path'', ''host'', ''serviceName'', ''mode'', ''authority'', ''headerType'', ''seed'', ''extra''}"
  "q_keys (sec_ShareLink s) \<subseteq> set (sspec_reads s)"
  by (cases t; auto simp: ws_ShareLink_def grpc_ShareLink_def httpupgrade_ShareLink_def kcp_ShareLink_def
        xhttp_ShareLink_def q_keys_set_opt_iff)
     (cases s; auto simp: tls_ShareLink_def reality_ShareLink_def q_keys_set_opt_iff Let_def split: if_splits)

lemma share_distinct: "distinct (map fst (tr_ShareLink t))" "distinct (map fst (sec_ShareLink s))"
  by (cases t; simp add: ws_ShareLink_def grpc_ShareLink_def httpupgrade_ShareLink_def kcp_ShareLink_def
        xhttp_ShareLink_def)
     (cases s; simp add: tls_ShareLink_def reality_ShareLink_def Let_def)

definition core_query :: "build_input \<Rightarrow> string \<Rightarrow> string \<Rightarrow> string \<Rightarrow> query" where
  "core_query i n s enc =
    q_set_opt ''flow'' (trim_space (bi_flow i)) (q_set_opt ''packetEncoding'' (trim_space (bi_packet i))
      (if enc \<noteq> [] \<and> enc \<noteq> ''none'' then q_set ''encryption'' enc (q_set ''security'' s (q_set ''type'' n []))
       else q_set ''security'' s (q_set ''type'' n [])))"

lemma share_query_eq:
  "share_query i n sn t s enc = fold (\<lambda>(k, v). q_set k v) (sec_ShareLink s)
     (fold (\<lambda>(k, v). q_set k v) (tr_ShareLink t) (core_query i n sn enc))"
  by (simp add: share_query_def core_query_def Let_def)

lemma core_keys: "q_keys (core_query i n s enc) \<subseteq> {''type'', ''security'', ''encryption'', ''packetEncoding'', ''flow''}"
  by (auto simp: core_query_def q_keys_set_opt_iff)

lemma core_get:
  "q_get (core_query i n s enc) ''type'' = n" "q_get (core_query i n s enc) ''security'' = s"
  "q_get (core_query i n s enc) ''flow'' = trim_space (bi_flow i)"
  "q_get (core_query i n s enc) ''packetEncoding'' = trim_space (bi_packet i)"
  "q_get (core_query i n s enc) ''encryption'' = (if enc = ''none'' then [] else enc)"
  by (auto simp: core_query_def q_get_set_opt_if q_get_set_if)

lemma share_query_distinct: "distinct (map fst (share_query i n sn t s enc))"
  unfolding share_query_eq by (intro distinct_q_fold) (simp add: core_query_def)

lemma share_query_ne: "share_query i n sn t s enc \<noteq> []"
proof
  assume e: "share_query i n sn t s enc = []"
  have "k \<in> q_keys q \<Longrightarrow> k \<in> q_keys (fold (\<lambda>(k, v). q_set k v) sh q)" for k sh q
    by (induction sh arbitrary: q) auto
  moreover have "''type'' \<in> q_keys (core_query i n sn enc)" by (auto simp: core_query_def q_keys_set_opt_iff)
  ultimately have "''type'' \<in> q_keys (share_query i n sn t s enc)" by (simp add: share_query_eq)
  with e show False by simp
qed

text \<open>gRPC without a service name reads its service name from the ALPN of the security mode.\<close>

definition no_clash :: "tspec \<Rightarrow> sspec \<Rightarrow> bool" where
  "no_clash t s \<longleftrightarrow> (\<forall>k\<in>set (tspec_reads t). k \<notin> q_keys (sec_ShareLink s))"

lemma share_query_get:
  shows "k \<in> {''type'', ''security'', ''encryption'', ''packetEncoding'', ''flow''} \<Longrightarrow>
      q_get (share_query i n sn t s enc) k = q_get (core_query i n sn enc) k"
    and "no_clash t s \<Longrightarrow> k \<in> set (tspec_reads t) \<Longrightarrow> q_get (share_query i n sn t s enc) k = q_get (tr_ShareLink t) k"
    and "k \<in> set (sspec_reads s) \<Longrightarrow> q_get (share_query i n sn t s enc) k = q_get (sec_ShareLink s) k"
proof -
  have g: "q_get (share_query i n sn t s enc) k = (if k \<in> q_keys (sec_ShareLink s) then q_get (sec_ShareLink s) k
      else if k \<in> q_keys (tr_ShareLink t) then q_get (tr_ShareLink t) k else q_get (core_query i n sn enc) k)"
    by (simp add: share_query_eq q_get_fold share_distinct)
  have s: "set (sspec_reads s) \<subseteq> {''sni'', ''alpn'', ''fp'', ''allowInsecure'', ''pbk'', ''sid'', ''spx''}"
    by (cases s) auto
  show "q_get (share_query i n sn t s enc) k = q_get (core_query i n sn enc) k"
    if "k \<in> {''type'', ''security'', ''encryption'', ''packetEncoding'', ''flow''}"
  proof -
    have "k \<notin> q_keys (sec_ShareLink s)" "k \<notin> q_keys (tr_ShareLink t)" using that share_keys(1) [of t] share_keys(2) [of s] s by blast+
    with g show ?thesis by simp
  qed
  show "q_get (share_query i n sn t s enc) k = q_get (tr_ShareLink t) k"
    if "no_clash t s" "k \<in> set (tspec_reads t)"
  proof -
    have "k \<notin> q_keys (core_query i n sn enc)" using that(2) core_keys [of i n sn enc] by (cases t) (auto split: if_splits)
    with that g show ?thesis by (auto simp: no_clash_def q_get_no_key)
  qed
  show "q_get (share_query i n sn t s enc) k = q_get (sec_ShareLink s) k" if "k \<in> set (sspec_reads s)"
  proof -
    have "k \<notin> q_keys (core_query i n sn enc)" "k \<notin> q_keys (tr_ShareLink t)"
      using that s core_keys [of i n sn enc] share_keys(1) [of t] by blast+
    with g show ?thesis by (simp add: q_get_no_key)
  qed
qed

lemma resolve_names: "transport_Resolve (tr_Name tr) = Inr tr" "security_Resolve (sec_Name sec) = Inr sec"
proof -
  have "transport_Resolve ''tcp'' = Inr TCP" "transport_Resolve ''ws'' = Inr WS" "transport_Resolve ''grpc'' = Inr GRPC"
    "transport_Resolve ''httpupgrade'' = Inr HTTPUpgrade" "transport_Resolve ''kcp'' = Inr KCP"
    "transport_Resolve ''xhttp'' = Inr XHTTP"
    "security_Resolve ''none'' = Inr NoneSec" "security_Resolve ''tls'' = Inr TLS" "security_Resolve ''reality'' = Inr REALITY"
    by code_simp+
  note r = this
  show "transport_Resolve (tr_Name tr) = Inr tr" using r by (cases tr) simp_all
  show "security_Resolve (sec_Name sec) = Inr sec" using r by (cases sec) simp_all
qed

lemma names_ne [simp]: "tr_Name tr \<noteq> []" "sec_Name sec \<noteq> []"
  by (cases tr; simp) (cases sec; simp)

lemma parse_parts_link:
  assumes q: "\<And>k. q_get q k = q_get (share_query i (tr_Name (tspec_kind t)) (sec_Name (sspec_kind s)) t s enc) k"
    and "tspec_canon t" "sspec_canon s" "no_clash t s" "tr_Validate t = None" "sec_Validate s = None"
    and "tr_EncodeSpec t = Inr tJSON" and enc: "trim_space enc = enc" "enc \<noteq> []"
  shows "parse_parts raw user addr port q frag = Inr
    \<lparr>vn_id = 0, vn_sub = 0, vn_display = or_default frag addr, vn_uuid = user, vn_address = addr,
     vn_port = port, vn_flow = trim_space (bi_flow i), vn_encryption = enc,
     vn_packet = trim_space (bi_packet i), vn_network = tr_Name (tspec_kind t), vn_transport = tJSON,
     vn_security = sec_Name (sspec_kind s), vn_sec_config = sec_EncodeSpec s, vn_raw = raw, vn_created = 0\<rparr>"
proof -
  have t: "tr_ParseURI (tspec_kind t) q = t"
    by (rule tspec_parse [OF assms(2)]) (simp add: q share_query_get(2) [OF assms(4)])
  have s: "sec_ParseURI (sspec_kind s) q = s"
    by (rule sspec_parse [OF assms(3)]) (simp add: q share_query_get(3))
  show ?thesis
    using t s assms(5-7) enc
    by (simp add: parse_parts_def q share_query_get(1) core_get or_default_def resolve_names checked_def)
qed

lemma ParseURI_parts:
  assumes "url_parse (trim_space raw) = Some u" "to_lower (u_scheme u) = ''vless''" "u_user u = Some usr" "usr \<noteq> []"
    "url_port (u_host u) = itoa p" "int64_range p" "url_hostname (u_host u) = a" "a \<noteq> []"
  shows "ParseURI raw = parse_parts raw usr a p (parse_query (u_raw_query u)) (u_fragment u)"
  using assms by (simp add: ParseURI_def atoi_itoa Let_def)

section \<open>Properties\<close>

text \<open>C1: a node built from structured input and the node that \<open>ParseURI\<close> reads from its share link are
  the same, down to the JSON columns and the link itself. The input's specs are canonical: trimmed valid
  UTF-8 strings, no HTTP-upgrade headers (the link cannot carry them), and not gRPC without a service name
  together with ALPN values (\<open>no_clash\<close>, see C2); the address is ASCII without brackets, the display name
  has no white space around it.\<close>

theorem Build_ParseURI_roundtrip:
  assumes "Build i = Inr n"
    and "transport_Resolve (or_default (trim_space (bi_network i)) ''tcp'') = Inr tr" "tr_DecodeSpec tr (bi_transport i) = Inr t"
    and "security_Resolve (or_default (trim_space (bi_security i)) ''none'') = Inr sec"
      "sec_DecodeSpec sec (bi_sec_config i) = Inr s"
    and "tspec_canon t" "sspec_canon s" "no_clash t s"
    and "addr_ok (bi_address i)" "trim_space (bi_display i) = bi_display i"
  shows "ParseURI (vn_raw n) = Inr n"
proof -
  let ?enc = "or_default (trim_space (bi_encryption i)) ''none''"
  have k: "tspec_kind t = tr" "sspec_kind s = sec"
    using assms(3,5) by (auto dest: tr_DecodeSpec_kind sec_DecodeSpec_kind)
  from assms(1-5) obtain tJSON where v: "tr_Validate t = None" "sec_Validate s = None" "tr_EncodeSpec t = Inr tJSON"
    and p: "0 < bi_port i" "bi_port i \<le> 65535" and u': "trim_space (bi_uuid i) \<noteq> []"
    and n: "n = \<lparr>vn_id = 0, vn_sub = 0, vn_display = or_default (trim_space (bi_display i)) (bi_address i),
               vn_uuid = bi_uuid i, vn_address = bi_address i, vn_port = bi_port i,
               vn_flow = trim_space (bi_flow i), vn_encryption = ?enc, vn_packet = trim_space (bi_packet i),
               vn_network = tr_Name tr, vn_transport = tJSON, vn_security = sec_Name sec,
               vn_sec_config = sec_EncodeSpec s,
               vn_raw = buildRawURI i (tr_Name tr) (sec_Name sec) t s ?enc, vn_created = 0\<rparr>"
    by (auto simp: Build_def then_or_ok Let_def split: if_splits)
  have u: "bi_uuid i \<noteq> []" using u' by auto
  let ?q = "share_query i (tr_Name tr) (sec_Name sec) t s ?enc" and ?h = "join_host_port (bi_address i) (itoa (bi_port i))"
  have rawb: "vn_raw n = buildRawURI i (tr_Name tr) (sec_Name sec) t s ?enc" by (simp add: n)
  have raw: "vn_raw n = url_string ''vless'' (bi_uuid i) ?h (q_encode ?q) (bi_display i)" by (simp add: n buildRawURI_def)
  have "q_encode ?q \<noteq> []"
  proof
    assume "q_encode ?q = []"
    moreover have "parse_query [] = []" by code_simp
    ultimately have "foldr insert_pair ?q [] = []" using parse_query_encode [OF share_query_ne] by metis
    then show False using insert_pairs_set [of ?q] share_query_ne by (metis set_empty)
  qed
  then have "url_parse (vn_raw n) = Some (empty_url\<lparr>u_scheme := ''vless'', u_raw_query := q_encode ?q,
        u_user := Some (bi_uuid i), u_password := None, u_host := ?h, u_path := [], u_fragment := bi_display i\<rparr>)"
      (is "_ = Some ?u")
    unfolding raw using assms(9) p q_encode_chars by (intro url_parse_string) auto
  moreover have "trim_space (vn_raw n) = vn_raw n"
  proof (rule trim_plain)
    fix c assume "c \<in> set (vn_raw n)"
    then show "plain c" unfolding raw
      using url_string_plain [OF assms(9), of "bi_port i" "q_encode ?q" c "bi_uuid i" "bi_display i"] p q_encode_chars
      by (simp only: less_imp_le)
  qed
  ultimately have url: "url_parse (trim_space (vn_raw n)) = Some ?u" by (simp only:)
  have low: "to_lower ''vless'' = ''vless''" by code_simp
  have "ParseURI (vn_raw n) = parse_parts (vn_raw n) (bi_uuid i) (bi_address i) (bi_port i) (parse_query (u_raw_query ?u)) (u_fragment ?u)"
    using host_parts [OF assms(9), of "bi_port i"] p u low assms(9)
    by (intro ParseURI_parts [OF url]) (simp_all add: int64_range_def addr_ok_def)
  also have "\<dots> = parse_parts (vn_raw n) (bi_uuid i) (bi_address i) (bi_port i) (parse_query (q_encode ?q)) (bi_display i)"
    by simp
  also have "\<dots> = Inr n"
  proof -
    have g: "q_get (parse_query (q_encode ?q)) x = q_get (share_query i (tr_Name (tspec_kind t)) (sec_Name (sspec_kind s)) t s ?enc) x" for x
      by (simp add: q_get_parse_encode share_query_ne share_query_distinct k)
    have "trim_space ''none'' = ''none''" by code_simp
    then have e: "trim_space ?enc = ?enc" "?enc \<noteq> []" by (auto simp: or_default_def)
    show ?thesis
      unfolding parse_parts_link [OF g assms(6-8) v e] k assms(10) rawb by (simp only: n assms(10))
  qed
  finally show ?thesis .
qed

definition sample_input :: build_input where
  "sample_input = \<lparr>bi_display = ''node'', bi_uuid = ''550e8400'', bi_address = ''vpn.example.com'', bi_port = 443,
     bi_flow = ''xtls-rprx-vision'', bi_encryption = ''none'', bi_packet = ''xudp'', bi_network = ''xhttp'',
     bi_transport = RawDoc (JObj [(''path'', JStr ''/api''), (''host'', JStr ''cdn''), (''mode'', JStr ''stream-up'')]),
     bi_security = ''reality'',
     bi_sec_config = RawDoc (JObj [(''serverName'', JStr ''vpn''), (''publicKey'', JStr ''abc123'')])\<rparr>"

theorem Build_ParseURI_roundtrip_witness:
  "\<exists>n. Build sample_input = Inr n \<and> ParseURI (vn_raw n) = Inr n"
proof -
  let ?t = "XHTTPSpec \<lparr>xh_path = ''/api'', xh_host = ''cdn'', xh_mode = ''stream-up'', xh_extra = RawEmpty\<rparr>"
  let ?s = "RealitySpec \<lparr>re_server = ''vpn'', re_fp = [], re_pbk = ''abc123'', re_sid = [], re_spx = []\<rparr>"
  have "\<not> (\<exists>e. Build sample_input = Inl e)"
  proof -
    have "isl (Build sample_input) = False" by code_simp
    then show ?thesis by (auto simp: isl_def)
  qed
  then obtain n where n: "Build sample_input = Inr n" by (cases "Build sample_input") auto
  have h: "transport_Resolve (or_default (trim_space (bi_network sample_input)) ''tcp'') = Inr XHTTP"
    "tr_DecodeSpec XHTTP (bi_transport sample_input) = Inr ?t"
    "security_Resolve (or_default (trim_space (bi_security sample_input)) ''none'') = Inr REALITY"
    "sec_DecodeSpec REALITY (bi_sec_config sample_input) = Inr ?s"
    "tspec_canon ?t" "sspec_canon ?s" "no_clash ?t ?s" "addr_ok (bi_address sample_input)"
    "trim_space (bi_display sample_input) = bi_display sample_input"
    by code_simp+
  from Build_ParseURI_roundtrip [OF n h] n show ?thesis by blast
qed

text \<open>The one clash between a transport and a security mode: a gRPC node without a service name that
  has ALPN values does not survive its own share link; read back, the ALPN values have become its service
  name.\<close>

theorem grpc_alpn_clash:
  assumes "gr_service g = []" "tls_alpn s \<noteq> []" "alpn_ok (tls_alpn s)"
  shows "\<exists>g'. tr_ParseURI GRPC (share_query i n sn (GRPCSpec g) (TLSSpec s) enc) = GRPCSpec g'
     \<and> gr_service g' = trim_space (join_with '','' (tls_alpn s)) \<and> gr_service g' \<noteq> gr_service g"
proof -
  let ?q = "share_query i n sn (GRPCSpec g) (TLSSpec s) enc"
  have "q_get ?q ''alpn'' = join_with '','' (tls_alpn s)"
    using assms(2) share_query_get(3) [of "''alpn''" "TLSSpec s" i n sn "GRPCSpec g" enc]
    by (simp add: tls_ShareLink_def Let_def share_eval)
  moreover have "q_get ?q ''serviceName'' = []"
  proof -
    have "''serviceName'' \<notin> q_keys (grpc_ShareLink g)" using assms(1) by (simp add: grpc_ShareLink_def q_keys_set_opt_iff)
    moreover have "''serviceName'' \<notin> q_keys (tls_ShareLink s)" using share_keys(2) [of "TLSSpec s"] by auto
    moreover have "''serviceName'' \<notin> q_keys (core_query i n sn enc)" using core_keys [of i n sn enc] by auto
    ultimately show ?thesis
      using share_distinct(1) [of "GRPCSpec g"] share_distinct(2) [of "TLSSpec s"] by (simp add: share_query_eq q_get_fold q_get_no_key)
  qed
  ultimately show ?thesis using assms by (simp add: grpc_ParseURI_def Let_def alpn_ok_def)
qed

theorem grpc_alpn_clash_witness:
  "\<exists>g'. tr_ParseURI GRPC (share_query sample_input ''grpc'' ''tls''
      (GRPCSpec \<lparr>gr_service = [], gr_multi = False, gr_authority = []\<rparr>)
      (TLSSpec \<lparr>tls_server = ''x'', tls_alpn = [''h2'', ''h3''], tls_fp = [], tls_insecure = False\<rparr>) ''none'') = GRPCSpec g'
    \<and> gr_service g' \<noteq> []"
proof -
  have "alpn_ok [''h2'', ''h3'']" by code_simp
  then show ?thesis
    using grpc_alpn_clash [of "\<lparr>gr_service = [], gr_multi = False, gr_authority = []\<rparr>"
        "\<lparr>tls_server = ''x'', tls_alpn = [''h2'', ''h3''], tls_fp = [], tls_insecure = False\<rparr>"
        sample_input "''grpc''" "''tls''" "''none''"]
    by auto
qed

section \<open>What ParseURI accepts can be used\<close>

lemma utf8_fix_ne [simp]: "utf8_fix s = [] \<longleftrightarrow> s = []"
  by (cases s) (auto simp: Let_def replacement_char_def)

lemma all_strings_fix: "all_strings (map (\<lambda>s. JStr (utf8_fix s)) ss) = Some (map utf8_fix ss)"
  by (induction ss) auto

lemma kcp_headers_ascii: "h \<in> set allowedKCPHeaderTypes \<Longrightarrow> utf8_fix h = h"
proof -
  have "\<forall>h\<in>set allowedKCPHeaderTypes. utf8_fix h = h" by code_simp
  then show "h \<in> set allowedKCPHeaderTypes \<Longrightarrow> utf8_fix h = h" by blast
qed

lemma xhttp_modes_ascii: "h \<in> {[], ''auto'', ''packet-up'', ''stream-up'', ''stream-one''} \<Longrightarrow> utf8_fix h = h"
proof -
  have "\<forall>h\<in>{[], ''auto'', ''packet-up'', ''stream-up'', ''stream-one''}. utf8_fix h = h" by code_simp
  then show "h \<in> {[], ''auto'', ''packet-up'', ''stream-up'', ''stream-one''} \<Longrightarrow> utf8_fix h = h" by blast
qed

lemma stored_transport_decodes:
  assumes "tr_Validate (tr_ParseURI tr q) = None" "tr_EncodeSpec (tr_ParseURI tr q) = Inr d"
  shows "\<exists>t. tr_DecodeSpec tr d = Inr t \<and> tr_Validate t = None"
proof (cases tr)
  case KCP
  then show ?thesis using assms kcp_headers_ascii
    by (auto simp: kcp_DecodeSpec_def kcp_EncodeSpec_def decode_eval fold_eval decoded_def kcp_Validate_def
        split: if_splits)
next
  case XHTTP
  have "xh_extra (xhttp_ParseURI q) \<noteq> RawCorrupt" by (simp add: xhttp_ParseURI_def Let_def split: option.split)
  then show ?thesis using assms XHTTP xhttp_modes_ascii [of "xh_mode (xhttp_ParseURI q)"]
    by (cases "xh_extra (xhttp_ParseURI q)")
      (auto simp: xhttp_DecodeSpec_def xhttp_EncodeSpec_def decode_eval fold_eval decoded_def xhttp_Validate_def Let_def
        split: if_splits)
qed (use assms in \<open>auto simp: ws_DecodeSpec_def ws_EncodeSpec_def grpc_DecodeSpec_def grpc_EncodeSpec_def
      httpupgrade_DecodeSpec_def httpupgrade_EncodeSpec_def httpupgrade_ParseURI_def decode_eval fold_eval decoded_def\<close>)

lemma stored_security_decodes:
  assumes "sec_Validate (sec_ParseURI sec q) = None"
  shows "\<exists>s. sec_DecodeSpec sec (sec_EncodeSpec (sec_ParseURI sec q)) = Inr s \<and> sec_Validate s = None"
proof (cases sec)
  case REALITY
  let ?r = "reality_ParseURI q"
  have "re_pbk ?r \<noteq> []" using assms REALITY by (simp add: reality_Validate_def split: if_splits)
  then have "reality_DecodeSpec (RawDoc (reality_EncodeSpec ?r)) = Some
     \<lparr>re_server = utf8_fix (re_server ?r), re_fp = utf8_fix (re_fp ?r), re_pbk = utf8_fix (re_pbk ?r),
      re_sid = utf8_fix (re_sid ?r), re_spx = utf8_fix (re_spx ?r)\<rparr>"
    by (simp add: reality_DecodeSpec_def reality_EncodeSpec_def decode_eval fold_eval)
  with \<open>re_pbk ?r \<noteq> []\<close> REALITY show ?thesis by (simp add: decoded_def reality_Validate_def)
next
  case TLS
  let ?r = "tls_ParseURI q"
  have "tls_DecodeSpec (RawDoc (tls_EncodeSpec ?r)) = Some
     \<lparr>tls_server = utf8_fix (tls_server ?r), tls_alpn = map utf8_fix (tls_alpn ?r), tls_fp = utf8_fix (tls_fp ?r),
      tls_insecure = tls_insecure ?r\<rparr>"
    by (simp add: tls_DecodeSpec_def tls_EncodeSpec_def decode_eval fold_eval all_strings_fix)
  with TLS show ?thesis by (simp add: decoded_def)
qed simp

lemma ParseURI_stored:
  assumes "ParseURI raw = Inr n"
  shows "\<exists>tr t sec s. vn_network n = tr_Name tr \<and> tr_DecodeSpec tr (vn_transport n) = Inr t \<and> tr_Validate t = None
     \<and> vn_security n = sec_Name sec \<and> sec_DecodeSpec sec (vn_sec_config n) = Inr s \<and> sec_Validate s = None
     \<and> vn_uuid n \<noteq> [] \<and> vn_address n \<noteq> [] \<and> vn_display n \<noteq> [] \<and> vn_encryption n \<noteq> [] \<and> vn_raw n = raw"
proof -
  from assms obtain user addr port q frag where p: "parse_parts raw user addr port q frag = Inr n" "user \<noteq> []" "addr \<noteq> []"
    by (auto simp: ParseURI_def Let_def split: option.splits if_splits)
  then obtain tr sec tJSON where t: "tr_Validate (tr_ParseURI tr q) = None" "tr_EncodeSpec (tr_ParseURI tr q) = Inr tJSON"
    "sec_Validate (sec_ParseURI sec q) = None"
    and n: "vn_network n = tr_Name tr" "vn_transport n = tJSON" "vn_security n = sec_Name sec"
      "vn_sec_config n = sec_EncodeSpec (sec_ParseURI sec q)" "vn_uuid n = user" "vn_address n = addr"
      "vn_display n = or_default frag addr" "vn_encryption n = or_default (trim_space (q_get q ''encryption'')) ''none''"
      "vn_raw n = raw"
    by (auto simp: parse_parts_def then_or_ok Let_def)
  show ?thesis
    using stored_transport_decodes [OF t(1,2)] stored_security_decodes [OF t(3)] p(2,3)
    by (auto simp: n or_default_def)
qed

text \<open>C2: a node that \<open>ParseURI\<close> accepts is usable when its tunnel starts: its stored network and security
  names resolve, their stored JSON columns decode, and what they decode to is valid; its port is the
  number in the link or 443, and its user, address and display name are not empty.\<close>

theorem ParseURI_usable:
  assumes "ParseURI raw = Inr n"
  shows "\<exists>tr t sec s. transport_Resolve (vn_network n) = Inr tr \<and> tr_DecodeSpec tr (vn_transport n) = Inr t
     \<and> tr_Validate t = None
     \<and> security_Resolve (vn_security n) = Inr sec \<and> sec_DecodeSpec sec (vn_sec_config n) = Inr s
     \<and> sec_Validate s = None
     \<and> vn_uuid n \<noteq> [] \<and> vn_address n \<noteq> [] \<and> vn_display n \<noteq> [] \<and> vn_encryption n \<noteq> [] \<and> vn_raw n = raw"
  using ParseURI_stored [OF assms] by (auto simp: resolve_names)

theorem ParseURI_usable_witness:
  "\<exists>n. ParseURI ''vless://u@h.example:8443?type=ws&path=%2Fa&security=tls&sni=h&alpn=h2#N'' = Inr n \<and> vn_address n \<noteq> []
     \<and> transport_Resolve (vn_network n) = Inr WS"
proof -
  let ?raw = "''vless://u@h.example:8443?type=ws&path=%2Fa&security=tls&sni=h&alpn=h2#N''"
  have x: "(case ParseURI ?raw of Inl e \<Rightarrow> False | Inr n \<Rightarrow> transport_Resolve (vn_network n) = Inr WS)" by code_simp
  then obtain n where "ParseURI ?raw = Inr n" by (cases "ParseURI ?raw") auto
  with x ParseURI_usable [OF this] show ?thesis by auto
qed



end
