(* ===== verification/GoNet.thy ===== *)
theory GoNet
  imports Domain
begin

text \<open>
  Addresses: what the program uses of Go's \<open>net\<close> and \<open>net/netip\<close> (\<open>ParseIP\<close>, \<open>ParseCIDR\<close>, \<open>IP.To4\<close>, \<open>IP.Mask\<close>,
  \<open>IP.String\<close>, \<open>IPNet.String\<close>), \<open>infrastructure/netconf/nat.go\<close>, and the choice of the endpoint host in
  \<open>resolve_peer_endpoint_host.go\<close>. An address is the list of its 4 or 16 bytes, as a Go \<open>net.IP\<close> is.
\<close>

section \<open>Parsing\<close>

type_synonym ip = "nat list"

definition parse_field :: "string \<Rightarrow> nat option" where
  "parse_field f = (if f = [] \<or> (length f > 1 \<and> hd f = CHR ''0'') then None
     else case digits_val 0 f of Some n \<Rightarrow> if n \<le> 255 then Some n else None | None \<Rightarrow> None)"

definition parse_ipv4 :: "string \<Rightarrow> ip option" where
  "parse_ipv4 s = (case map parse_field (split_on CHR ''.'' s) of
     [Some a, Some b, Some c, Some d] \<Rightarrow> Some [a, b, c, d] | _ \<Rightarrow> None)"

definition hex_number :: "string \<Rightarrow> nat" where
  "hex_number s = foldl (\<lambda>a c. 16 * a + (case hex_val c of Some v \<Rightarrow> v | None \<Rightarrow> 0)) 0 s"

text \<open>The groups of an IPv6 address: at most \<open>n\<close> more, the bytes read so far, and where the ellipsis was.\<close>

fun v6_groups :: "nat \<Rightarrow> string \<Rightarrow> ip \<Rightarrow> nat option \<Rightarrow> (string \<times> ip \<times> nat option) option" where
  "v6_groups 0 s bs el = Some (s, bs, el)"
| "v6_groups (Suc n) s bs el = (let h = takeWhile (\<lambda>c. hex_val c \<noteq> None) s; rest = drop (length h) s in
     if h = [] \<or> length h > 4 then None
     else if rest \<noteq> [] \<and> hd rest = CHR ''.'' then
       (if (el = None \<and> length bs \<noteq> 12) \<or> length bs + 4 > 16 then None
        else case parse_ipv4 s of None \<Rightarrow> None | Some q \<Rightarrow> Some ([], bs @ q, el))
     else let bs' = bs @ [hex_number h div 256, hex_number h mod 256] in
       if rest = [] then Some ([], bs', el)
       else if hd rest \<noteq> CHR '':'' \<or> tl rest = [] then None
       else if hd (tl rest) = CHR '':'' then
         (if el \<noteq> None then None
          else if tl (tl rest) = [] then Some ([], bs', Some (length bs'))
          else v6_groups n (tl (tl rest)) bs' (Some (length bs')))
       else v6_groups n (tl rest) bs' el)"

definition parse_ipv6 :: "string \<Rightarrow> ip option" where
  "parse_ipv6 s = (let lead = has_prefix s ''::''; body = (if lead then drop 2 s else s) in
     if lead \<and> body = [] then Some (replicate 16 0)
     else case v6_groups 8 body [] (if lead then Some 0 else None) of
       Some ([], bs, el) \<Rightarrow>
         (if length bs < 16 then (case el of None \<Rightarrow> None
             | Some e \<Rightarrow> Some (take e bs @ replicate (16 - length bs) 0 @ drop e bs))
          else if el \<noteq> None then None else Some bs)
     | _ \<Rightarrow> None)"

text \<open>\<open>netip.ParseAddr\<close> for an address without zone; the first of the three characters decides the family. The
  callers refuse a zone, and an address with a percent sign has one or is malformed.\<close>

definition parse_addr :: "string \<Rightarrow> ip option" where
  "parse_addr s = (if CHR ''%'' \<in> set s then None
     else case find (\<lambda>c. c \<in> {CHR ''.'', CHR '':''}) s of
       None \<Rightarrow> None
     | Some c \<Rightarrow> if c = CHR ''.'' then parse_ipv4 s else parse_ipv6 s)"

definition v4_prefix :: ip where
  "v4_prefix = [0, 0, 0, 0, 0, 0, 0, 0, 0, 0, 255, 255]"

definition to16 :: "ip \<Rightarrow> ip" where
  "to16 a = (if length a = 4 then v4_prefix @ a else a)"

definition to4 :: "ip \<Rightarrow> ip option" where
  "to4 a = (if length a = 4 then Some a else if length a = 16 \<and> take 12 a = v4_prefix then Some (drop 12 a) else None)"

definition ParseIP :: "string \<Rightarrow> ip option" where
  "ParseIP s = map_option to16 (parse_addr s)"

text \<open>The prefix length of a CIDR, at most as many bits as the address has.\<close>

definition parse_ones :: "nat \<Rightarrow> string \<Rightarrow> nat option" where
  "parse_ones bits m = (if m = [] then None else case digits_val 0 m of
     Some n \<Rightarrow> if n \<le> bits then Some n else None | None \<Rightarrow> None)"

fun mask_bytes :: "nat \<Rightarrow> ip \<Rightarrow> ip" where
  "mask_bytes n [] = []"
| "mask_bytes n (b # bs) = (let k = min 8 n in (b div 2 ^ (8 - k)) * 2 ^ (8 - k)) # mask_bytes (n - 8) bs"

record ip_net =
  in_ip :: ip
  in_ones :: nat

definition ParseCIDR :: "string \<Rightarrow> (ip \<times> ip_net) option" where
  "ParseCIDR s = (if CHR ''/'' \<notin> set s then None
     else let a = takeWhile (\<lambda>c. c \<noteq> CHR ''/'') s; m = drop (Suc (length a)) s in
       case parse_addr a of None \<Rightarrow> None
       | Some ip \<Rightarrow> (case parse_ones (8 * length ip) m of None \<Rightarrow> None
         | Some n \<Rightarrow> Some (to16 ip, \<lparr>in_ip = mask_bytes n ip, in_ones = n\<rparr>)))"

section \<open>Printing\<close>

definition dotted :: "ip \<Rightarrow> string" where
  "dotted a = join_with ''.'' (map nat_digits a)"

fun hex_digits :: "nat \<Rightarrow> string" where
  "hex_digits n = (if n < 16 then [hex_digit n] else hex_digits (n div 16) @ [hex_digit (n mod 16)])"

fun groups16 :: "ip \<Rightarrow> nat list" where
  "groups16 (a # b # r) = (256 * a + b) # groups16 r"
| "groups16 r = []"

text \<open>The longest run of at least two zero groups, the first of the longest: its start and end.\<close>

definition zero_run :: "nat list \<Rightarrow> nat \<times> nat" where
  "zero_run gs = foldl (\<lambda>(a, b) i. let j = i + length (takeWhile (\<lambda>g. g = 0) (drop i gs)) in
     if j - i \<ge> 2 \<and> j - i > b - a then (i, j) else (a, b)) (255, 255) [0..<8]"

definition v6_string :: "ip \<Rightarrow> string" where
  "v6_string a = (let gs = groups16 a; (z, e) = zero_run gs in
     if z < 8 then join_with '':'' (map hex_digits (take z gs)) @ ''::'' @ join_with '':'' (map hex_digits (drop e gs))
     else join_with '':'' (map hex_digits gs))"

definition ip_string :: "ip \<Rightarrow> string" where
  "ip_string a = (case to4 a of Some q \<Rightarrow> dotted q | None \<Rightarrow> v6_string a)"

text \<open>A network of 16 bytes that is an IPv4 network in IPv6 form is printed as the IPv4 network.\<close>

definition net_string :: "ip_net \<Rightarrow> string" where
  "net_string n = ip_string (in_ip n) @ ''/''
     @ nat_digits (if length (in_ip n) = 16 \<and> to4 (in_ip n) \<noteq> None then in_ones n - 96 else in_ones n)"

section \<open>nat.go\<close>

definition cidr_error :: go_error where "cidr_error = Opaque ''invalid CIDR address''"

definition ClientSubnetCIDR :: "string \<Rightarrow> go_error + string" where
  "ClientSubnetCIDR s = (case ParseCIDR (trim_space s) of None \<Rightarrow> Inl cidr_error | Some (a, n) \<Rightarrow> Inr (net_string n))"

definition WgGatewayHost :: "string \<Rightarrow> go_error + string" where
  "WgGatewayHost s = (case ParseCIDR (trim_space s) of None \<Rightarrow> Inl cidr_error
     | Some (a, n) \<Rightarrow> (case to4 a of Some q \<Rightarrow> Inr (dotted q) | None \<Rightarrow> Inr (ip_string a)))"

section \<open>resolve_peer_endpoint_host.go\<close>

definition UnconfiguredPeerEndpointHost :: string where
  "UnconfiguredPeerEndpointHost = ''__CONFIGURE_SERVER_HOST__''"

definition skipInterfaceNameForPeerEndpoint :: "string \<Rightarrow> bool" where
  "skipInterfaceNameForPeerEndpoint name = (let n = to_lower (trim_space name) in
     n = [] \<or> n = ''lo'' \<or> has_prefix n ''docker'' \<or> has_prefix n ''br-'' \<or> has_prefix n ''veth''
     \<or> has_prefix n ''virbr'' \<or> has_prefix n ''vbox'' \<or> has_prefix n ''vmnet'' \<or> has_prefix n ''tun-wg'')"

definition ipInDockerDefaultBridge :: "ip \<Rightarrow> bool" where
  "ipInDockerDefaultBridge a = (case to4 a of None \<Rightarrow> False | Some q \<Rightarrow> q ! 0 = 172 \<and> q ! 1 = 17)"

text \<open>The classes of \<open>net.IP\<close>, for four bytes.\<close>

definition v4_loopback :: "ip \<Rightarrow> bool" where "v4_loopback q \<longleftrightarrow> q ! 0 = 127"
definition v4_link_local :: "ip \<Rightarrow> bool" where "v4_link_local q \<longleftrightarrow> q ! 0 = 169 \<and> q ! 1 = 254"

definition v4_private :: "ip \<Rightarrow> bool" where
  "v4_private q \<longleftrightarrow> q ! 0 = 10 \<or> (q ! 0 = 172 \<and> q ! 1 div 16 = 1) \<or> (q ! 0 = 192 \<and> q ! 1 = 168)"

definition v4_global_unicast :: "ip \<Rightarrow> bool" where
  "v4_global_unicast q \<longleftrightarrow> q \<noteq> [255, 255, 255, 255] \<and> q \<noteq> [0, 0, 0, 0] \<and> \<not> v4_loopback q
     \<and> q ! 0 div 16 \<noteq> 14 \<and> \<not> v4_link_local q"

definition scoreIPv4 :: "ip \<Rightarrow> int" where
  "scoreIPv4 ip = (case to4 ip of None \<Rightarrow> -1 | Some q \<Rightarrow>
     if \<not> v4_global_unicast q \<or> v4_loopback q \<or> v4_link_local q then -1
     else let a = int (q ! 0); b = int (q ! 1); c = int (q ! 2); d = int (q ! 3) in
       if v4_private q then
         (if a = 192 \<and> b = 168 then 4000000 + c * 1000 + d
          else if a = 10 then 3000000 + (b * 65536 + c * 256 + d)
          else if a = 172 \<and> 16 \<le> b \<and> b \<le> 31 then 2000000 + (b * 65536 + c * 256 + d)
          else 500000 + (a * 16777216 + b * 65536 + c * 256 + d))
       else 1000000 + (a * 16777216 + b * 65536 + c * 256 + d))"

record iface_snapshot =
  is_name :: string
  is_up :: bool
  is_loopback :: bool
  is_ips :: "ip list"

text \<open>The interfaces of the host with the addresses they list (no list when \<open>Addrs\<close> fails).\<close>

definition snapshotIPv4AddrsFromInterfaces :: "(string \<times> bool \<times> bool \<times> ip list option) list \<Rightarrow> iface_snapshot list" where
  "snapshotIPv4AddrsFromInterfaces ifs = List.map_filter (\<lambda>(n, up, lo, addrs). case addrs of None \<Rightarrow> None | Some as \<Rightarrow>
     (let ips = filter (\<lambda>q. \<not> v4_loopback q \<and> \<not> v4_link_local q \<and> (v4_private q \<or> v4_global_unicast q \<and> \<not> v4_private q))
        (List.map_filter to4 as) in
      if ips = [] then None else Some \<lparr>is_name = n, is_up = up, is_loopback = lo, is_ips = ips\<rparr>)) ifs"

definition candidates :: "bool \<Rightarrow> iface_snapshot list \<Rightarrow> ip list" where
  "candidates inDocker snaps = concat (map (\<lambda>s.
     if \<not> is_up s \<or> is_loopback s \<or> skipInterfaceNameForPeerEndpoint (is_name s) then []
     else filter (\<lambda>q. \<not> (inDocker \<and> ipInDockerDefaultBridge q)) (List.map_filter to4 (is_ips s))) snaps)"

definition pickPeerEndpointHostFromSnapshots :: "bool \<Rightarrow> iface_snapshot list \<Rightarrow> string" where
  "pickPeerEndpointHostFromSnapshots inDocker snaps =
     (case foldl (\<lambda>(best, bs) q. if scoreIPv4 q > bs then (Some q, scoreIPv4 q) else (best, bs)) (None, -1) (candidates inDocker snaps) of
        (None, _) \<Rightarrow> [] | (Some q, _) \<Rightarrow> ip_string q)"

definition resolvePeerEndpointHostFromSnapshots :: "string \<Rightarrow> string \<Rightarrow> bool \<Rightarrow> iface_snapshot list \<Rightarrow> string" where
  "resolvePeerEndpointHostFromSnapshots serverHost publicHost inDocker snaps =
     (if serverHost \<noteq> [] then serverHost else if publicHost \<noteq> [] then publicHost
      else let h = pickPeerEndpointHostFromSnapshots inDocker snaps in
        if h \<noteq> [] then h else UnconfiguredPeerEndpointHost)"

text \<open>\<open>ifs\<close> are the interfaces, none when they cannot be listed.\<close>

definition ResolvePeerEndpointHost :: "bool \<Rightarrow> (string \<times> bool \<times> bool \<times> ip list option) list option \<Rightarrow> string \<Rightarrow> string \<Rightarrow> string" where
  "ResolvePeerEndpointHost inDocker ifs serverHost publicHost =
     resolvePeerEndpointHostFromSnapshots (trim_space serverHost) (trim_space publicHost) inDocker
       (case ifs of None \<Rightarrow> [] | Some l \<Rightarrow> snapshotIPv4AddrsFromInterfaces l)"

section \<open>Lemmas\<close>

lemma parse_field_digits [simp]: "n \<le> 255 \<Longrightarrow> parse_field (nat_digits n) = Some n"
proof -
  assume n: "n \<le> 255"
  have "hd (nat_digits n) \<noteq> CHR ''0''" if "length (nat_digits n) > 1"
  proof -
    have d: "hd (nat_digits m) = CHR ''0'' \<longrightarrow> m = 0" for m
    proof (induction m rule: nat_digits.induct)
      case (1 m)
      show ?case
      proof (cases "m < 10")
        case True
        then have "digit_char m = CHR ''0'' \<longrightarrow> m = 0" using digit_val_digit_char [of m] by (auto simp: digit_val_def)
          with True show ?thesis by (subst nat_digits.simps) simp
      next
        case False
        then show ?thesis using 1 by (subst nat_digits.simps) (auto simp: hd_append)
      qed
    qed
    moreover have "nat_digits 0 = [digit_char 0]" by (subst nat_digits.simps) simp
    ultimately show ?thesis using that by fastforce
  qed
  with n show ?thesis by (auto simp: parse_field_def)
qed

lemma digit_no_space:
  assumes "digit_val c \<noteq> None"
  shows "lead_space (c # r) = 0" "trail_space (c # r) = 0"
proof -
  have c: "48 \<le> (of_char c :: nat) \<and> (of_char c :: nat) \<le> 57" using assms by (auto simp: digit_val_def Let_def split: if_splits)
  have n: "c \<noteq> CHR 0x09" "c \<noteq> CHR 0x0A" "c \<noteq> CHR 0x0B" "c \<noteq> CHR 0x0C" "c \<noteq> CHR 0x0D" "c \<noteq> CHR '' ''"
    "c \<noteq> CHR 0xC2" "c \<noteq> CHR 0xE1" "c \<noteq> CHR 0xE2" "c \<noteq> CHR 0xE3" "c \<noteq> CHR 0x85" "c \<noteq> CHR 0xA0" "c \<noteq> CHR 0x80"
    "c \<notin> {CHR 0x80, CHR 0x81, CHR 0x82, CHR 0x83, CHR 0x84, CHR 0x85, CHR 0x86, CHR 0x87, CHR 0x88, CHR 0x89, CHR 0x8A, CHR 0xA8, CHR 0xA9, CHR 0xAF}"
    "c \<noteq> CHR 0x9F"
    using c by auto
  show "lead_space (c # r) = 0" using n by (auto split: list.splits)
  have "lead_space [c] = 0" "lead_space [b, c] \<noteq> 2" "lead_space [a, b, c] \<noteq> 3" for a b
    using n by (auto split: if_splits)
  then show "trail_space (c # r) = 0"
    by (cases r; cases "tl r") (auto simp: trail_space_def numeral_2_eq_2 numeral_3_eq_3 split: if_splits)
qed

text \<open>A byte string as the number it is in network order; masking clears the low bits.\<close>

fun ip_value :: "ip \<Rightarrow> nat" where
  "ip_value [] = 0"
| "ip_value (b # bs) = b * 256 ^ length bs + ip_value bs"

definition octets :: "ip \<Rightarrow> bool" where
  "octets q \<longleftrightarrow> (\<forall>b\<in>set q. b \<le> 255)"

lemma length_mask_bytes [simp]: "length (mask_bytes n q) = length q"
  by (induction n q rule: mask_bytes.induct) simp_all

lemma ip_value_bound: "octets q \<Longrightarrow> ip_value q < 256 ^ length q"
proof (induction q)
  case (Cons b bs)
  then have "b * 256 ^ length bs + ip_value bs < b * 256 ^ length bs + 256 ^ length bs" by (simp add: octets_def)
  also have "\<dots> = (b + 1) * 256 ^ length bs" by simp
  also have "\<dots> \<le> 256 * 256 ^ length bs" using Cons.prems by (intro mult_right_mono) (simp_all add: octets_def)
  finally show ?case by simp
qed simp

lemma mask_bytes_octets: "octets q \<Longrightarrow> octets (mask_bytes n q)"
proof (induction n q rule: mask_bytes.induct)
  case (2 n b bs)
  have "b div 2 ^ (8 - min 8 n) * 2 ^ (8 - min 8 n) \<le> b" by simp
  also have "b \<le> 255" using 2 by (simp add: octets_def)
  finally show ?case using 2 by (simp add: octets_def Let_def)
qed simp

lemma mask_bytes_0: "octets q \<Longrightarrow> mask_bytes 0 q = replicate (length q) 0"
  by (induction q) (simp_all add: octets_def)

lemma ip_value_zeros: "ip_value (replicate k 0) = 0"
  by (induction k) simp_all

lemma mask_value:
  "octets q \<Longrightarrow> n \<le> 8 * length q \<Longrightarrow>
   ip_value (mask_bytes n q) = ip_value q div 2 ^ (8 * length q - n) * 2 ^ (8 * length q - n)"
proof (induction n q rule: mask_bytes.induct)
  case (1 n)
  then show ?case by simp
next
  case (2 n b bs)
  let ?k = "length bs" and ?m = "8 * length bs"
  have b: "b \<le> 255" "octets bs" using "2.prems" by (simp_all add: octets_def)
  have p: "(256 :: nat) ^ ?k = 2 ^ ?m" by (simp add: power_mult)
  show ?case
  proof (cases "8 \<le> n")
    case True
    let ?d = "2 ^ (?m - (n - 8)) :: nat"
    have le: "n - 8 \<le> ?m" using "2.prems" by simp
    have s: "(2 :: nat) ^ ?m = 2 ^ (n - 8) * ?d" using le by (simp flip: power_add)
    have "(b * 2 ^ (n - 8) * ?d + ip_value bs) div ?d = b * 2 ^ (n - 8) + ip_value bs div ?d" by simp
    then have "(b * 2 ^ ?m + ip_value bs) div ?d * ?d = b * 2 ^ ?m + ip_value bs div ?d * ?d"
      by (metis s add_mult_distrib mult.assoc)
    moreover have "8 * length (b # bs) - n = ?m - (n - 8)" using True by simp
    moreover have "ip_value (mask_bytes n (b # bs)) = b * 2 ^ ?m + ip_value (mask_bytes (n - 8) bs)"
      using True by (simp add: p Let_def min_def)
    ultimately show ?thesis using 2(1) [OF b(2) le] by (simp only: ip_value.simps p)
  next
    case False
    let ?e = "2 ^ (8 - n) :: nat"
    have z: "mask_bytes (n - 8) bs = replicate ?k 0" using False mask_bytes_0 [OF b(2)] by simp
    have s: "(2 :: nat) ^ (8 * length (b # bs) - n) = ?e * 2 ^ ?m"
      using False by (simp flip: power_add)
    have "(b * 2 ^ ?m + ip_value bs) div (?e * 2 ^ ?m) = b div ?e"
    proof -
      have "(b * 2 ^ ?m + ip_value bs) div 2 ^ ?m = b"
        using ip_value_bound [OF b(2)] by (simp add: p)
      then show ?thesis by (metis div_mult2_eq mult.commute)
    qed
    moreover have "ip_value (mask_bytes n (b # bs)) = b div ?e * ?e * 2 ^ ?m"
      using False z by (simp add: p Let_def min_def ip_value_zeros)
    ultimately show ?thesis by (simp only: s ip_value.simps p mult.assoc)
  qed
qed

text \<open>Addresses in dotted form.\<close>

lemma nat_digits_no: "\<not> (digit_val c \<noteq> None) \<Longrightarrow> c \<notin> set (nat_digits n)"
  using digit_val_nat_digits by blast

lemma dot_no_digit: "digit_val CHR ''.'' = None" "digit_val CHR ''/'' = None" "digit_val CHR ''%'' = None" "digit_val CHR '':'' = None"
  by (simp_all add: digit_val_def)

lemma split_dotted: "q \<noteq> [] \<Longrightarrow> split_on CHR ''.'' (dotted q) = map nat_digits q"
  unfolding dotted_def by (rule split_join) (auto simp: nat_digits_no dot_no_digit)

lemma four: assumes "length q = 4" shows "\<exists>a b c d. q = [a, b, c, d]"
proof -
  have "length q = Suc (Suc (Suc (Suc 0)))" using assms by simp
  then show ?thesis by (auto simp: length_Suc_conv)
qed

lemma parse_dotted:
  assumes "length q = 4" "octets q" shows "parse_ipv4 (dotted q) = Some q"
proof -
  obtain a b c d where q: "q = [a, b, c, d]" using four [OF assms(1)] by blast
  then have "q \<noteq> []" by simp
  from split_dotted [OF this] show ?thesis using assms(2) unfolding parse_ipv4_def by (simp add: q octets_def)
qed

lemma set_dotted: "c \<in> set (dotted q) \<Longrightarrow> c = CHR ''.'' \<or> digit_val c \<noteq> None"
proof -
  have "set (join_with d ws) \<subseteq> set d \<union> (\<Union>w\<in>set ws. set w)" for d ws
    by (induction d ws rule: join_with.induct) auto
  then show "c \<in> set (dotted q) \<Longrightarrow> c = CHR ''.'' \<or> digit_val c \<noteq> None"
    unfolding dotted_def using digit_val_nat_digits by fastforce
qed

lemma dotted_shape:
  assumes "length q = 4"
  shows "\<exists>c r. dotted q = c # r \<and> digit_val c \<noteq> None" "CHR ''.'' \<in> set (dotted q)"
    "CHR ''/'' \<notin> set (dotted q)" "CHR ''%'' \<notin> set (dotted q)" "CHR '':'' \<notin> set (dotted q)"
proof -
  obtain a b c d where q: "q = [a, b, c, d]" using four [OF assms] by blast
  have "nat_digits a \<noteq> []" by simp
  then obtain x xs where "nat_digits a = x # xs" by (cases "nat_digits a") auto
  then show "\<exists>c r. dotted q = c # r \<and> digit_val c \<noteq> None"
    using digit_val_nat_digits [of x a] by (simp add: q dotted_def)
  show "CHR ''.'' \<in> set (dotted q)" by (simp add: q dotted_def)
  show "CHR ''/'' \<notin> set (dotted q)" "CHR ''%'' \<notin> set (dotted q)" "CHR '':'' \<notin> set (dotted q)"
    using set_dotted [of "CHR ''/''" q] set_dotted [of "CHR ''%''" q] set_dotted [of "CHR '':''" q] dot_no_digit by auto
qed

lemma parse_addr_dotted:
  assumes "length q = 4" "octets q" shows "parse_addr (dotted q) = Some q"
proof -
  have "find (\<lambda>c. c \<in> {CHR ''.'', CHR '':''}) s = Some CHR ''.''" if "CHR ''.'' \<in> set s" "CHR '':'' \<notin> set s" for s
    using that by (induction s) auto
  from this [OF dotted_shape(2,5) [OF assms(1)]] show ?thesis
    using dotted_shape [OF assms(1)] parse_dotted [OF assms] by (simp add: parse_addr_def)
qed

text \<open>An IPv4 address in CIDR notation.\<close>

definition cidr4 :: "ip \<Rightarrow> nat \<Rightarrow> string" where
  "cidr4 q n = dotted q @ ''/'' @ nat_digits n"

lemma cidr4_trim [simp]:
  assumes "length q = 4" shows "trim_space (cidr4 q n) = cidr4 q n"
proof (rule trim_space_id)
  obtain c r where "dotted q = c # r" "digit_val c \<noteq> None" using dotted_shape(1) [OF assms] by blast
  then show "lead_space (cidr4 q n) = 0" using digit_no_space(1) by (simp add: cidr4_def)
  have "rev (nat_digits n) \<noteq> []" by simp
  then obtain x xs where x: "rev (nat_digits n) = x # xs" by (cases "rev (nat_digits n)") auto
  then have "x \<in> set (nat_digits n)" by (metis list.set_intros(1) set_rev)
  then have "digit_val x \<noteq> None" by (rule digit_val_nat_digits)
  then show "trail_space (rev (cidr4 q n)) = 0" using digit_no_space(2) by (simp add: cidr4_def x)
qed

lemma ParseCIDR_cidr4:
  assumes "length q = 4" "octets q" "n \<le> 32"
  shows "ParseCIDR (cidr4 q n) = Some (v4_prefix @ q, \<lparr>in_ip = mask_bytes n q, in_ones = n\<rparr>)"
proof -
  have t: "takeWhile (\<lambda>c. c \<noteq> CHR ''/'') (cidr4 q n) = dotted q"
    using dotted_shape(3) [OF assms(1)] unfolding cidr4_def by (subst takeWhile_append2) auto
  have "parse_ones 32 (nat_digits n) = Some n" using assms(3) by (simp add: parse_ones_def)
  then show ?thesis using assms t parse_addr_dotted [OF assms(1,2)]
    by (simp add: ParseCIDR_def Let_def) (simp add: cidr4_def to16_def)
qed

text \<open>C21: for a tunnel address a.b.c.d/n the gateway is a.b.c.d, and the subnet to masquerade is the network: the address
  with its low 32 - n bits cleared, which is a fixed point of the computation.\<close>

theorem tunnel_subnet:
  assumes "length q = 4" "octets q" "n \<le> 32"
  shows "WgGatewayHost (cidr4 q n) = Inr (dotted q)
    \<and> (\<exists>net. ClientSubnetCIDR (cidr4 q n) = Inr (cidr4 net n) \<and> ClientSubnetCIDR (cidr4 net n) = Inr (cidr4 net n)
         \<and> length net = 4 \<and> octets net \<and> ip_value net = ip_value q div 2 ^ (32 - n) * 2 ^ (32 - n))"
proof -
  let ?net = "mask_bytes n q"
  have ok: "length ?net = 4" "octets ?net" using assms mask_bytes_octets by simp_all
  have val: "ip_value ?net = ip_value q div 2 ^ (32 - n) * 2 ^ (32 - n)" using mask_value [OF assms(2)] assms by simp
  have inj: "p = r" if "octets p" "octets r" "length p = length r" "ip_value p = ip_value r" for p r
    using that
  proof (induction p r rule: list_induct2')
    case (4 x xs y ys)
    have "x * 256 ^ length ys + ip_value xs = y * 256 ^ length ys + ip_value ys" "ip_value xs < 256 ^ length ys" "ip_value ys < 256 ^ length ys"
      using 4 ip_value_bound [of xs] ip_value_bound [of ys] by (simp_all add: octets_def)
    then have "x = y" "ip_value xs = ip_value ys"
      by (metis add.commute div_mult_self3 div_less add_0 power_not_zero zero_neq_numeral, metis add.commute mod_mult_self3 mod_less)
    with 4 show ?case by (simp add: octets_def)
  qed simp_all
  have "mask_bytes n ?net = ?net"
    by (rule inj) (use assms ok mask_bytes_octets [OF ok(2)] mask_value [OF ok(2)] val in simp_all)
  then have fixed: "ClientSubnetCIDR (cidr4 ?net n) = Inr (cidr4 ?net n)"
    using ParseCIDR_cidr4 [OF ok assms(3)] ok
    by (simp add: ClientSubnetCIDR_def net_string_def ip_string_def to4_def) (simp add: cidr4_def)
  have "ClientSubnetCIDR (cidr4 q n) = Inr (cidr4 ?net n)" "WgGatewayHost (cidr4 q n) = Inr (dotted q)"
    using ParseCIDR_cidr4 [OF assms] assms
    by (simp_all add: ClientSubnetCIDR_def WgGatewayHost_def net_string_def ip_string_def to4_def v4_prefix_def) (simp add: cidr4_def)
  with fixed ok val show ?thesis by blast
qed

theorem tunnel_subnet_witness:
  "WgGatewayHost (cidr4 [10, 100, 7, 1] 24) = Inr (dotted [10, 100, 7, 1])
   \<and> (\<exists>net. ClientSubnetCIDR (cidr4 [10, 100, 7, 1] 24) = Inr (cidr4 net 24) \<and> ip_value net = 174327552)"
proof -
  have "length [10, 100, 7, 1 :: nat] = 4" "octets [10, 100, 7, 1]" by (simp_all add: octets_def)
  from tunnel_subnet [OF this, of 24] show ?thesis by auto
qed

section \<open>The endpoint host\<close>

lemma best_fold:
  fixes score :: "'b \<Rightarrow> int"
  assumes "foldl (\<lambda>(best, bs) q. if score q > bs then (Some q, score q) else (best, bs)) (None, -1) qs = (r, m)"
  shows "(\<forall>q\<in>set qs. score q \<le> m) \<and> -1 \<le> m \<and> (r = None \<longleftrightarrow> m = -1) \<and> (\<forall>q. r = Some q \<longrightarrow> q \<in> set qs \<and> score q = m)"
  using assms
proof (induction qs arbitrary: r m rule: rev_induct)
  case (snoc x qs)
  obtain r' m' where f: "foldl (\<lambda>(best, bs) q. if score q > bs then (Some q, score q) else (best, bs)) (None, -1) qs = (r', m')"
    by fastforce
  from snoc.IH [OF f] snoc.prems f show ?case by (cases "score x > m'") auto
qed auto

lemma candidates_length: "q \<in> set (candidates d snaps) \<Longrightarrow> length q = 4"
  by (auto simp: candidates_def set_map_filter_Some to4_def split: if_splits)

lemma pick_cases:
  obtains (none) "pickPeerEndpointHostFromSnapshots d snaps = []" "\<forall>q\<in>set (candidates d snaps). scoreIPv4 q \<le> -1"
  | (host) q where "q \<in> set (candidates d snaps)" "0 \<le> scoreIPv4 q" "pickPeerEndpointHostFromSnapshots d snaps = dotted q"
      "\<forall>p\<in>set (candidates d snaps). scoreIPv4 p \<le> scoreIPv4 q"
proof -
  obtain r m where f: "foldl (\<lambda>(best, bs) q. if scoreIPv4 q > bs then (Some q, scoreIPv4 q) else (best, bs)) (None, -1) (candidates d snaps) = (r, m)"
    by fastforce
  note b = best_fold [OF f]
  have pick: "pickPeerEndpointHostFromSnapshots d snaps = (case r of None \<Rightarrow> [] | Some q \<Rightarrow> ip_string q)"
    by (simp add: pickPeerEndpointHostFromSnapshots_def f split: option.split)
  show thesis
  proof (cases r)
    case None
    then have "m = -1" using b by simp
    with None b pick show thesis by (intro none) auto
  next
    case (Some q)
    with b have q: "q \<in> set (candidates d snaps)" "scoreIPv4 q = m" "m \<noteq> -1" "-1 \<le> m" by simp_all
    have "ip_string q = dotted q" using candidates_length [OF q(1)] by (simp add: ip_string_def to4_def)
    with q b Some pick show thesis by (intro host [of q]) simp_all
  qed
qed

lemma dotted_ne: "length q = 4 \<Longrightarrow> dotted q \<noteq> []"
  using dotted_shape(1) by fastforce

text \<open>C22: the host in a client's Endpoint line is never empty: the configured host, else the one of the environment, else
  the address of highest rank among those of the usable interfaces, else the placeholder.\<close>

theorem endpoint_host:
  "(let h = ResolvePeerEndpointHost d ifs server public; snaps = (case ifs of None \<Rightarrow> [] | Some l \<Rightarrow> snapshotIPv4AddrsFromInterfaces l) in
     h \<noteq> [] \<and> (if trim_space server \<noteq> [] then h = trim_space server
      else if trim_space public \<noteq> [] then h = trim_space public
      else if \<exists>q\<in>set (candidates d snaps). 0 \<le> scoreIPv4 q
      then \<exists>q\<in>set (candidates d snaps). h = dotted q \<and> (\<forall>p\<in>set (candidates d snaps). scoreIPv4 p \<le> scoreIPv4 q)
      else h = UnconfiguredPeerEndpointHost))"
proof -
  let ?snaps = "case ifs of None \<Rightarrow> [] | Some l \<Rightarrow> snapshotIPv4AddrsFromInterfaces l"
  have u: "UnconfiguredPeerEndpointHost \<noteq> []" by (simp add: UnconfiguredPeerEndpointHost_def)
  show ?thesis
  proof (cases rule: pick_cases [of d ?snaps])
    case none
    then show ?thesis using u
      by (auto simp: ResolvePeerEndpointHost_def resolvePeerEndpointHostFromSnapshots_def Let_def)
  next
    case (host q)
    have "dotted q \<noteq> []" using host(1) by (intro dotted_ne candidates_length)
    with host show ?thesis
      by (auto simp: ResolvePeerEndpointHost_def resolvePeerEndpointHostFromSnapshots_def Let_def)
  qed
qed

theorem endpoint_host_witness:
  "ResolvePeerEndpointHost False (Some [(''eth0'', True, False, Some [[192, 168, 1, 10]]), (''docker0'', True, False, Some [[172, 17, 0, 1]])]) [] []
     = ''192.168.1.10''"
proof -
  let ?ifs = "[(''eth0'', True, False, Some [[192, 168, 1, 10]]), (''docker0'', True, False, Some [[172, 17, 0, 1]])]"
  have c: "candidates False (snapshotIPv4AddrsFromInterfaces ?ifs) = [[192, 168, 1, 10]]" by code_simp
  have s: "scoreIPv4 [192, 168, 1, 10] = 4001010" by code_simp
  have d: "dotted [192, 168, 1, 10] = ''192.168.1.10''" by code_simp
  have t: "trim_space [] = []" by code_simp
  show ?thesis using endpoint_host [of False "Some ?ifs" "[]" "[]"] by (simp add: Let_def c s d t del: One_nat_def)
qed

text \<open>The ranks of the address classes overlap: an address 10.b.c.d with b at least 20 outranks every 192.168
  address, which has the higher base rank, and a public address from 2.0.0.0 on outranks every private one.\<close>

theorem endpoint_ranks_overlap:
  assumes "x \<le> 255" "y \<le> 255" "c \<le> 255" "d \<le> 255" "b \<le> 255"
  shows "(20 \<le> b \<longrightarrow> scoreIPv4 [192, 168, x, y] < scoreIPv4 [10, b, c, d])
    \<and> (2 \<le> a \<longrightarrow> v4_global_unicast [a, b, c, d] \<longrightarrow> \<not> v4_private [a, b, c, d] \<longrightarrow> v4_private [p, q, x, y] \<longrightarrow> q \<le> 255 \<longrightarrow>
         scoreIPv4 [p, q, x, y] < scoreIPv4 [a, b, c, d])"
proof -
  have priv: "scoreIPv4 [p, q, x, y] \<le> 3000000 + 16777215" if "v4_private [p, q, x, y]" "q \<le> 255"
    using that assms
    by (auto simp: scoreIPv4_def to4_def v4_private_def v4_global_unicast_def Let_def)
  have pub: "scoreIPv4 [a, b, c, d] \<ge> 1000000 + int a * 16777216" if "v4_global_unicast [a, b, c, d]" "\<not> v4_private [a, b, c, d]"
    using that by (simp add: scoreIPv4_def to4_def v4_global_unicast_def Let_def)
  have "scoreIPv4 [192, 168, x, y] < scoreIPv4 [10, b, c, d]" if "20 \<le> b"
    using that assms by (auto simp: scoreIPv4_def to4_def v4_private_def v4_global_unicast_def v4_loopback_def v4_link_local_def Let_def)
  with priv pub show ?thesis by fastforce
qed

theorem endpoint_ranks_overlap_witness:
  "scoreIPv4 [192, 168, 31, 28] < scoreIPv4 [10, 20, 0, 5]"
  using endpoint_ranks_overlap [of 31 28 0 5 20] by simp

end
