(* ===== verification/Access.thy ===== *)
theory Access
  imports LinkText GoNet "HOL-Library.List_Lexorder" "HOL-Library.Char_ord"
begin

text \<open>
  What decides, before any handler runs, whether a request is let in: the allowed browser origins
  (\<open>security/origin/origin.go\<close>, used by CORS and by the upgrade of the WebSocket), the guard of the metrics
  (\<open>middleware/metrics_api_key.go\<close>), and the small middlewares and probes beside them (\<open>request_id.go\<close>,
  \<open>csp.go\<close>, \<open>mount/health.go\<close>). The letters of a host that \<open>strings.ToLower\<close> changes are the ASCII ones
  (theory GoStrings): a browser sends its origin in ASCII.
\<close>

section \<open>Allowed origins (security/origin/origin.go)\<close>

definition normalizeOrigin :: "string \<Rightarrow> go_error + string" where
  "normalizeOrigin s = (let t = trim_space s in
     if t = [] then Inl (Opaque ''empty origin'')
     else case url_parse t of
       None \<Rightarrow> Inl (Opaque ''parse'')
     | Some u \<Rightarrow> if u_scheme u = [] \<or> u_host u = [] then Inl (Opaque ''origin must include scheme and host'')
         else Inr (to_lower (u_scheme u) @ ''://'' @ to_lower (u_host u)))"

fun collect_origins :: "string list \<Rightarrow> string set \<Rightarrow> go_error + string set" where
  "collect_origins [] allowed = Inr allowed"
| "collect_origins (part # parts) allowed = (let p = trim_space part in
     if p = [] then collect_origins parts allowed
     else case normalizeOrigin p of
       Inl e \<Rightarrow> Inl (Wrap ''invalid allowed origin'' e)
     | Inr n \<Rightarrow> collect_origins parts (insert n allowed))"

definition NewConfig :: "string \<Rightarrow> go_error + string set" where
  "NewConfig allowedList = (case collect_origins (split_on CHR '','' allowedList) {} of
     Inl e \<Rightarrow> Inl e
   | Inr allowed \<Rightarrow> if allowed = {} then Inl (Opaque ''CORS_ALLOWED_ORIGINS is required and must list at least one valid origin'')
       else Inr allowed)"

definition AllowOrigin :: "string set \<Rightarrow> string \<Rightarrow> bool" where
  "AllowOrigin allowed origin = (if trim_space origin = [] then False
     else case normalizeOrigin origin of Inl e \<Rightarrow> False | Inr n \<Rightarrow> n \<in> allowed)"

text \<open>\<open>sort.Strings\<close> orders by bytes, as the library's order on lists of characters does.\<close>

definition AllowedOrigins :: "string set \<Rightarrow> string list" where
  "AllowedOrigins allowed = sorted_list_of_set allowed"

section \<open>Metrics (middleware/metrics_api_key.go)\<close>

text \<open>\<open>net.SplitHostPort\<close>.\<close>

definition split_host_port :: "string \<Rightarrow> (string \<times> string) option" where
  "split_host_port hp = (case cut_last CHR '':'' hp of (before, port, colon) \<Rightarrow>
     if \<not> colon then None
     else if hd hp = CHR ''['' then
       (case cut_at CHR '']'' hp of (a, b, found) \<Rightarrow>
          if \<not> found \<or> before \<noteq> a @ '']'' \<or> CHR ''['' \<in> set (tl hp) \<or> CHR '']'' \<in> set b then None else Some (tl a, port))
     else if CHR '':'' \<in> set before \<or> CHR ''['' \<in> set hp \<or> CHR '']'' \<in> set hp then None
     else Some (before, port))"

definition ip_loopback :: "ip \<Rightarrow> bool" where
  "ip_loopback a = (case to4 a of Some q \<Rightarrow> q ! 0 = 127 | None \<Rightarrow> a = replicate 15 0 @ [1])"

definition isMetricsLoopback :: "string \<Rightarrow> bool" where
  "isMetricsLoopback remoteAddr = (let addr = trim_space remoteAddr in
     if addr = [] then False
     else case split_host_port addr of
       None \<Rightarrow> (case ParseIP addr of None \<Rightarrow> False | Some a \<Rightarrow> ip_loopback a)
     | Some (host, _) \<Rightarrow> (case ParseIP host of None \<Rightarrow> False | Some a \<Rightarrow> ip_loopback a))"

text \<open>None lets the request through.\<close>

definition MetricsAccess :: "string \<Rightarrow> string \<Rightarrow> string \<Rightarrow> go_error option" where
  "MetricsAccess apiKey header remoteAddr = (let key = trim_space apiKey in
     if key \<noteq> [] then (if header \<noteq> key then Some (HTTPErr 401 (MsgString ''unauthorized'') None) else None)
     else if isMetricsLoopback remoteAddr then None
     else Some (HTTPErr 403 (MsgString ''forbidden'') None))"

section \<open>Other middlewares and probes\<close>

definition hex_text :: "nat list \<Rightarrow> string" where
  "hex_text bs = concat (map (\<lambda>b. [hex_digit (b div 16), hex_digit (b mod 16)]) bs)"

text \<open>\<open>rand\<close>: the twelve random bytes, if they can be drawn.\<close>

definition genRequestID :: "nat list option \<Rightarrow> string" where
  "genRequestID rand = (case rand of None \<Rightarrow> ''req-fallback'' | Some b \<Rightarrow> hex_text b)"

text \<open>The id that the request, the response and the context get.\<close>

definition RequestID :: "nat list option \<Rightarrow> string \<Rightarrow> string" where
  "RequestID rand header = (if header = [] then genRequestID rand else header)"

definition csp_policy :: string where
  "csp_policy = (let q = (\<lambda>s. CHR 0x27 # s @ [CHR 0x27]) in join_with ''; ''
     [''default-src '' @ q ''self'', ''script-src '' @ q ''self'',
      ''style-src '' @ q ''self'' @ '' https://fonts.googleapis.com'',
      ''font-src '' @ q ''self'' @ '' https://fonts.gstatic.com data:'',
      ''connect-src '' @ q ''self'' @ '' ws: wss:'', ''img-src '' @ q ''self'' @ '' data: blob:'',
      ''frame-ancestors '' @ q ''none'', ''base-uri '' @ q ''none'', ''form-action '' @ q ''self''])"

definition CSP :: "string \<Rightarrow> string option" where
  "CSP csp_off = (if equal_fold (trim_space csp_off) ''true'' then None else Some csp_policy)"

record health =
  he_db :: bool
  he_ready :: bool

definition MarkReady :: "health option \<Rightarrow> health option" where
  "MarkReady h = map_option (he_ready_update (\<lambda>_. True)) h"

text \<open>\<open>ping\<close>: whether the database answers. The result is the status and the body's \<open>status\<close>.\<close>

definition Readiness :: "health option \<Rightarrow> bool \<Rightarrow> int \<times> string" where
  "Readiness h ping = (case h of
     None \<Rightarrow> (503, ''not_ready'')
   | Some p \<Rightarrow> if \<not> he_ready p then (503, ''not_ready'')
       else if \<not> he_db p then (503, ''no_db'')
       else if \<not> ping then (503, ''unready'')
       else (200, ''ready''))"

section \<open>An origin as a browser sends it\<close>

text \<open>Scheme, host name and optional port, in lower case.\<close>

definition lower_ascii :: "char \<Rightarrow> bool" where
  "lower_ascii c \<longleftrightarrow> alnum c \<and> lower_char c = c"

definition plain_origin :: "string \<Rightarrow> bool" where
  "plain_origin org \<longleftrightarrow> (case cut_at CHR '':'' org of (sch, rest, _) \<Rightarrow>
     sch \<noteq> [] \<and> list_all (\<lambda>c. lower_ascii c \<and> digit_val c = None) sch \<and> take 2 rest = ''//''
     \<and> (case cut_at CHR '':'' (drop 2 rest) of (a, p, port) \<Rightarrow>
          a \<noteq> [] \<and> list_all (\<lambda>c. lower_ascii c \<or> c \<in> set ''-.'') a \<and> list_all (\<lambda>c. digit_val c \<noteq> None) p))"

lemma cut_at_back: "cut_at d s = (a, b, f) \<Longrightarrow> s = a @ (if f then d # b else []) \<and> d \<notin> set a \<and> (\<not> f \<longrightarrow> b = [])"
  by (induction s arbitrary: a b f) (auto split: if_splits prod.splits)

lemma plain_origin_parts:
  assumes "plain_origin org"
  obtains sch a p where "org = sch @ ''://'' @ a @ p" "sch \<noteq> []" "a \<noteq> []"
    "\<And>c. c \<in> set sch \<Longrightarrow> lower_ascii c \<and> digit_val c = None"
    "\<And>c. c \<in> set a \<Longrightarrow> lower_ascii c \<or> c \<in> set ''-.''" "valid_optional_port p"
proof -
  obtain sch rest f where 1: "cut_at CHR '':'' org = (sch, rest, f)" by (cases "cut_at CHR '':'' org") auto
  obtain a b g where 2: "cut_at CHR '':'' (drop 2 rest) = (a, b, g)" by (cases "cut_at CHR '':'' (drop 2 rest)") auto
  let ?p = "if g then CHR '':'' # b else []"
  have h: "sch \<noteq> []" "list_all (\<lambda>c. lower_ascii c \<and> digit_val c = None) sch" "take 2 rest = ''//''" "a \<noteq> []"
    "list_all (\<lambda>c. lower_ascii c \<or> c \<in> set ''-.'') a" "list_all (\<lambda>c. digit_val c \<noteq> None) b"
    using assms 1 2 by (auto simp: plain_origin_def)
  then have f: f using cut_at_back [OF 1] by (cases f) auto
  then have "org = sch @ CHR '':'' # rest" "drop 2 rest = a @ ?p" using cut_at_back [OF 1] cut_at_back [OF 2] by auto
  moreover have "rest = ''//'' @ drop 2 rest" using h(3) append_take_drop_id [of 2 rest] by metis
  ultimately have "org = sch @ CHR '':'' # (''//'' @ a @ ?p)" by metis
  then have "org = sch @ ''://'' @ a @ ?p" by simp
  moreover have "valid_optional_port ?p" using h(6) by (auto simp: valid_optional_port_def list_all_iff)
  ultimately show ?thesis using h by (intro that [of sch a ?p]) (auto simp: list_all_iff)
qed

lemma to_lower_id: "(\<And>c. c \<in> set s \<Longrightarrow> plain c \<and> lower_char c = c) \<Longrightarrow> to_lower s = s"
proof (induction s rule: to_lower.induct)
  case (1 a b c s)
  have "a \<noteq> CHR 0xC4" "a \<noteq> CHR 0xE2" using 1(4) [of a] by (auto simp: plain_def byte_def)
  then show ?case using 1 by simp
next
  case (2 a b)
  have "a \<noteq> CHR 0xC4" using 2 [of a] by (auto simp: plain_def byte_def)
  then show ?case using 2 by simp
qed simp_all

lemma lower_ascii_plain: "lower_ascii c \<Longrightarrow> plain c \<and> lower_char c = c \<and> \<not> shouldEscape c m"
  by (auto simp: lower_ascii_def alnum_plain shouldEscape_def)

lemma digit_lower: "digit_val c \<noteq> None \<Longrightarrow> lower_ascii c"
  by (auto simp: lower_ascii_def digit_alnum digit_val_def lower_char_def byte_def Let_def split: if_splits)

lemma scheme_letters:
  assumes "sch \<noteq> []" "\<And>c. c \<in> set sch \<Longrightarrow> alnum c \<and> digit_val c = None"
  shows "scheme_go [] (sch @ CHR '':'' # s) = Some (sch, s)"
proof -
  have "scheme_go seen (xs @ CHR '':'' # s) = (if rev seen @ xs = [] then None else Some (rev seen @ xs, s))"
    if "\<And>c. c \<in> set xs \<Longrightarrow> alnum c \<and> digit_val c = None" for xs seen
    using that
  proof (induction xs arbitrary: seen)
    case Nil
    have "\<not> alnum CHR '':''" "digit_val CHR '':'' = None" by code_simp+
    then show ?case by simp
  qed simp
  then show ?thesis using assms by simp
qed

lemma marks_lower: "c \<in> set ''-.'' \<Longrightarrow> plain c \<and> lower_char c = c \<and> \<not> shouldEscape c EncHost"
  "\<forall>c\<in>set '':/@?#[''. \<not> lower_ascii c \<and> c \<notin> set ''-.''"
proof -
  have "\<forall>c\<in>set ''-.''. plain c \<and> lower_char c = c \<and> \<not> shouldEscape c EncHost" by code_simp
  then show "c \<in> set ''-.'' \<Longrightarrow> plain c \<and> lower_char c = c \<and> \<not> shouldEscape c EncHost" by blast
  show "\<forall>c\<in>set '':/@?#[''. \<not> lower_ascii c \<and> c \<notin> set ''-.''" by code_simp
qed

lemma parse_host_plain:
  assumes "a \<noteq> []" "\<And>c. c \<in> set a \<Longrightarrow> lower_ascii c \<or> c \<in> set ''-.''" "valid_optional_port p"
  shows "parse_host (a @ p) = Some (a @ p)"
proof -
  have a: "hd (a @ p) \<noteq> CHR ''[''" "CHR '':'' \<notin> set a"
    using assms(1) assms(2) [of "hd a"] assms(2) [of "CHR '':''"] marks_lower(2) by auto
  have colon: "\<not> shouldEscape CHR '':'' EncHost" by code_simp
  have "\<not> shouldEscape c EncHost" if "c \<in> set a" for c
    using assms(2) [OF that] lower_ascii_plain marks_lower(1) by blast
  moreover have "\<not> shouldEscape c EncHost" if "c \<in> set p" for c
  proof (cases p)
    case (Cons d b)
    then have "c = CHR '':'' \<or> digit_val c \<noteq> None" using that assms(3) by (auto simp: valid_optional_port_def)
    then show ?thesis using colon digit_lower lower_ascii_plain by blast
  qed (use that in simp)
  ultimately have u: "unescape EncHost (a @ p) = Some (a @ p)" by (intro unescape_host_id) auto
  have "cut_last CHR '':'' (a @ p) = (if p = [] then (a, [], False) else (a, tl p, True))"
  proof (cases p)
    case Nil
    then show ?thesis using cut_last_no [OF a(2)] by simp
  next
    case (Cons d b)
    then have "d = CHR '':''" "CHR '':'' \<notin> set b" using assms(3) digit_marks(1) by (auto simp: valid_optional_port_def)
    then show ?thesis using Cons cut_last_last [of "CHR '':''" b a] by simp
  qed
  moreover have "p \<noteq> [] \<Longrightarrow> CHR '':'' # tl p = p" using assms(3) by (cases p) (auto simp: valid_optional_port_def)
  ultimately show ?thesis using u a(1) assms(3) by (auto simp: parse_host_def)
qed

lemma plain_origin_chars:
  assumes "plain_origin org" "c \<in> set org"
  shows "plain c" "lower_char c = c" "c \<notin> set ''#?''" "c \<noteq> CHR '',''"
proof -
  obtain sch a p where o: "org = sch @ ''://'' @ a @ p" "valid_optional_port p"
    "\<And>c. c \<in> set sch \<Longrightarrow> lower_ascii c \<and> digit_val c = None" "\<And>c. c \<in> set a \<Longrightarrow> lower_ascii c \<or> c \<in> set ''-.''"
    using plain_origin_parts [OF assms(1)] by metis
  have "c \<in> set p \<Longrightarrow> c = CHR '':'' \<or> lower_ascii c" using o(2) digit_lower by (cases p) (auto simp: valid_optional_port_def)
  then have "lower_ascii c \<or> c \<in> set ''-.:/''" using assms(2) o(3,4) by (auto simp: o(1))
  moreover have "\<forall>c\<in>set ''-.:/''. plain c \<and> lower_char c = c \<and> c \<notin> set ''#?'' \<and> c \<noteq> CHR '',''" by code_simp
  moreover have "\<not> lower_ascii CHR ''#''" "\<not> lower_ascii CHR ''?''" "\<not> lower_ascii CHR '',''" by code_simp+
  ultimately show "plain c" "lower_char c = c" "c \<notin> set ''#?''" "c \<noteq> CHR '',''"
    using lower_ascii_plain [of c] by (metis, metis, auto)
qed

lemma plain_origin_id:
  assumes "plain_origin org"
  shows "normalizeOrigin org = Inr org" "trim_space org = org" "org \<noteq> []"
proof -
  obtain sch a p where o: "org = sch @ ''://'' @ a @ p" "sch \<noteq> []" "a \<noteq> []"
    "\<And>c. c \<in> set sch \<Longrightarrow> lower_ascii c \<and> digit_val c = None"
    "\<And>c. c \<in> set a \<Longrightarrow> lower_ascii c \<or> c \<in> set ''-.''" "valid_optional_port p"
    using plain_origin_parts [OF assms] by metis
  note ch = plain_origin_chars [OF assms]
  show t: "trim_space org = org" by (rule trim_plain) (rule ch(1))
  show ne: "org \<noteq> []" using o(1) by simp
  have ctl: "\<not> has_ctl org" using ch(1) by (force simp: has_ctl_def plain_def)
  have "CHR ''#'' \<notin> set org" "CHR ''?'' \<notin> set org" using ch(3) by (metis list.set_intros)+
  then have c1: "cut_at CHR ''#'' org = (org, [], False)" "CHR ''?'' \<notin> set (''//'' @ a @ p)"
    by (simp_all add: cut_at_no) (simp add: o(1))
  have c2: "cut_at CHR ''?'' (''//'' @ a @ p) = (''//'' @ a @ p, [], False)" by (rule cut_at_no [OF c1(2)])
  have sg: "scheme_go [] org = Some (sch, ''//'' @ a @ p)"
    using scheme_letters [of sch "''//'' @ a @ p"] o(1,2,4) by (simp add: lower_ascii_def)
  have "x \<notin> set (a @ p)" if "x \<in> set ''/@''" for x
  proof -
    have "\<not> lower_ascii x" "x \<notin> set ''-.''" "x \<noteq> CHR '':''" using that marks_lower(2) by auto
    then show ?thesis using o(5,6) digit_lower [of x] by (cases p) (auto simp: valid_optional_port_def)
  qed
  then have sl: "CHR ''/'' \<notin> set (a @ p)" and at: "CHR ''@'' \<notin> set (a @ p)" by (meson list.set_intros)+
  have c3: "cut_at CHR ''/'' (a @ p) = (a @ p, [], False)" "cut_last CHR ''@'' (a @ p) = (a @ p, [], False)"
    by (rule cut_at_no [OF sl], rule cut_last_no [OF at])
  have au: "parse_authority (a @ p) = Some (None, None, a @ p)"
    using c3(2) parse_host_plain [OF o(3,5,6)] by (simp add: parse_authority_def)
  have low: "to_lower sch = sch" "to_lower (a @ p) = a @ p"
  proof -
    have "set sch \<subseteq> set org" "set (a @ p) \<subseteq> set org" by (auto simp: o(1))
    then show "to_lower sch = sch" "to_lower (a @ p) = a @ p"
      by (intro to_lower_id; meson ch(1,2) subsetD)+
  qed
  have "parse_rest sch (''//'' @ a @ p) [] = Some (empty_url\<lparr>u_scheme := sch, u_host := a @ p\<rparr>)"
    using c3(1) au low(1) o(2) by (simp add: parse_rest_def has_prefix_def numeral_2_eq_2 numeral_3_eq_3 Let_def empty_url_def)
  moreover have "org \<noteq> ''*''" using o(1,2) by (cases sch) auto
  ultimately have "url_parse org = Some (empty_url\<lparr>u_scheme := sch, u_host := a @ p\<rparr>)"
    using c1(1) c2 sg ctl by (simp add: url_parse_def empty_url_def)
  then show "normalizeOrigin org = Inr org"
    using t ne low o(1-3) by (simp add: normalizeOrigin_def Let_def)
qed

section \<open>Properties\<close>

lemma normalize_trim: "normalizeOrigin (trim_space p) = normalizeOrigin p"
  by (simp add: normalizeOrigin_def)

lemma normalize_blank: "trim_space p = [] \<Longrightarrow> normalizeOrigin p = Inl (Opaque ''empty origin'')"
  by (simp add: normalizeOrigin_def)

lemma collect_ok:
  "collect_origins parts s = Inr r \<Longrightarrow> r = s \<union> {n. \<exists>p\<in>set parts. normalizeOrigin p = Inr n}"
  by (induction parts arbitrary: s) (auto simp: Let_def normalize_trim normalize_blank split: if_splits sum.splits)

lemma collect_plain:
  "\<forall>p\<in>set parts. plain_origin p \<Longrightarrow> collect_origins (parts @ rest) s = collect_origins rest (s \<union> set parts)"
  by (induction parts arbitrary: s) (simp_all add: plain_origin_id)

lemma split_plain:
  assumes "list_all plain_origin os" "CHR '','' \<notin> set bad"
  shows "os \<noteq> [] \<Longrightarrow> split_on CHR '','' (join_with '','' os) = os"
    "split_on CHR '','' (join_with '','' (os @ [bad])) = os @ [bad]"
proof -
  have "CHR '','' \<notin> set w" if "w \<in> set os" for w
    using plain_origin_chars(4) [of w "CHR '',''"] assms(1) that by (auto simp: list_all_iff)
  then show "os \<noteq> [] \<Longrightarrow> split_on CHR '','' (join_with '','' os) = os"
    "split_on CHR '','' (join_with '','' (os @ [bad])) = os @ [bad]"
    using assms(2) by (auto intro!: split_join)
qed

lemma AllowOrigin_iff: "AllowOrigin allowed x \<longleftrightarrow> (\<exists>n\<in>allowed. normalizeOrigin x = Inr n)"
  by (auto simp: AllowOrigin_def normalize_blank split: sum.split)

text \<open>C37: the origin check is exact. Configured with a list of origins in the form browsers send them, it
  accepts such an origin if and only if it is one of the list: no prefix, suffix, other scheme or other port of
  a listed origin passes, and a request without an origin does not; whatever text is accepted has the scheme
  and host of a listed origin. An entry that is not an origin makes the configuration fail.\<close>

theorem origin_exact:
  assumes "list_all plain_origin os" "os \<noteq> []"
  shows "\<exists>allowed. NewConfig (join_with '','' os) = Inr allowed \<and> set (AllowedOrigins allowed) = set os
     \<and> \<not> AllowOrigin allowed [] \<and> (\<forall>org. plain_origin org \<longrightarrow> AllowOrigin allowed org = (org \<in> set os))
     \<and> (\<forall>x. AllowOrigin allowed x \<longrightarrow> (\<exists>n\<in>set os. normalizeOrigin x = Inr n))
     \<and> (\<forall>bad e. CHR '','' \<notin> set bad \<and> trim_space bad \<noteq> [] \<and> normalizeOrigin bad = Inl e \<longrightarrow>
          (\<exists>e'. NewConfig (join_with '','' (os @ [bad])) = Inl e'))"
proof -
  have p: "\<forall>p\<in>set os. plain_origin p" using assms(1) by (simp add: list_all_iff)
  have "NewConfig (join_with '','' os) = Inr (set os)"
    using split_plain(1) [OF assms(1), of "[]"] assms(2) collect_plain [OF p, of "[]" "{}"] by (simp add: NewConfig_def)
  moreover have "plain_origin org \<Longrightarrow> AllowOrigin (set os) org = (org \<in> set os)" for org
    by (auto simp: AllowOrigin_iff plain_origin_id)
  moreover have "\<exists>e'. NewConfig (join_with '','' (os @ [bad])) = Inl e'"
    if "CHR '','' \<notin> set bad" "trim_space bad \<noteq> []" "normalizeOrigin bad = Inl e" for bad e
    using that split_plain(2) [OF assms(1) that(1)] collect_plain [OF p, of "[bad]" "{}"]
    by (simp add: NewConfig_def normalize_trim)
  moreover have "\<not> AllowOrigin (set os) []" by (simp add: AllowOrigin_def)
  ultimately show ?thesis
    by (intro exI [of _ "set os"]) (auto simp: AllowedOrigins_def AllowOrigin_iff)
qed

theorem origin_exact_witness:
  "case NewConfig ''https://vpn.example,http://192.0.2.1:8080'' of
     Inl e \<Rightarrow> False
   | Inr c \<Rightarrow> AllowOrigin c ''http://192.0.2.1:8080'' \<and> \<not> AllowOrigin c ''https://vpn.example.evil'' \<and> \<not> AllowOrigin c ''http://vpn.example''"
proof -
  let ?os = "[''https://vpn.example'', ''http://192.0.2.1:8080'']"
  have p: "list_all plain_origin ?os" "join_with '','' ?os = ''https://vpn.example,http://192.0.2.1:8080''"
    "plain_origin ''https://vpn.example.evil''" "plain_origin ''http://vpn.example''" "plain_origin ''http://192.0.2.1:8080''"
    by code_simp+
  obtain c where "NewConfig (join_with '','' ?os) = Inr c" "\<forall>org. plain_origin org \<longrightarrow> AllowOrigin c org = (org \<in> set ?os)"
    using origin_exact [OF p(1)] by blast
  then show ?thesis using p by simp
qed

text \<open>The metrics are guarded: with a key configured exactly the requests that carry it pass, wherever they
  come from; without one exactly those from an IPv4 loopback address pass; the others get 401 and 403.\<close>

theorem metrics_guarded:
  assumes "length q = 4" "octets q" "0 \<le> port"
  shows "if trim_space key = []
    then MetricsAccess key header (dotted q @ '':'' @ itoa port) = (if q ! 0 = 127 then None else Some (HTTPErr 403 (MsgString ''forbidden'') None))
    else MetricsAccess key header remote = (if header = trim_space key then None else Some (HTTPErr 401 (MsgString ''unauthorized'') None))"
proof -
  let ?addr = "dotted q @ '':'' @ itoa port"
  have no: "x \<notin> set (itoa port)" "x \<notin> set (dotted q)" if "x \<in> set '':[]''" for x
  proof -
    have "digit_val x = None" "x \<noteq> CHR ''.''" using that digit_marks(1-3) by auto
    then show "x \<notin> set (itoa port)" "x \<notin> set (dotted q)"
      using port_no [OF assms(3)] set_dotted by blast+
  qed
  have "cut_last CHR '':'' ?addr = (dotted q, itoa port, True)"
    using cut_last_last [of "CHR '':''" "itoa port" "dotted q"] no(1) by simp
  moreover have "hd ?addr \<noteq> CHR ''[''" "CHR ''['' \<notin> set ?addr" "CHR '']'' \<notin> set ?addr" "CHR '':'' \<notin> set (dotted q)"
  proof -
    have "CHR ''['' \<notin> set ?addr" "CHR '']'' \<notin> set ?addr" using no [of "CHR ''[''"] no [of "CHR '']''"] by auto
    then show "CHR ''['' \<notin> set ?addr" "CHR '']'' \<notin> set ?addr" "CHR '':'' \<notin> set (dotted q)" using no [of "CHR '':''"] by auto
    have "?addr \<noteq> []" by simp
    then have "hd ?addr \<in> set ?addr" by (rule hd_in_set)
    then show "hd ?addr \<noteq> CHR ''[''" using \<open>CHR ''['' \<notin> set ?addr\<close> by metis
  qed
  ultimately have s: "split_host_port ?addr = Some (dotted q, itoa port)" by (simp add: split_host_port_def)
  have "plain c" if "c \<in> set ?addr" for c
  proof -
    have "c = CHR ''.'' \<or> c = CHR '':'' \<or> digit_val c \<noteq> None" using that set_dotted port_chars [OF assms(3)] by auto
    moreover have "plain CHR ''.''" "plain CHR '':''" by code_simp+
    ultimately show ?thesis using digit_alnum alnum_plain by blast
  qed
  then have t: "trim_space ?addr = ?addr" by (rule trim_plain)
  have "ParseIP (dotted q) = Some (v4_prefix @ q)"
    using parse_addr_dotted [OF assms(1,2)] assms(1) by (simp add: ParseIP_def to16_def)
  moreover have "ip_loopback (v4_prefix @ q) = (q ! 0 = 127)"
    using assms(1) by (simp add: ip_loopback_def to4_def v4_prefix_def)
  ultimately have "isMetricsLoopback ?addr = (q ! 0 = 127)"
    using s t by (simp add: isMetricsLoopback_def)
  then show ?thesis by (simp add: MetricsAccess_def)
qed

theorem metrics_guarded_witness:
  "MetricsAccess [] ''x'' ''127.0.0.1:80'' = None \<and> MetricsAccess [] ''x'' ''10.0.0.7:80'' \<noteq> None"
proof -
  have t: "dotted [127, 0, 0, 1] @ '':'' @ itoa 80 = ''127.0.0.1:80''" "dotted [10, 0, 0, 7] @ '':'' @ itoa 80 = ''10.0.0.7:80''"
    "octets [127, 0, 0, 1]" "octets [10, 0, 0, 7]"
    by (code_simp, code_simp, simp_all add: octets_def)
  have "MetricsAccess [] ''x'' (dotted [127, 0, 0, 1] @ '':'' @ itoa 80) = None"
    using metrics_guarded [OF _ t(3), of 80 "[]"] by simp
  moreover have "MetricsAccess [] ''x'' (dotted [10, 0, 0, 7] @ '':'' @ itoa 80) \<noteq> None"
    using metrics_guarded [OF _ t(4), of 80 "[]"] by simp
  ultimately show ?thesis by (simp only: t simp_thms)
qed

end
