(* ===== verification/TlsManager.thy ===== *)
theory TlsManager
  imports Access
begin

text \<open>
  \<open>internal/tls/manager.go\<close>: the server's certificate, loaded from files or generated, and its renewal.

  \<^item> A file holds a certificate, a private key, or something else; a directory is not a file. A pair of files
    loads when they are a certificate and the key it belongs to (\<open>tls.LoadX509KeyPair\<close>). A certificate is the
    template it was made from, with the number of its key.
  \<^item> Every operation on the operating system or the random source has an outcome: it works, it fails, or it is
    cut off halfway, which leaves something else in a file that was being written. \<open>tw_io n\<close> is that of the
    \<open>n\<close>-th one, \<open>tw_ops\<close> their counter. \<open>os.Stat\<close> tells what is there.
  \<^item> Time is in seconds. The directory of the data is taken without a trailing slash (\<open>filepath.Join\<close>).
\<close>

section \<open>State\<close>

record cert =
  ct_key :: nat
  ct_serial :: nat
  ct_org :: string
  ct_name :: string
  ct_from :: int
  ct_until :: int
  ct_dns :: "string list"
  ct_ips :: "ip list"

datatype disk_file = PemCert cert | PemKey nat | OtherText | Directory

datatype outcome = Works | Fails | Cut

record tls_config =
  tc_cert :: string
  tc_key :: string
  tc_auto :: bool
  tc_dir :: string
  tc_org :: string
  tc_name :: string
  tc_valid :: int
  tc_renew :: int

text \<open>\<open>tm_cert\<close> is the certificate that the manager serves, none before it is loaded.\<close>

record tls_world =
  tw_now :: int
  tw_files :: "string \<rightharpoonup> disk_file"
  tw_io :: "nat \<Rightarrow> outcome"
  tw_ops :: nat
  tw_rand :: nat
  tw_hostname :: "string option"
  tw_addrs :: "ip option list option"
  tm_cert :: "cert option"

type_synonym 'r tls_call = "(tls_world, 'r) call"

definition os_error :: go_error where "os_error = Opaque ''os''"

definition os_op :: "(tls_world \<Rightarrow> tls_world) \<Rightarrow> (tls_world \<Rightarrow> tls_world) \<Rightarrow> unit tls_call" where
  "os_op good torn w = (let v = w\<lparr>tw_ops := Suc (tw_ops w)\<rparr> in
     case tw_io w (tw_ops w) of Works \<Rightarrow> (Inr (), good v) | Fails \<Rightarrow> (Inl os_error, v) | Cut \<Rightarrow> (Inl os_error, torn v))"

definition try_os :: "unit tls_call" where
  "try_os = os_op (\<lambda>w. w) (\<lambda>w. w)"

definition set_file :: "string \<Rightarrow> disk_file option \<Rightarrow> tls_world \<Rightarrow> tls_world" where
  "set_file p f w = w\<lparr>tw_files := (tw_files w)(p := f)\<rparr>"

definition write_file :: "string \<Rightarrow> disk_file \<Rightarrow> unit tls_call" where
  "write_file p f = os_op (set_file p (Some f)) (set_file p (Some OtherText))"

definition remove_file :: "string \<Rightarrow> unit tls_call" where
  "remove_file p = os_op (set_file p None) (\<lambda>w. w)"

definition fileExists :: "string \<Rightarrow> bool tls_call" where
  "fileExists p = gets (\<lambda>w. tw_files w p \<noteq> None \<and> tw_files w p \<noteq> Some Directory)"

text \<open>A fresh number: a key, or a serial number.\<close>

definition draw_number :: "nat tls_call" where
  "draw_number = bnd (os_op (\<lambda>w. w\<lparr>tw_rand := Suc (tw_rand w)\<rparr>) (\<lambda>w. w)) (\<lambda>_. gets tw_rand)"

definition load_pair :: "string \<Rightarrow> string \<Rightarrow> cert tls_call" where
  "load_pair c k = bnd try_os (\<lambda>_. bnd (gets tw_files) (\<lambda>f. case (f c, f k) of
     (Some (PemCert ct), Some (PemKey key)) \<Rightarrow> if ct_key ct = key then ret ct else fail (Opaque ''tls: private key does not match'')
   | _ \<Rightarrow> fail (Opaque ''tls: failed to find'')))"

section \<open>The certificate\<close>

definition ip_link_local :: "ip \<Rightarrow> bool" where
  "ip_link_local a = (case to4 a of Some q \<Rightarrow> v4_link_local q | None \<Rightarrow> a ! 0 = 254 \<and> 128 \<le> a ! 1 \<and> a ! 1 < 192)"

definition san_ips :: "ip option list \<Rightarrow> ip list" where
  "san_ips addrs = List.map_filter (\<lambda>x. case x of None \<Rightarrow> None
     | Some a \<Rightarrow> if ip_loopback a \<or> ip_link_local a then None
         else (case to4 a of Some q \<Rightarrow> Some q | None \<Rightarrow> if length a = 16 then Some a else None)) addrs"

definition localSANs :: "string option \<Rightarrow> ip option list option \<Rightarrow> string list \<times> ip list" where
  "localSANs hostname addrs =
     ([''localhost''] @ (case hostname of None \<Rightarrow> [] | Some h \<Rightarrow> if h \<noteq> [] \<and> h \<noteq> ''localhost'' then [h] else []),
      [[127, 0, 0, 1], replicate 15 0 @ [1]] @ (case addrs of None \<Rightarrow> [] | Some l \<Rightarrow> san_ips l))"

definition template :: "tls_config \<Rightarrow> nat \<Rightarrow> nat \<Rightarrow> tls_world \<Rightarrow> cert" where
  "template cfg key serial w = (let from = tw_now w - 3600; (dns, ips) = localSANs (tw_hostname w) (tw_addrs w) in
     \<lparr>ct_key = key, ct_serial = serial, ct_org = tc_org cfg, ct_name = tc_name cfg,
      ct_from = from, ct_until = from + tc_valid cfg * 86400, ct_dns = dns, ct_ips = ips\<rparr>)"

text \<open>Two directories, the key, the serial number, the certificate, and the two files.\<close>

definition generateAndSave :: "tls_config \<Rightarrow> unit tls_call" where
  "generateAndSave cfg = bnd try_os (\<lambda>_. bnd try_os (\<lambda>_.
     bnd draw_number (\<lambda>key. bnd draw_number (\<lambda>serial.
     bnd (gets (template cfg key serial)) (\<lambda>ct.
     bnd try_os (\<lambda>_.
     bnd (write_file (tc_cert cfg) (PemCert ct)) (\<lambda>_.
     write_file (tc_key cfg) (PemKey key))))))))"

definition serve :: "string \<Rightarrow> tls_config \<Rightarrow> unit tls_call" where
  "serve what cfg = attempt (load_pair (tc_cert cfg) (tc_key cfg)) (\<lambda>r. case r of
     Inl e \<Rightarrow> fail (Wrap what e) | Inr ct \<Rightarrow> upd (\<lambda>w. w\<lparr>tm_cert := Some ct\<rparr>))"

definition loadOrGenerate :: "tls_config \<Rightarrow> unit tls_call" where
  "loadOrGenerate cfg = bnd (fileExists (tc_cert cfg)) (\<lambda>c. bnd (fileExists (tc_key cfg)) (\<lambda>k.
     if c \<and> k then serve ''load tls pair'' cfg
     else if \<not> tc_auto cfg then fail (Opaque ''tls: no certificate files and auto-cert disabled'')
     else bnd (generateAndSave cfg) (\<lambda>_. serve ''load generated tls'' cfg)))"

section \<open>The manager\<close>

definition defaultValidDays :: int where "defaultValidDays = 365"
definition defaultRenewWithin :: int where "defaultRenewWithin = 30"

definition with_defaults :: "tls_config \<Rightarrow> tls_config" where
  "with_defaults cfg = cfg\<lparr>
     tc_valid := (if tc_valid cfg \<le> 0 then defaultValidDays else tc_valid cfg),
     tc_renew := (if tc_renew cfg \<le> 0 then defaultRenewWithin else tc_renew cfg),
     tc_org := (if trim_space (tc_org cfg) = [] then ''xray2wg'' else tc_org cfg),
     tc_name := (if trim_space (tc_name cfg) = [] then ''xray2wg'' else tc_name cfg),
     tc_cert := (if tc_auto cfg \<and> tc_dir cfg \<noteq> [] \<and> (tc_cert cfg = [] \<or> tc_key cfg = []) then tc_dir cfg @ ''/tls/server.crt'' else tc_cert cfg),
     tc_key := (if tc_auto cfg \<and> tc_dir cfg \<noteq> [] \<and> (tc_cert cfg = [] \<or> tc_key cfg = []) then tc_dir cfg @ ''/tls/server.key'' else tc_key cfg)\<rparr>"

text \<open>The result is the configuration of the manager, whose renewal loop then runs.\<close>

definition NewManager :: "tls_config \<Rightarrow> tls_config tls_call" where
  "NewManager cfg = (let m = with_defaults cfg in bnd (loadOrGenerate m) (\<lambda>_. ret m))"

definition leafNotAfter :: "tls_world \<Rightarrow> int option" where
  "leafNotAfter w = map_option ct_until (tm_cert w)"

definition shouldRenew :: "tls_config \<Rightarrow> tls_world \<Rightarrow> bool" where
  "shouldRenew cfg w = (case leafNotAfter w of None \<Rightarrow> False | Some t \<Rightarrow> t - tw_now w < tc_renew cfg * 86400)"

text \<open>One tick of the daily ticker.\<close>

definition renewal_tick :: "tls_config \<Rightarrow> unit tls_call" where
  "renewal_tick cfg = bnd (gets (shouldRenew cfg)) (\<lambda>due.
     if due \<and> tc_auto cfg then
       bnd (ignore (remove_file (tc_cert cfg))) (\<lambda>_.
       bnd (ignore (remove_file (tc_key cfg))) (\<lambda>_.
       attempt (generateAndSave cfg) (\<lambda>r. case r of
         Inl e \<Rightarrow> ret ()
       | Inr _ \<Rightarrow> attempt (load_pair (tc_cert cfg) (tc_key cfg)) (\<lambda>r. case r of
           Inl e \<Rightarrow> ret () | Inr ct \<Rightarrow> upd (\<lambda>w. w\<lparr>tm_cert := Some ct\<rparr>)))))
     else ret ())"

definition GetCertificate :: "tls_world \<Rightarrow> cert option" where
  "GetCertificate w = tm_cert w"

text \<open>The protocol versions, curves and suites of the server, by their numbers in the standard.\<close>

record server_config =
  sc_min :: nat
  sc_curves :: "nat list"
  sc_suites :: "nat list"
  sc_prefer :: bool

definition TLSConfig :: server_config where
  "TLSConfig = \<lparr>sc_min = 0x0303, sc_curves = [29, 23], sc_suites = [0xC030, 0xCCA8, 0xC02F], sc_prefer = True\<rparr>"

section \<open>What the manager serves\<close>

text \<open>The life of a manager: ticks of its loop, and between them anything that leaves its own certificate alone:
  time passes, files change, operations fail.\<close>

inductive tls_runs :: "tls_config \<Rightarrow> tls_world \<Rightarrow> tls_world \<Rightarrow> bool" for cfg w where
  started: "tls_runs cfg w w"
| ticked: "tls_runs cfg w v \<Longrightarrow> tls_runs cfg w (snd (renewal_tick cfg v))"
| outside: "tls_runs cfg w v \<Longrightarrow> tm_cert u = tm_cert v \<Longrightarrow> tls_runs cfg w u"

text \<open>Every step of the generation leaves the served certificate and the clock alone.\<close>

definition keeps_cert :: "'r tls_call \<Rightarrow> bool" where
  "keeps_cert m \<longleftrightarrow> (\<forall>w. tm_cert (snd (m w)) = tm_cert w \<and> tw_now (snd (m w)) = tw_now w)"

named_theorems keeps_intro "calls that leave the served certificate alone"

lemma keeps_cert_os: "(\<And>w. tm_cert (f w) = tm_cert w \<and> tw_now (f w) = tw_now w) \<Longrightarrow> (\<And>w. tm_cert (g w) = tm_cert w \<and> tw_now (g w) = tw_now w) \<Longrightarrow>
    keeps_cert (os_op f g)"
  by (auto simp: keeps_cert_def os_op_def Let_def split: outcome.split)

lemma keeps_cert_basic [keeps_intro]:
  "keeps_cert (ret x)" "keeps_cert (fail e)" "keeps_cert (gets f)" "keeps_cert try_os"
  "keeps_cert (write_file p f')" "keeps_cert (remove_file p)"
  unfolding try_os_def write_file_def remove_file_def
  by (rule keeps_cert_os | simp add: keeps_cert_def ret_def fail_def gets_def set_file_def)+

lemma keeps_cert_bnd [keeps_intro]: "keeps_cert m \<Longrightarrow> (\<And>x. keeps_cert (f x)) \<Longrightarrow> keeps_cert (bnd m f)"
  by (auto simp: keeps_cert_def bnd_def split: prod.split sum.split) (metis snd_conv)+

lemma keeps_cert_ignore [keeps_intro]: "keeps_cert m \<Longrightarrow> keeps_cert (ignore m)"
  by (simp add: keeps_cert_def ignore_ok)

lemma keeps_cert_generate [keeps_intro]: "keeps_cert draw_number" "keeps_cert (generateAndSave cfg)" "keeps_cert (load_pair c k)"
proof -
  show d: "keeps_cert draw_number" unfolding draw_number_def
    by (intro keeps_intro keeps_cert_os) simp_all
  show "keeps_cert (generateAndSave cfg)" unfolding generateAndSave_def
    by (intro keeps_intro d)
  show "keeps_cert (load_pair c k)"
    by (auto simp: load_pair_def keeps_cert_def bnd_def gets_def ret_def fail_def try_os_def os_op_def Let_def
      split: prod.split sum.split option.split disk_file.split outcome.split)
qed

lemma keepsD: "keeps_cert m \<Longrightarrow> m w = (r, v) \<Longrightarrow> tm_cert v = tm_cert w \<and> tw_now v = tw_now w"
  by (metis keeps_cert_def snd_conv)

lemma os_op_ok: "os_op f g w = (Inr (), v) \<longleftrightarrow> tw_io w (tw_ops w) = Works \<and> v = f (w\<lparr>tw_ops := Suc (tw_ops w)\<rparr>)"
  by (auto simp: os_op_def Let_def split: outcome.split)

lemma load_pair_ok: "load_pair c k w = (Inr ct, v) \<Longrightarrow> tw_files v = tw_files w
    \<and> tw_files w c = Some (PemCert ct) \<and> tw_files w k = Some (PemKey (ct_key ct))"
  by (auto simp: load_pair_def bnd_ok_iff try_os_def os_op_ok gets_def ret_def fail_def
      split: option.splits disk_file.splits if_splits)

lemma draw_number_ok:
  "draw_number w = (Inr n, v) \<Longrightarrow> tw_now v = tw_now w \<and> tw_hostname v = tw_hostname w \<and> tw_addrs v = tw_addrs w \<and> tw_files v = tw_files w"
  by (auto simp: draw_number_def bnd_ok_iff os_op_ok gets_def)

lemma generate_ok:
  assumes "generateAndSave cfg w = (Inr (), v)"
  shows "\<exists>key serial u. tw_now u = tw_now w \<and> tw_files v =
    (tw_files w)(tc_cert cfg \<mapsto> PemCert (template cfg key serial u), tc_key cfg \<mapsto> PemKey key)"
  using assms
  by (fastforce simp: generateAndSave_def bnd_ok_iff try_os_def os_op_ok gets_def write_file_def set_file_def
      dest!: draw_number_ok)

lemma template_sel [simp]:
  "ct_until (template cfg key serial u) = tw_now u - 3600 + tc_valid cfg * 86400" "ct_key (template cfg key serial u) = key"
  by (simp_all add: template_def Let_def split: prod.split)

text \<open>The two ends of a tick: nothing new is served, or a new pair that lies in the files.\<close>

lemma tick_cases:
  assumes "renewal_tick cfg v = (r, u)"
  shows "r = Inr () \<and> (tm_cert u = tm_cert v \<or>
    (tc_auto cfg \<and> shouldRenew cfg v \<and> (\<exists>ct. tm_cert u = Some ct \<and> ct_until ct = tw_now v - 3600 + tc_valid cfg * 86400
       \<and> tw_files u (tc_cert cfg) = Some (PemCert ct) \<and> tw_files u (tc_key cfg) = Some (PemKey (ct_key ct)))))"
proof (cases "shouldRenew cfg v \<and> tc_auto cfg")
  case False
  then show ?thesis using assms by (auto simp: renewal_tick_def bnd_def gets_def ret_def)
next
  case True
  let ?w = "snd (remove_file (tc_key cfg) (snd (remove_file (tc_cert cfg) v)))"
  obtain g x where g: "generateAndSave cfg ?w = (g, x)" by fastforce
  obtain l y where l: "load_pair (tc_cert cfg) (tc_key cfg) x = (l, y)" by fastforce
  have k: "tm_cert ?w = tm_cert v" "tw_now ?w = tw_now v" "tm_cert x = tm_cert v" "tm_cert y = tm_cert v"
    using keeps_cert_basic(6) keepsD [OF keeps_cert_generate(2) g] keepsD [OF keeps_cert_generate(3) l] by (auto simp: keeps_cert_def)
  have u: "r = Inr () \<and> u = (case g of Inl e \<Rightarrow> x | Inr _ \<Rightarrow> (case l of Inl e \<Rightarrow> y | Inr ct \<Rightarrow> y\<lparr>tm_cert := Some ct\<rparr>))"
    using assms True
    by (auto simp: renewal_tick_def bnd_def gets_def ignore_ok attempt_def g l ret_def upd_def split: sum.splits)
  show ?thesis
  proof (cases "\<exists>ct. g = Inr () \<and> l = Inr ct")
    case False
    then have "tm_cert u = tm_cert v" using u k by (cases g; cases l) auto
    with u show ?thesis by simp
  next
    case True
    then obtain ct where ok: "g = Inr ()" "l = Inr ct" by blast
    note f = load_pair_ok [OF l [unfolded ok]]
    obtain key serial z where z: "tw_now z = tw_now ?w" "tw_files x =
        (tw_files ?w)(tc_cert cfg \<mapsto> PemCert (template cfg key serial z), tc_key cfg \<mapsto> PemKey key)"
      using generate_ok [OF g [unfolded ok]] by blast
    then have "ct = template cfg key serial z" using f by (cases "tc_cert cfg = tc_key cfg") auto
    then have "ct_until ct = tw_now v - 3600 + tc_valid cfg * 86400" using z(1) k(2) by simp
    with u ok f True \<open>shouldRenew cfg v \<and> tc_auto cfg\<close> show ?thesis by auto
  qed
qed

lemma serve_ok: "serve what cfg w = (Inr (), v) \<Longrightarrow> tm_cert v \<noteq> None"
  by (auto simp: serve_def attempt_def fail_def upd_def split: prod.splits sum.splits)

lemma NewManager_ok: "NewManager cfg0 w0 = (Inr cfg, w) \<Longrightarrow> cfg = with_defaults cfg0 \<and> tm_cert w \<noteq> None"
  by (auto simp: NewManager_def loadOrGenerate_def Let_def bnd_ok_iff ret_def fail_def gets_def fileExists_def
      split: if_splits dest!: serve_ok)

lemma runs_serve: "tls_runs cfg w v \<Longrightarrow> tm_cert w \<noteq> None \<Longrightarrow> tm_cert v \<noteq> None"
proof (induction rule: tls_runs.induct)
  case (ticked v)
  then show ?case using tick_cases [of cfg v "fst (renewal_tick cfg v)" "snd (renewal_tick cfg v)"] by auto
qed simp_all

text \<open>C40: once the manager has started it always serves a certificate, whatever fails later. A tick never ends with
  an error; it changes what is served only when the certificate in use is due and the manager may generate one,
  and then to a certificate of the configured duration that lies in the files with its key, and no renewal is
  due again before the difference of the two periods less an hour has passed.\<close>

theorem tls_serves:
  assumes "NewManager cfg0 w0 = (Inr cfg, w)" "tls_runs cfg w v" "renewal_tick cfg v = (r, u)"
  shows "\<exists>ct. GetCertificate v = Some ct \<and> r = Inr () \<and> 0 < tc_valid cfg \<and> 0 < tc_renew cfg \<and>
    (GetCertificate u = Some ct \<or> tc_auto cfg \<and> shouldRenew cfg v \<and>
       (\<exists>new. GetCertificate u = Some new \<and> ct_until new = tw_now v - 3600 + tc_valid cfg * 86400
          \<and> tw_files u (tc_cert cfg) = Some (PemCert new) \<and> tw_files u (tc_key cfg) = Some (PemKey (ct_key new))
          \<and> (\<forall>x. tm_cert x = Some new \<and> tw_now x \<le> tw_now v + (tc_valid cfg - tc_renew cfg) * 86400 - 3600 \<longrightarrow> \<not> shouldRenew cfg x)))"
proof -
  have m: "cfg = with_defaults cfg0" "tm_cert w \<noteq> None" using NewManager_ok [OF assms(1)] by auto
  obtain ct where ct: "tm_cert v = Some ct" using runs_serve [OF assms(2) m(2)] by auto
  have pos: "0 < tc_valid cfg" "0 < tc_renew cfg"
    by (simp_all add: m(1) with_defaults_def defaultValidDays_def defaultRenewWithin_def)
  have "\<not> shouldRenew cfg x" if "tm_cert x = Some new" "ct_until new = tw_now v - 3600 + tc_valid cfg * 86400"
    "tw_now x \<le> tw_now v + (tc_valid cfg - tc_renew cfg) * 86400 - 3600" for x new
    using that by (simp add: shouldRenew_def leafNotAfter_def algebra_simps)
  with tick_cases [OF assms(3)] ct pos show ?thesis
    by (auto simp: GetCertificate_def)
qed

text \<open>A generation that was cut off while it wrote the key leaves a pair that does not load, and no later start
  repairs it, though the manager may generate certificates: both files exist.\<close>

lemma torn_pair_stays:
  assumes "tw_files w (tc_cert (with_defaults cfg)) = Some (PemCert ct)" "tw_files w (tc_key (with_defaults cfg)) = Some OtherText"
  shows "\<exists>e v. NewManager cfg w = (Inl e, v) \<and> tw_files v = tw_files w"
proof -
  obtain l y where l: "load_pair (tc_cert (with_defaults cfg)) (tc_key (with_defaults cfg)) w = (l, y)" by fastforce
  have "isl l" using load_pair_ok l assms(2) by (cases l) fastforce+
  moreover have "tw_files y = tw_files w"
    using l assms by (auto simp: load_pair_def bnd_def try_os_def os_op_def Let_def gets_def fail_def ret_def split: outcome.splits)
  ultimately show ?thesis
    using l assms by (cases l) (simp_all add: NewManager_def loadOrGenerate_def Let_def bnd_def fileExists_def gets_def serve_def attempt_def fail_def)
qed

definition sample_tls :: tls_world where
  "sample_tls = \<lparr>tw_now = 0, tw_files = Map.empty, tw_io = (\<lambda>_. Works), tw_ops = 0, tw_rand = 0,
     tw_hostname = Some ''box'', tw_addrs = None, tm_cert = None\<rparr>"

definition sample_config :: tls_config where
  "sample_config = \<lparr>tc_cert = [], tc_key = [], tc_auto = True, tc_dir = ''/data'', tc_org = [], tc_name = [], tc_valid = 0, tc_renew = 0\<rparr>"

theorem tls_serves_witness:
  "\<exists>cfg w. NewManager sample_config sample_tls = (Inr cfg, w) \<and> GetCertificate w \<noteq> None
     \<and> tw_files (snd (renewal_tick cfg (w\<lparr>tw_now := 31000000\<rparr>))) ''/data/tls/server.key'' = Some (PemKey 3)
     \<and> fst (renewal_tick cfg (w\<lparr>tw_now := 31000000\<rparr>)) = Inr ()"
proof -
  have s: "case NewManager sample_config sample_tls of (Inl e, w) \<Rightarrow> False
    | (Inr cfg, w) \<Rightarrow> tw_files (snd (renewal_tick cfg (w\<lparr>tw_now := 31000000\<rparr>))) ''/data/tls/server.key'' = Some (PemKey 3)"
    by code_simp
  then obtain cfg w where m: "NewManager sample_config sample_tls = (Inr cfg, w)"
    "tw_files (snd (renewal_tick cfg (w\<lparr>tw_now := 31000000\<rparr>))) ''/data/tls/server.key'' = Some (PemKey 3)"
    by (auto split: prod.splits sum.splits)
  have run: "tls_runs cfg w (w\<lparr>tw_now := 31000000\<rparr>)" by (rule outside [OF started]) simp
  obtain r u where t: "renewal_tick cfg (w\<lparr>tw_now := 31000000\<rparr>) = (r, u)" by fastforce
  from tls_serves [OF m(1) run t] tls_serves [OF m(1) started] show ?thesis
    using m t by (auto simp: GetCertificate_def)
qed

end
