(* ===== verification/Db.thy ===== *)
theory Db
  imports Domain
begin

text \<open>
  The SQLite database behind the repositories of \<open>internal/infrastructure/db\<close>: the tables of \<open>models.go\<close>
  with their keys, the execution of one statement and of a transaction, and the invariant the schema
  enforces.

  \<^item> A table is its rows in the order of their ids together with the last id handed out
    (\<open>sqlite_sequence\<close> of an AUTOINCREMENT key): a new row gets the next id, ids are never reused.
  \<^item> Every repository method issues statements one after the other. \<open>db_fault n\<close> is the error the
    \<open>n\<close>-th statement of the history fails with, if it does (the disk, a cancelled context, a locked
    file); \<open>db_clock\<close> counts the statements. A statement that fails leaves the tables as they were; a
    transaction that fails, at its commit too, leaves them as they were when it began.
  \<^item> \<open>db_now\<close> is the current time, which stamps created_at and updated_at.
  \<^item> A SELECT without ORDER BY returns rows in the order of the table's ids, which is what SQLite does
    for the scans the program makes.
\<close>

section \<open>Tables\<close>

record 'r table =
  t_rows :: "'r list"
  t_seq :: int

definition t_insert :: "(int \<Rightarrow> 'r) \<Rightarrow> 'r table \<Rightarrow> 'r table" where
  "t_insert mk t = \<lparr>t_rows = t_rows t @ [mk (t_seq t + 1)], t_seq = t_seq t + 1\<rparr>"

definition t_update :: "('r \<Rightarrow> bool) \<Rightarrow> ('r \<Rightarrow> 'r) \<Rightarrow> 'r table \<Rightarrow> 'r table" where
  "t_update P f t = t\<lparr>t_rows := map (\<lambda>r. if P r then f r else r) (t_rows t)\<rparr>"

definition t_delete :: "('r \<Rightarrow> bool) \<Rightarrow> 'r table \<Rightarrow> 'r table" where
  "t_delete P t = t\<lparr>t_rows := filter (\<lambda>r. \<not> P r) (t_rows t)\<rparr>"

definition t_find :: "('r \<Rightarrow> bool) \<Rightarrow> 'r table \<Rightarrow> 'r option" where
  "t_find P t = find P (t_rows t)"

definition t_select :: "('r \<Rightarrow> bool) \<Rightarrow> 'r table \<Rightarrow> 'r list" where
  "t_select P t = filter P (t_rows t)"

definition t_count :: "('r \<Rightarrow> bool) \<Rightarrow> 'r table \<Rightarrow> int" where
  "t_count P t = int (length (t_select P t))"

text \<open>Ids are increasing, positive, and at most the last one handed out.\<close>

definition table_ok :: "('r \<Rightarrow> int) \<Rightarrow> 'r table \<Rightarrow> bool" where
  "table_ok k t \<longleftrightarrow> sorted_wrt (<) (map k (t_rows t)) \<and> (\<forall>r\<in>set (t_rows t). 0 < k r \<and> k r \<le> t_seq t) \<and> 0 \<le> t_seq t"

lemma table_ok_insert:
  "table_ok k t \<Longrightarrow> k (mk (t_seq t + 1)) = t_seq t + 1 \<Longrightarrow> table_ok k (t_insert mk t)"
  by (fastforce simp: table_ok_def t_insert_def sorted_wrt_append)

lemma table_ok_delete: "table_ok k t \<Longrightarrow> table_ok k (t_delete P t)"
  by (auto simp: table_ok_def t_delete_def sorted_wrt_map sorted_wrt_filter)

lemma t_update_keys:
  assumes "\<And>r. k (f r) = k r"
  shows "map k (t_rows (t_update P f t)) = map k (t_rows t)"
    and "k ` set (t_rows (t_update P f t)) = k ` set (t_rows t)"
proof -
  show m: "map k (t_rows (t_update P f t)) = map k (t_rows t)"
    by (simp add: t_update_def assms)
  show "k ` set (t_rows (t_update P f t)) = k ` set (t_rows t)"
    using arg_cong [OF m, of set] by simp
qed

lemma table_ok_alt:
  "table_ok k t \<longleftrightarrow> sorted_wrt (<) (map k (t_rows t)) \<and> (\<forall>i\<in>k ` set (t_rows t). 0 < i \<and> i \<le> t_seq t) \<and> 0 \<le> t_seq t"
  by (simp add: table_ok_def)

lemma table_ok_update:
  "table_ok k t \<Longrightarrow> (\<And>r. k (f r) = k r) \<Longrightarrow> table_ok k (t_update P f t)"
  by (simp add: table_ok_alt t_update_keys [of k f]) (simp add: t_update_def)

lemma table_ok_distinct: "table_ok k t \<Longrightarrow> distinct (map k (t_rows t))"
  by (auto simp: table_ok_def strict_sorted_iff)

lemma table_ok_inj:
  "table_ok k t \<Longrightarrow> r \<in> set (t_rows t) \<Longrightarrow> q \<in> set (t_rows t) \<Longrightarrow> k r = k q \<Longrightarrow> r = q"
  by (drule table_ok_distinct) (simp add: distinct_map inj_on_def)

text \<open>Sorting by id changes nothing: the rows are in that order already.\<close>

lemma table_ok_sort: "table_ok k t \<Longrightarrow> sort_key k (t_select P t) = t_select P t"
proof -
  assume "table_ok k t"
  then have "sorted (map k (t_rows t))"
    by (auto simp: table_ok_def strict_sorted_imp_sorted)
  then have "sorted (map k (t_select P t))"
    by (simp add: t_select_def sorted_filter)
  then show ?thesis by (rule sort_key_id_if_sorted)
qed

lemma t_find_id:
  assumes "table_ok k t" "r \<in> set (t_rows t)"
  shows "t_find (\<lambda>q. k q = k r) t = Some r"
proof (cases "t_find (\<lambda>q. k q = k r) t")
  case None
  with assms show ?thesis by (auto simp: t_find_def find_None_iff)
next
  case (Some q)
  with assms show ?thesis
    by (auto simp: t_find_def dest!: find_Some_set intro: table_ok_inj)
qed

section \<open>Rows and the schema\<close>

record iface_row = wg_interface +
  wi_priv :: string

record peer_row = wg_peer +
  wp_priv :: string
  wp_psk :: string
  wp_seen_rx :: int
  wp_seen_tx :: int

record tunnel_node_row =
  tn_id :: int
  tn_iface :: int
  tn_node :: int
  tn_pos :: int
  tn_created :: int

record audit_row =
  au_id :: int
  au_level :: string
  au_source :: string
  au_message :: string
  au_created :: int

record database =
  db_now :: int
  db_clock :: nat
  db_fault :: "nat \<Rightarrow> go_error option"
  db_subs :: "subscription table"
  db_nodes :: "vless_node table"
  db_ifaces :: "iface_row table"
  db_peers :: "peer_row table"
  db_tnodes :: "tunnel_node_row table"
  db_stats :: "stat_snapshot table"
  db_audit :: "audit_row table"
  db_settings :: "string \<rightharpoonup> string"

definition empty_table :: "'r table" where
  "empty_table = \<lparr>t_rows = [], t_seq = 0\<rparr>"

definition empty_database :: database where
  "empty_database = \<lparr>db_now = 0, db_clock = 0, db_fault = (\<lambda>_. None), db_subs = empty_table,
     db_nodes = empty_table, db_ifaces = empty_table, db_peers = empty_table,
     db_tnodes = empty_table, db_stats = empty_table, db_audit = empty_table,
     db_settings = Map.empty\<rparr>"

definition fk_error :: go_error where "fk_error = Opaque ''FOREIGN KEY constraint failed''"
definition unique_error :: go_error where "unique_error = Opaque ''UNIQUE constraint failed''"

definition has_id :: "('r \<Rightarrow> int) \<Rightarrow> 'r table \<Rightarrow> int \<Rightarrow> bool" where
  "has_id k t i \<longleftrightarrow> i \<in> k ` set (t_rows t)"

text \<open>A nullable foreign key.\<close>

definition ref_ok :: "('r \<Rightarrow> int) \<Rightarrow> 'r table \<Rightarrow> int option \<Rightarrow> bool" where
  "ref_ok k t v = (case v of None \<Rightarrow> True | Some i \<Rightarrow> has_id k t i)"

lemma ref_ok_simps [simp]: "ref_ok k t None" "ref_ok k t (Some i) = has_id k t i"
  by (simp_all add: ref_ok_def)

lemma ref_ok_mono: "ref_ok k t v \<Longrightarrow> (\<And>i. has_id k t i \<Longrightarrow> has_id k u i) \<Longrightarrow> ref_ok k u v"
  by (simp add: ref_ok_def split: option.splits)

lemma has_id_insert: "has_id k t i \<Longrightarrow> has_id k (t_insert mk t) i"
  by (auto simp: has_id_def t_insert_def)

lemma has_id_update [simp]:
  assumes "\<And>r. k (f r) = k r" shows "has_id k (t_update P f t) i = has_id k t i"
  using t_update_keys [of k f, OF assms] by (simp add: has_id_def)

lemma has_id_delete: "has_id k (t_delete P t) i \<longleftrightarrow> (\<exists>r\<in>set (t_rows t). k r = i \<and> \<not> P r)"
  by (auto simp: has_id_def t_delete_def)

section \<open>Statements and transactions\<close>

definition tick :: "'a database_scheme \<Rightarrow> 'a database_scheme" where
  "tick d = d\<lparr>db_clock := Suc (db_clock d)\<rparr>"

definition stmt :: "('a database_scheme, 'r) call \<Rightarrow> ('a database_scheme, 'r) call" where
  "stmt body d = (case db_fault d (db_clock d) of Some e \<Rightarrow> (Inl e, tick d) | None \<Rightarrow> body (tick d))"

definition tx :: "('a database_scheme, 'r) call \<Rightarrow> ('a database_scheme, 'r) call" where
  "tx m d = (case m d of
     (Inl e, t) \<Rightarrow> (Inl e, d\<lparr>db_clock := db_clock t\<rparr>)
   | (Inr x, t) \<Rightarrow> (case db_fault d (db_clock t) of
        Some e \<Rightarrow> (Inl e, d\<lparr>db_clock := Suc (db_clock t)\<rparr>)
      | None \<Rightarrow> (Inr x, tick t)))"

section \<open>The invariant of the schema\<close>

definition ids_ok :: "'a database_scheme \<Rightarrow> bool" where
  "ids_ok d \<longleftrightarrow> table_ok sub_id (db_subs d) \<and> table_ok vn_id (db_nodes d) \<and> table_ok wi_id (db_ifaces d)
     \<and> table_ok wp_id (db_peers d) \<and> table_ok tn_id (db_tnodes d) \<and> table_ok ss_id (db_stats d)
     \<and> table_ok au_id (db_audit d)"

definition iface_refs_ok :: "'a database_scheme \<Rightarrow> bool" where
  "iface_refs_ok d \<longleftrightarrow> (\<forall>w\<in>set (t_rows (db_ifaces d)).
     ref_ok sub_id (db_subs d) (wi_sub w) \<and> ref_ok vn_id (db_nodes d) (wi_node w))"

definition peer_refs_ok :: "'a database_scheme \<Rightarrow> bool" where
  "peer_refs_ok d \<longleftrightarrow> (\<forall>p\<in>set (t_rows (db_peers d)). has_id wi_id (db_ifaces d) (wp_iface p))"

definition tnode_refs_ok :: "'a database_scheme \<Rightarrow> bool" where
  "tnode_refs_ok d \<longleftrightarrow> (\<forall>n\<in>set (t_rows (db_tnodes d)).
     has_id wi_id (db_ifaces d) (tn_iface n) \<and> has_id vn_id (db_nodes d) (tn_node n))"

definition unique_ok :: "'a database_scheme \<Rightarrow> bool" where
  "unique_ok d \<longleftrightarrow> distinct (map wi_name (t_rows (db_ifaces d))) \<and> distinct (map wi_port (t_rows (db_ifaces d)))"

definition schema_ok :: "'a database_scheme \<Rightarrow> bool" where
  "schema_ok d \<longleftrightarrow> ids_ok d \<and> iface_refs_ok d \<and> peer_refs_ok d \<and> tnode_refs_ok d \<and> unique_ok d"

lemmas schema_defs = schema_ok_def ids_ok_def iface_refs_ok_def peer_refs_ok_def tnode_refs_ok_def unique_ok_def

lemma schema_ok_empty: "schema_ok empty_database"
  by (simp add: schema_defs empty_database_def empty_table_def table_ok_def)

lemma schema_ok_clock [simp]: "schema_ok (d\<lparr>db_clock := n\<rparr>) = schema_ok d"
  by (simp add: schema_defs)

lemma schema_ok_now [simp]: "schema_ok (d\<lparr>db_now := n\<rparr>) = schema_ok d"
  by (simp add: schema_defs)

lemma schema_ok_tick [simp]: "schema_ok (tick d) = schema_ok d"
  by (simp add: tick_def)

text \<open>Statements and transactions keep any invariant that does not look at the statement counter.\<close>

definition clock_free :: "('a database_scheme \<Rightarrow> bool) \<Rightarrow> bool" where
  "clock_free I \<longleftrightarrow> (\<forall>d n. I (d\<lparr>db_clock := n\<rparr>) = I d)"

lemma clock_free_schema [preserves_intro]: "clock_free schema_ok"
  by (simp add: clock_free_def)

lemma preserves_stmt:
  assumes "clock_free I" and "\<And>d. I d \<Longrightarrow> I (snd (body d))"
  shows "preserves I (stmt body)"
  using assms
  by (auto simp: preserves_def stmt_def tick_def clock_free_def split: option.splits)

lemma preserves_stmt_upd:
  assumes "clock_free I" "preserves I body" shows "preserves I (stmt body)"
  using assms by (intro preserves_stmt) (auto simp: preserves_def)

lemma preserves_tx [preserves_intro]:
  assumes "clock_free I" and "preserves I m"
  shows "preserves I (tx m)"
proof (rule preservesI)
  fix d assume "I d"
  obtain r t where m: "m d = (r, t)" by fastforce
  from assms \<open>I d\<close> m have "I t" by (metis preservesD)
  with \<open>I d\<close> assms(1) show "I (snd (tx m d))"
    by (auto simp: tx_def m tick_def clock_free_def split: sum.splits option.splits)
qed

text \<open>A transaction that fails changes nothing but the statement counter.\<close>

lemma tx_error: "tx m d = (Inl e, t) \<Longrightarrow> \<exists>n. t = d\<lparr>db_clock := n\<rparr>"
  by (auto simp: tx_def split: prod.splits sum.splits option.splits)

lemma stmt_ok: "db_fault d (db_clock d) = None \<Longrightarrow> stmt body d = body (tick d)"
  by (simp add: stmt_def)

text \<open>A statement that writes: SQLite checks the unique indexes and the foreign keys (switched on by
  \<open>sqlite.go\<close>) at the end of the statement and undoes it when one is violated. \<open>f\<close> gives the statement's
  result (the new row, or the number of rows matched) and the written tables.\<close>

definition refs_ok :: "'a database_scheme \<Rightarrow> bool" where
  "refs_ok d \<longleftrightarrow> iface_refs_ok d \<and> peer_refs_ok d \<and> tnode_refs_ok d"

definition dml :: "('a database_scheme \<Rightarrow> 'r \<times> 'a database_scheme) \<Rightarrow> ('a database_scheme, 'r) call" where
  "dml f d = (let (r, d') = f d in
     if \<not> unique_ok d' then (Inl unique_error, d)
     else if \<not> refs_ok d' then (Inl fk_error, d)
     else (Inr r, d'))"

definition exec :: "('a database_scheme \<Rightarrow> 'r \<times> 'a database_scheme) \<Rightarrow> ('a database_scheme, 'r) call" where
  "exec f = stmt (dml f)"

definition query :: "('a database_scheme \<Rightarrow> 'r) \<Rightarrow> ('a database_scheme, 'r) call" where
  "query f = stmt (\<lambda>d. (Inr (f d), d))"

lemma dml_ok:
  "unique_ok (snd (f d)) \<Longrightarrow> refs_ok (snd (f d)) \<Longrightarrow> dml f d = (Inr (fst (f d)), snd (f d))"
  by (simp add: dml_def case_prod_beta)

lemma preserves_query [preserves_intro]: "clock_free I \<Longrightarrow> preserves I (query f)"
  unfolding query_def by (rule preserves_stmt) simp_all

lemma preserves_exec:
  assumes "clock_free I" and "\<And>d. I d \<Longrightarrow> unique_ok (snd (f d)) \<Longrightarrow> refs_ok (snd (f d)) \<Longrightarrow> I (snd (f d))"
  shows "preserves I (exec f)"
  unfolding exec_def using assms
  by (intro preserves_stmt) (auto simp: dml_def case_prod_beta Let_def)

lemma preserves_exec_schema:
  assumes "\<And>d. ids_ok d \<Longrightarrow> ids_ok (snd (f d))"
  shows "preserves schema_ok (exec f)"
  by (rule preserves_exec) (auto simp: clock_free_schema schema_ok_def refs_ok_def assms)

text \<open>The tables of a run: what a statement leaves alone stays.\<close>

lemmas table_ok_intros = table_ok_insert table_ok_update table_ok_delete

lemma ids_ok_upd:
  "ids_ok d \<Longrightarrow> table_ok sub_id t1 \<Longrightarrow> ids_ok (d\<lparr>db_subs := t1\<rparr>)"
  "ids_ok d \<Longrightarrow> table_ok vn_id t2 \<Longrightarrow> ids_ok (d\<lparr>db_nodes := t2\<rparr>)"
  "ids_ok d \<Longrightarrow> table_ok wi_id t3 \<Longrightarrow> ids_ok (d\<lparr>db_ifaces := t3\<rparr>)"
  "ids_ok d \<Longrightarrow> table_ok wp_id t4 \<Longrightarrow> ids_ok (d\<lparr>db_peers := t4\<rparr>)"
  "ids_ok d \<Longrightarrow> table_ok tn_id t5 \<Longrightarrow> ids_ok (d\<lparr>db_tnodes := t5\<rparr>)"
  "ids_ok d \<Longrightarrow> table_ok ss_id t6 \<Longrightarrow> ids_ok (d\<lparr>db_stats := t6\<rparr>)"
  "ids_ok d \<Longrightarrow> table_ok au_id t7 \<Longrightarrow> ids_ok (d\<lparr>db_audit := t7\<rparr>)"
  by (simp_all add: ids_ok_def)

lemma ids_ok_parts [simp]:
  "ids_ok d \<Longrightarrow> table_ok sub_id (db_subs d)" "ids_ok d \<Longrightarrow> table_ok vn_id (db_nodes d)"
  "ids_ok d \<Longrightarrow> table_ok wi_id (db_ifaces d)" "ids_ok d \<Longrightarrow> table_ok wp_id (db_peers d)"
  "ids_ok d \<Longrightarrow> table_ok tn_id (db_tnodes d)" "ids_ok d \<Longrightarrow> table_ok ss_id (db_stats d)"
  "ids_ok d \<Longrightarrow> table_ok au_id (db_audit d)"
  by (simp_all add: ids_ok_def)

lemmas schema_intros = preserves_exec_schema ids_ok_upd table_ok_intros

text \<open>Runs in which no statement fails.\<close>

definition no_fault :: "'a database_scheme \<Rightarrow> bool" where
  "no_fault d \<longleftrightarrow> (\<forall>n. db_fault d n = None)"

lemma no_fault_stmt [simp]: "no_fault d \<Longrightarrow> stmt body d = body (tick d)"
  by (simp add: no_fault_def stmt_def)

lemma no_fault_exec [simp]: "no_fault d \<Longrightarrow> exec f d = dml f (tick d)"
  by (simp add: exec_def)

lemma no_fault_query [simp]: "no_fault d \<Longrightarrow> query f d = (Inr (f (tick d)), tick d)"
  by (simp add: query_def)

lemma no_fault_tick [simp]: "no_fault (tick d) = no_fault d"
  by (simp add: no_fault_def tick_def)

lemma tick_sel [simp]:
  "db_now (tick d) = db_now d" "db_fault (tick d) = db_fault d" "db_subs (tick d) = db_subs d"
  "db_nodes (tick d) = db_nodes d" "db_ifaces (tick d) = db_ifaces d" "db_peers (tick d) = db_peers d"
  "db_tnodes (tick d) = db_tnodes d" "db_stats (tick d) = db_stats d" "db_audit (tick d) = db_audit d"
  "db_settings (tick d) = db_settings d" "db_clock (tick d) = Suc (db_clock d)"
  by (simp_all add: tick_def)

text \<open>Execution of a statement and of a transaction in such a run.\<close>

lemma schema_dml: "schema_ok (snd (f d)) \<Longrightarrow> dml f d = (Inr (fst (f d)), snd (f d))"
  by (rule dml_ok) (auto simp: schema_ok_def refs_ok_def)

lemma exec_run:
  "no_fault d \<Longrightarrow> schema_ok (snd (f (tick d))) \<Longrightarrow> exec f d = (Inr (fst (f (tick d))), snd (f (tick d)))"
  by (simp add: schema_dml)

lemma tx_run: "m d = (Inr x, t) \<Longrightarrow> no_fault d \<Longrightarrow> db_fault t = db_fault d \<Longrightarrow> tx m d = (Inr x, tick t)"
  by (simp add: tx_def no_fault_def)

lemma tx_fail: "m d = (Inl e, t) \<Longrightarrow> tx m d = (Inl e, d\<lparr>db_clock := db_clock t\<rparr>)"
  by (simp add: tx_def)

text \<open>Several statements that leave the tables alone.\<close>

definition ticks :: "nat \<Rightarrow> 'a database_scheme \<Rightarrow> 'a database_scheme" where
  "ticks n d = d\<lparr>db_clock := db_clock d + n\<rparr>"

lemma ticks_sel [simp]:
  "db_now (ticks n d) = db_now d" "db_fault (ticks n d) = db_fault d" "db_subs (ticks n d) = db_subs d"
  "db_nodes (ticks n d) = db_nodes d" "db_ifaces (ticks n d) = db_ifaces d" "db_peers (ticks n d) = db_peers d"
  "db_tnodes (ticks n d) = db_tnodes d" "db_stats (ticks n d) = db_stats d" "db_audit (ticks n d) = db_audit d"
  "db_settings (ticks n d) = db_settings d" "db_clock (ticks n d) = db_clock d + n"
  "schema_ok (ticks n d) = schema_ok d" "no_fault (ticks n d) = no_fault d"
  by (simp_all add: ticks_def no_fault_def)

lemma ticks_ticks [simp]:
  "ticks m (ticks n d) = ticks (n + m) d" "tick (ticks n d) = ticks (Suc n) d" "ticks n (tick d) = ticks (Suc n) d"
  "ticks 0 d = d"
  by (simp_all add: ticks_def tick_def)

lemma tick_ticks: "tick d = ticks 1 d"
  by (simp add: ticks_def tick_def)

lemma exec_step:
  assumes "no_fault d" "schema_ok (f d)" "f (ticks 1 d) = ticks 1 (f d)"
  shows "exec (\<lambda>d. (g d, f d)) d = (Inr (g (ticks 1 d)), ticks 1 (f d))"
  using assms by (simp add: exec_run tick_ticks del: no_fault_exec)

lemma query_step: "no_fault d \<Longrightarrow> query f d = (Inr (f (ticks 1 d)), ticks 1 d)"
  by (simp add: tick_ticks)

lemma t_count_id: "t_count (\<lambda>r. k r = i) t = 0 \<longleftrightarrow> \<not> has_id k t i"
  by (auto simp: t_count_def t_select_def has_id_def filter_empty_conv)

lemma tx_rollback: "m d = (Inl e, ticks k u) \<Longrightarrow> db_clock u = db_clock d \<Longrightarrow> tx m d = (Inl e, ticks k d)"
  by (simp add: tx_fail) (simp add: ticks_def)

end
