(* ===== verification/AuditLog.thy ===== *)
theory AuditLog
  imports Db
begin

text \<open>
  \<open>internal/service/eventlog.go\<close>, the bounded in-memory event log, and \<open>infrastructure/db/audit_log_repo.go\<close>,
  where its warnings and errors are kept. The state of the services that log is the database extended by
  the log: its capacity, its entries (oldest first), and whether \<open>SetPersister\<close> attached the repository.
\<close>

section \<open>The repository of audit rows\<close>

definition audit_Save :: "string \<Rightarrow> string \<Rightarrow> string \<Rightarrow> ('a database_scheme, unit) call" where
  "audit_Save level source msg = exec (\<lambda>d. ((), d\<lparr>db_audit := t_insert
     (\<lambda>i. \<lparr>au_id = i, au_level = level, au_source = (if source = [] then ''system'' else source),
            au_message = msg, au_created = db_now d\<rparr>) (db_audit d)\<rparr>))"

text \<open>SQLite's LIKE: \<open>%\<close> stands for any text, \<open>_\<close> for one character (one UTF-8 sequence), and ASCII letters
  match in either case.\<close>

fun like_match :: "string \<Rightarrow> string \<Rightarrow> bool" where
  "like_match [] s = (s = [])"
| "like_match (c # p) [] = (c = CHR ''%'' \<and> like_match p [])"
| "like_match (c # p) (x # s) =
     (if c = CHR ''%'' then like_match p (x # s) \<or> like_match (c # p) s
      else if c = CHR ''_'' then like_match p (dropWhile (\<lambda>b. of_char b div 64 = (2 :: nat)) s)
      else lower_char c = lower_char x \<and> like_match p s)"

record audit_filter =
  af_level :: string
  af_search :: string
  af_limit :: int
  af_offset :: int

definition audit_matches :: "audit_filter \<Rightarrow> audit_row \<Rightarrow> bool" where
  "audit_matches f r \<longleftrightarrow>
     (if af_level f = ''error'' then au_level r = ''error''
      else if af_level f = ''warn'' then au_level r \<in> {''warn'', ''error''} else True)
     \<and> (af_search f \<noteq> [] \<longrightarrow> like_match (''%'' @ af_search f @ ''%'') (au_message r))"

definition page_limit :: "int \<Rightarrow> int" where
  "page_limit n = (if n \<le> 0 \<or> n > 200 then 50 else n)"

text \<open>Two statements: the count, then the page, newest first. (A negative offset is not sent to SQLite.)\<close>

definition audit_List :: "audit_filter \<Rightarrow> ('a database_scheme, audit_row list \<times> int) call" where
  "audit_List f = bnd (query (\<lambda>d. t_count (audit_matches f) (db_audit d))) (\<lambda>total.
     bnd (query (\<lambda>d. take (nat (page_limit (af_limit f))) (drop (nat (af_offset f))
            (sort_key (\<lambda>r. - au_created r) (t_select (audit_matches f) (db_audit d)))))) (\<lambda>rows.
     ret (rows, total)))"

section \<open>The event log\<close>

record event =
  ev_ts :: int
  ev_level :: string
  ev_message :: string

record log_world = database +
  el_max :: int
  el_events :: "event list"
  el_db :: bool

type_synonym ('a, 'r) log_call = "('a log_world_scheme, 'r) call"

definition NewEventLog :: "int \<Rightarrow> int" where
  "NewEventLog n = (if n \<le> 0 then 64 else n)"

definition keep_last :: "int \<Rightarrow> event list \<Rightarrow> event list" where
  "keep_last m es = (if int (length es) > m then drop (nat (int (length es) - m)) es else es)"

definition push_event :: "string \<Rightarrow> string \<Rightarrow> 'a log_world_scheme \<Rightarrow> 'a log_world_scheme" where
  "push_event level msg w = w\<lparr>el_events :=
     keep_last (el_max w) (el_events w @ [\<lparr>ev_ts = db_now w, ev_level = level, ev_message = msg\<rparr>])\<rparr>"

definition AddSource :: "string \<Rightarrow> string \<Rightarrow> string \<Rightarrow> ('a, unit) log_call" where
  "AddSource level source msg = bnd (upd (push_event level msg)) (\<lambda>_.
     bnd (gets el_db) (\<lambda>p.
     if p \<and> (level = ''warn'' \<or> level = ''error'') then ignore (audit_Save level source msg) else ret ()))"

definition log_Add :: "string \<Rightarrow> string \<Rightarrow> ('a, unit) log_call" where
  "log_Add level msg = AddSource level ''system'' msg"

definition log_List :: "('a, event list) log_call" where
  "log_List = gets (\<lambda>w. rev (el_events w))"

section \<open>Lemmas\<close>

lemma push_event_sel [simp]:
  "db_now (push_event l m w) = db_now w" "db_fault (push_event l m w) = db_fault w"
  "db_clock (push_event l m w) = db_clock w" "db_subs (push_event l m w) = db_subs w"
  "db_nodes (push_event l m w) = db_nodes w" "db_ifaces (push_event l m w) = db_ifaces w"
  "db_peers (push_event l m w) = db_peers w" "db_tnodes (push_event l m w) = db_tnodes w"
  "db_stats (push_event l m w) = db_stats w" "db_audit (push_event l m w) = db_audit w"
  "db_settings (push_event l m w) = db_settings w" "el_max (push_event l m w) = el_max w"
  "el_db (push_event l m w) = el_db w"
  by (simp_all add: push_event_def)

lemma push_event_ok [simp]:
  "schema_ok (push_event l m w) = schema_ok w" "no_fault (push_event l m w) = no_fault w"
  by (simp_all add: schema_defs no_fault_def del: ids_ok_parts)

lemma log_schema [preserves_intro]:
  "preserves schema_ok (audit_List f)" "preserves schema_ok (audit_Save l s m)"
  "preserves schema_ok (AddSource l s m)" "preserves schema_ok (log_Add l m)"
proof -
  show "preserves schema_ok (audit_List f)" unfolding audit_List_def by (intro preserves_intro)
  show 1: "preserves schema_ok (audit_Save l s m)" for l s m
    unfolding audit_Save_def by (rule preserves_exec_schema) (simp add: ids_ok_upd table_ok_insert)
  show 2: "preserves schema_ok (AddSource l s m)" for l s m
    unfolding AddSource_def by (intro preserves_intro 1 preserves_upd) simp
  show "preserves schema_ok (log_Add l m)" unfolding log_Add_def by (rule 2)
qed

lemma AddSource_ok: "fst (AddSource l s m w) = Inr ()"
  by (auto simp: AddSource_def bnd_def upd_def gets_def ignore_ok ret_def)

text \<open>What a log entry changes: the event list and, for a warning or an error, the audit table and the
  statement counter.\<close>

lemma audit_Save_frame:
  fixes w :: "'a log_world_scheme"
  shows "snd (audit_Save l s m w) = w\<lparr>db_clock := Suc (db_clock w), db_audit := db_audit (snd (audit_Save l s m w))\<rparr>"
  by (simp add: audit_Save_def exec_def stmt_def dml_def Let_def tick_def split: option.split)

lemma AddSource_frame:
  fixes w :: "'a log_world_scheme"
  shows "\<exists>n. snd (AddSource l s m w) = (push_event l m w)\<lparr>db_clock := n, db_audit := db_audit (snd (AddSource l s m w))\<rparr>"
proof -
  let ?w = "push_event l m w"
  have "\<exists>n. snd (audit_Save l s m ?w) = ?w\<lparr>db_clock := n, db_audit := db_audit (snd (audit_Save l s m ?w))\<rparr>"
    using audit_Save_frame [of l s m ?w] by (rule exI)
  moreover have "?w = ?w\<lparr>db_clock := db_clock w, db_audit := db_audit ?w\<rparr>" by simp
  ultimately show ?thesis
    by (auto simp: AddSource_def bnd_def upd_def gets_def ignore_ok ret_def simp del: push_event_sel)
qed

definition add_all :: "(string \<times> string \<times> string) list \<Rightarrow> ('a, unit) log_call" where
  "add_all es = for_each (\<lambda>(l, s, m). AddSource l s m) es"

lemma int_diff_nat: "m \<ge> 0 \<Longrightarrow> nat (1 + int n - m) = Suc n - nat m"
  by arith

lemma push_event_lastn:
  "el_max w \<ge> 0 \<Longrightarrow> el_events (push_event l m w)
    = lastn (nat (el_max w)) (el_events w @ [\<lparr>ev_ts = db_now w, ev_level = l, ev_message = m\<rparr>])"
  by (cases "length (el_events w) < nat (el_max w)")
     (auto simp: push_event_def keep_last_def lastn_def int_diff_nat simp del: drop_append)

lemma AddSource_sel:
  "el_events (snd (AddSource l s m w)) = el_events (push_event l m w)"
  "el_max (snd (AddSource l s m w)) = el_max w" "db_now (snd (AddSource l s m w)) = db_now w"
  "el_db (snd (AddSource l s m w)) = el_db w" "db_fault (snd (AddSource l s m w)) = db_fault w"
proof -
  obtain n where n: "snd (AddSource l s m w) = (push_event l m w)\<lparr>db_clock := n, db_audit := db_audit (snd (AddSource l s m w))\<rparr>"
    using AddSource_frame [of l s m w] by blast
  show "el_events (snd (AddSource l s m w)) = el_events (push_event l m w)" by (subst n) simp
  show "el_max (snd (AddSource l s m w)) = el_max w" by (subst n) simp
  show "db_now (snd (AddSource l s m w)) = db_now w" by (subst n) simp
  show "el_db (snd (AddSource l s m w)) = el_db w" by (subst n) simp
  show "db_fault (snd (AddSource l s m w)) = db_fault w" by (subst n) simp
qed

lemma add_all_Cons:
  "snd (add_all ((l, s, m) # es) w) = snd (add_all es (snd (AddSource l s m w)))"
  using AddSource_ok [of l s m w]
  by (cases "AddSource l s m w") (simp add: add_all_def bnd_def)

lemma add_all_events:
  assumes "el_max w \<ge> 0"
  shows "el_events (snd (add_all es w)) =
    lastn (nat (el_max w)) (lastn (nat (el_max w)) (el_events w)
      @ map (\<lambda>(l, s, m). \<lparr>ev_ts = db_now w, ev_level = l, ev_message = m\<rparr>) es) \<or> es = []"
  using assms
proof (induction es arbitrary: w)
  case (Cons e es)
  obtain l s m where e: "e = (l, s, m)" by (cases e) auto
  let ?w = "snd (AddSource l s m w)"
  have m: "el_max ?w \<ge> 0" using Cons.prems by (simp add: AddSource_sel)
  have n: "snd (add_all [] v) = v" for v :: "'a log_world_scheme" by (simp add: add_all_def ret_def)
  show ?case
    using Cons.IH [OF m] Cons.prems
    by (cases "es = []") (auto simp: e add_all_Cons AddSource_sel push_event_lastn lastn_append lastn_append_one n)
qed simp

section \<open>Properties\<close>

definition audit_messages :: "'a database_scheme \<Rightarrow> (string \<times> string \<times> string) list" where
  "audit_messages d = map (\<lambda>r. (au_level r, au_source r, au_message r)) (t_rows (db_audit d))"

lemma AddSource_audit:
  assumes "no_fault w" "schema_ok w" "s \<noteq> []"
  shows "audit_messages (snd (AddSource l s m w)) =
    audit_messages w @ (if el_db w \<and> (l = ''warn'' \<or> l = ''error'') then [(l, s, m)] else [])"
    and "no_fault (snd (AddSource l s m w))" "schema_ok (snd (AddSource l s m w))"
proof -
  show "schema_ok (snd (AddSource l s m w))"
    by (rule preserves_run [OF log_schema(3) assms(2)])
  show "no_fault (snd (AddSource l s m w))"
    using assms(1) by (simp add: no_fault_def AddSource_sel)
  let ?w = "push_event l m w"
  have "audit_messages (snd (audit_Save l s m ?w)) = audit_messages w @ [(l, s, m)]"
  proof -
    let ?f = "\<lambda>d :: 'a log_world_scheme. ((), d\<lparr>db_audit := t_insert
       (\<lambda>i. \<lparr>au_id = i, au_level = l, au_source = s, au_message = m, au_created = db_now d\<rparr>) (db_audit d)\<rparr>)"
    have "schema_ok (snd (?f (tick ?w)))"
      using assms(2) unfolding schema_ok_def snd_conv
      by (intro conjI ids_ok_upd table_ok_insert) (simp_all add: schema_ok_def iface_refs_ok_def peer_refs_ok_def
           tnode_refs_ok_def unique_ok_def ids_ok_def del: ids_ok_parts)
    then have "exec ?f ?w = (Inr (), snd (?f (tick ?w)))"
      using exec_run [of ?w ?f] assms(1) by simp
    moreover have "audit_Save l s m = exec ?f" using assms(3) by (simp add: audit_Save_def)
    ultimately show ?thesis by (simp add: audit_messages_def t_insert_def)
  qed
  then show "audit_messages (snd (AddSource l s m w)) =
    audit_messages w @ (if el_db w \<and> (l = ''warn'' \<or> l = ''error'') then [(l, s, m)] else [])"
    by (simp add: AddSource_def bnd_def upd_def gets_def ignore_ok ret_def audit_messages_def)
qed

text \<open>C15: after any number of entries the log holds the last \<open>max\<close> of them and never more, the list it shows
  is newest first, and the audit table has got, in order, exactly those whose level is "warn" or
  "error" - no other level, "warning" included.\<close>

theorem event_log_behaviour:
  assumes "no_fault w" "schema_ok w" "el_db w" "el_max w > 0" "el_events w = []"
    and "\<forall>(l, s, m)\<in>set es. s \<noteq> []"
  shows "(\<exists>t. log_List (snd (add_all es w)) = (Inr (take (nat (el_max w))
            (rev (map (\<lambda>(l, s, m). \<lparr>ev_ts = db_now w, ev_level = l, ev_message = m\<rparr>) es))), t))
     \<and> length (el_events (snd (add_all es w))) \<le> nat (el_max w)
     \<and> audit_messages (snd (add_all es w)) = audit_messages w
         @ filter (\<lambda>(l, s, m). l = ''warn'' \<or> l = ''error'') es"
proof (intro conjI)
  let ?es = "map (\<lambda>(l, s, m). \<lparr>ev_ts = db_now w, ev_level = l, ev_message = m\<rparr>) es"
  have ev: "el_events (snd (add_all es w)) = lastn (nat (el_max w)) ?es"
    using add_all_events [of w es] assms(4,5) by (cases "es = []") (auto simp: lastn_def add_all_def ret_def)
  show "\<exists>t. log_List (snd (add_all es w)) = (Inr (take (nat (el_max w)) (rev ?es)), t)"
    by (simp add: log_List_def gets_def ev rev_lastn)
  show "length (el_events (snd (add_all es w))) \<le> nat (el_max w)"
    by (simp add: ev length_lastn)
  show "audit_messages (snd (add_all es w)) = audit_messages w @ filter (\<lambda>(l, s, m). l = ''warn'' \<or> l = ''error'') es"
    using assms(1,2,3,6)
  proof (induction es arbitrary: w)
    case (Cons e es)
    obtain l s m where e: "e = (l, s, m)" by (cases e) auto
    have f [simp]: "filter (\<lambda>(l, u). l = ''warn'' \<or> l = ''error'') xs = filter (\<lambda>(l, s, m). l = ''warn'' \<or> l = ''error'') xs"
      for xs :: "(string \<times> string \<times> string) list" by (rule filter_cong) auto
    have "s \<noteq> []" using Cons.prems(4) by (auto simp: e)
    note a = AddSource_audit [OF Cons.prems(1,2) this, of l m]
    have "audit_messages (snd (add_all es (snd (AddSource l s m w))))
        = audit_messages (snd (AddSource l s m w)) @ filter (\<lambda>(l, s, m). l = ''warn'' \<or> l = ''error'') es"
      using Cons.IH [OF a(2,3)] Cons.prems(3,4) by (simp add: AddSource_sel)
    then show ?case using Cons.prems(3) by (simp add: e add_all_Cons a(1))
  qed (simp add: add_all_def ret_def)
qed

definition log_of :: "database \<Rightarrow> log_world" where
  "log_of d = database.extend d (log_world.fields 2 [] True)"

lemma log_of_empty: "schema_ok (log_of empty_database)" "no_fault (log_of empty_database)"
  "el_db (log_of empty_database)" "el_max (log_of empty_database) > 0" "el_events (log_of empty_database) = []"
  "audit_messages (log_of empty_database) = []"
  by (simp_all add: log_of_def database.defs log_world.defs empty_database_def empty_table_def schema_defs table_ok_def
      no_fault_def audit_messages_def)

theorem event_log_behaviour_witness:
  "audit_messages (snd (add_all [(''warn'', ''system'', ''a''), (''warning'', ''system'', ''b''), (''error'', ''wg'', ''c'')]
     (log_of empty_database))) = [(''warn'', ''system'', ''a''), (''error'', ''wg'', ''c'')]"
  using event_log_behaviour [OF log_of_empty(2,1,3-5),
    of "[(''warn'', ''system'', ''a''), (''warning'', ''system'', ''b''), (''error'', ''wg'', ''c'')]"]
  by (simp add: log_of_empty(6))

end
