(* ===== verification/XrayConfig.thy ===== *)
theory XrayConfig
  imports LinkText
begin

text \<open>
  \<open>internal/infrastructure/xrayinfra/config.go\<close>: the configuration document of the embedded xray-core for a
  tunnel (and \<open>internal/tracenv\<close>, whose environment variables it reads; they are arguments here). A
  \<open>map[string]any\<close> is an object value; \<open>json.Marshal\<close> turns the document into text (theory GoJson).
\<close>

section \<open>The document\<close>

definition XrayLogLevel :: "string \<Rightarrow> string" where
  "XrayLogLevel env = or_default (trim_space env) ''warning''"

definition XrayAccessLog :: "string \<Rightarrow> string" where
  "XrayAccessLog env = trim_space env"

definition streamSettingsInboundTProxy :: json where
  "streamSettingsInboundTProxy = JObj [(''sockopt'', JObj [(''tproxy'', JStr ''tproxy'')])]"

definition buildInbounds :: "int \<Rightarrow> string \<Rightarrow> json list" where
  "buildInbounds xrayListenPort localGatewayIP =
    [JObj [(''tag'', JStr ''transparent-in''), (''listen'', JStr ''0.0.0.0''), (''port'', JInt xrayListenPort),
       (''protocol'', JStr ''dokodemo-door''),
       (''settings'', JObj [(''network'', JStr ''tcp,udp''), (''followRedirect'', JBool True),
                           (''address'', JStr ''0.0.0.0''), (''port'', JInt 0)]),
       (''streamSettings'', streamSettingsInboundTProxy),
       (''sniffing'', JObj [(''enabled'', JBool False)])]]
    @ (let g = trim_space localGatewayIP in if g = [] then [] else
       [JObj [(''tag'', JStr ''dns-in''), (''listen'', JStr g), (''port'', JInt 53),
         (''protocol'', JStr ''dokodemo-door''),
         (''settings'', JObj [(''network'', JStr ''tcp,udp''), (''followRedirect'', JBool False),
                             (''address'', JStr ''1.1.1.1''), (''port'', JInt 53)]),
         (''sniffing'', JObj [(''enabled'', JBool False)])]])"

definition vlessUserObject :: "vless_node \<Rightarrow> json" where
  "vlessUserObject node = JObj
    ([(''id'', JStr (vn_uuid node)), (''encryption'', JStr (or_default (vn_encryption node) ''none''))]
     @ (let f = trim_space (vn_flow node) in if f = [] then [] else [(''flow'', JStr f)])
     @ (let pe = trim_space (vn_packet node) in if pe = [] then [] else [(''packetEncoding'', JStr pe)]))"

text \<open>Unknown names and corrupt columns degrade to plain TCP, no security, and zero specs.\<close>

definition resolved :: "go_error + 'a \<Rightarrow> 'a \<Rightarrow> 'a" where
  "resolved r d = (case r of Inl e \<Rightarrow> d | Inr x \<Rightarrow> x)"

definition settings_member :: "string \<Rightarrow> json option \<Rightarrow> (string \<times> json) list" where
  "settings_member name s = (case s of Some (JObj ms) \<Rightarrow> if ms = [] then [] else [(name @ ''Settings'', JObj ms)] | _ \<Rightarrow> [])"

definition streamSettingsOutbound :: "vless_node \<Rightarrow> json" where
  "streamSettingsOutbound node =
    (let tr = resolved (transport_Resolve (or_default (vn_network node) ''tcp'')) TCP;
         tSpec = resolved (tr_DecodeSpec tr (vn_transport node)) (resolved (tr_DecodeSpec tr RawEmpty) TCPSpec);
         sec = resolved (security_Resolve (or_default (vn_security node) ''none'')) NoneSec;
         sSpec = resolved (sec_DecodeSpec sec (vn_sec_config node)) (resolved (sec_DecodeSpec sec RawEmpty) NoneSpec)
     in JObj ([(''network'', JStr (tr_Name tr)), (''security'', JStr (sec_Name sec))]
          @ settings_member (tr_Name tr) (tr_EmitSettings tSpec)
          @ settings_member (sec_Name sec) (sec_EmitSettings sSpec)))"

definition vless_outbound :: "string \<Rightarrow> vless_node \<Rightarrow> json" where
  "vless_outbound tag node = JObj
    ([(''protocol'', JStr ''vless''), (''tag'', JStr tag),
      (''settings'', JObj [(''vnext'', JArr [JObj [(''address'', JStr (vn_address node)), (''port'', JInt (vn_port node)),
                                                (''users'', JArr [vlessUserObject node])]])]),
      (''streamSettings'', streamSettingsOutbound node)]
     @ (if trim_space (vn_flow node) = [] then [(''mux'', JObj [(''enabled'', JBool True), (''concurrency'', JInt 8)])]
        else []))"

definition direct_outbound :: json where
  "direct_outbound = JObj [(''protocol'', JStr ''freedom''), (''tag'', JStr ''direct'')]"

definition buildSingleNodeConfig :: "vless_node \<Rightarrow> string list \<Rightarrow> json list \<times> json" where
  "buildSingleNodeConfig node tags =
    ([direct_outbound, vless_outbound ''proxy'' node],
     JObj [(''domainStrategy'', JStr ''AsIs''),
           (''rules'', JArr [JObj [(''type'', JStr ''field''), (''inboundTag'', JArr (map JStr tags)),
                                 (''outboundTag'', JStr ''proxy'')]])])"

definition out_tag :: "nat \<Rightarrow> string" where
  "out_tag i = ''vless-out-'' @ itoa (int i + 1)"

fun multi_outbounds :: "nat \<Rightarrow> vless_node list \<Rightarrow> json list" where
  "multi_outbounds i [] = [direct_outbound]"
| "multi_outbounds i (n # ns) = vless_outbound (out_tag i) n # multi_outbounds (Suc i) ns"

definition buildMultiNodeConfig :: "vless_node list \<Rightarrow> string \<Rightarrow> string list \<Rightarrow> json list \<times> json \<times> json" where
  "buildMultiNodeConfig nodes strategy tags =
    (multi_outbounds 0 nodes,
     JObj [(''domainStrategy'', JStr ''AsIs''),
           (''balancers'', JArr [JObj [(''tag'', JStr ''main-balancer''), (''selector'', JArr [JStr ''vless-out-'']),
              (''strategy'', JObj [(''type'', JStr (if strategy = BalancingLeastPing then ''leastPing'' else ''roundRobin''))]),
              (''fallbackTag'', JStr ''vless-out-1'')]]),
           (''rules'', JArr [JObj [(''type'', JStr ''field''), (''inboundTag'', JArr (map JStr tags)),
                                 (''balancerTag'', JStr ''main-balancer'')]])],
     JObj [(''subjectSelector'', JArr [JStr ''vless-out-'']), (''probeUrl'', JStr ''https://www.cloudflare.com/cdn-cgi/trace''),
           (''probeInterval'', JStr ''10s''), (''enableConcurrency'', JBool True)])"

record trace_env =
  te_log_level :: string
  te_access_log :: string

definition BuildXrayConfig :: "trace_env \<Rightarrow> int \<Rightarrow> string \<Rightarrow> vless_node list \<Rightarrow> string \<Rightarrow> go_error + json" where
  "BuildXrayConfig env xrayListenPort localGatewayIP nodes strategy =
    (if nodes = [] then Inl (Opaque ''BuildXrayConfig: no nodes provided'')
     else
       let inbounds = buildInbounds xrayListenPort localGatewayIP;
           tags = ''transparent-in'' # (if trim_space localGatewayIP \<noteq> [] then [''dns-in''] else []);
           (outbounds, routing, obs) =
             (if length nodes = 1
              then (case buildSingleNodeConfig (hd nodes) tags of (outs, r) \<Rightarrow> (outs, r, []))
              else (case buildMultiNodeConfig nodes strategy tags of (outs, r, ob) \<Rightarrow> (outs, r, [(''observatory'', ob)])));
           access = XrayAccessLog (te_access_log env);
           logDoc = JObj ((''logLevel'', JStr (XrayLogLevel (te_log_level env)))
                       # (if access \<noteq> [] then [(''access'', JStr access)] else []))
       in Inr (JObj ([(''log'', logDoc), (''inbounds'', JArr inbounds), (''outbounds'', JArr outbounds),
                      (''routing'', routing), (''dns'', JObj [(''servers'', JArr [JStr ''8.8.8.8'', JStr ''1.1.1.1''])])]
                     @ obs)))"

section \<open>Reading the document\<close>

fun member :: "string \<Rightarrow> json \<Rightarrow> json option" where
  "member k (JObj ms) = map_of ms k" | "member k _ = None"

fun items :: "json option \<Rightarrow> json list" where
  "items (Some (JArr vs)) = vs" | "items _ = []"

definition str_member :: "string \<Rightarrow> json \<Rightarrow> string option" where
  "str_member k j = (case member k j of Some (JStr s) \<Rightarrow> Some s | _ \<Rightarrow> None)"

definition doc_items :: "string \<Rightarrow> json \<Rightarrow> json list" where
  "doc_items k d = items (member k d)"

definition doc_tags :: "string \<Rightarrow> json \<Rightarrow> string option list" where
  "doc_tags k d = map (str_member ''tag'') (doc_items k d)"

definition routing_of :: "json \<Rightarrow> json" where
  "routing_of d = (case member ''routing'' d of Some r \<Rightarrow> r | None \<Rightarrow> JNull)"

definition strings_of :: "json list \<Rightarrow> string option list" where
  "strings_of js = map as_string js"

lemma vless_outbound_tag [simp]: "str_member ''tag'' (vless_outbound t n) = Some t"
  "str_member ''protocol'' (vless_outbound t n) = Some ''vless''"
  by (simp_all add: str_member_def vless_outbound_def)

lemma direct_outbound_tag [simp]: "str_member ''tag'' direct_outbound = Some ''direct''"
  "str_member ''protocol'' direct_outbound = Some ''freedom''"
  by (simp_all add: str_member_def direct_outbound_def)

lemma multi_outbounds_tags:
  "map (str_member ''tag'') (multi_outbounds i ns) = map (\<lambda>j. Some (out_tag (i + j))) [0..<length ns] @ [Some ''direct'']"
proof (induction ns arbitrary: i)
  case (Cons n ns)
  have "map (\<lambda>j. Some (out_tag (i + j))) [0..<length (n # ns)]
      = Some (out_tag i) # map (\<lambda>j. Some (out_tag (Suc i + j))) [0..<length ns]"
    by (rule nth_equalityI) (auto simp: nth_Cons' simp del: upt_Suc)
  with Cons show ?case by simp
qed simp

lemma out_tag_inj [simp]: "out_tag i = out_tag j \<longleftrightarrow> i = j"
  by (simp add: out_tag_def)

lemma out_tag_direct [simp]: "out_tag i \<noteq> ''direct''" "''direct'' \<noteq> out_tag i"
  by (simp_all add: out_tag_def)

lemma out_tag_prefix: "has_prefix (out_tag i) ''vless-out-''"
  by (simp add: out_tag_def has_prefix_def)

lemma config_multi:
  assumes "length ns \<ge> 2" "BuildXrayConfig env port gw ns strat = Inr d"
  shows "doc_items ''outbounds'' d = multi_outbounds 0 ns"
    and "routing_of d = fst (snd (buildMultiNodeConfig ns strat
           (''transparent-in'' # (if trim_space gw \<noteq> [] then [''dns-in''] else []))))"
    and "member ''observatory'' d \<noteq> None"
  using assms
  by (auto simp: BuildXrayConfig_def buildMultiNodeConfig_def doc_items_def routing_of_def Let_def split: if_splits)

lemma config_single:
  assumes "BuildXrayConfig env port gw [n] strat = Inr d"
  shows "doc_items ''outbounds'' d = [direct_outbound, vless_outbound ''proxy'' n]"
    and "routing_of d = snd (buildSingleNodeConfig n
           (''transparent-in'' # (if trim_space gw \<noteq> [] then [''dns-in''] else [])))"
    and "member ''observatory'' d = None"
  using assms
  by (auto simp: BuildXrayConfig_def buildSingleNodeConfig_def doc_items_def routing_of_def Let_def)

lemma config_inbounds:
  assumes "BuildXrayConfig env port gw ns strat = Inr d"
  shows "doc_items ''inbounds'' d = buildInbounds port gw"
  using assms by (auto simp: BuildXrayConfig_def doc_items_def Let_def split: if_splits prod.splits)

lemma inbound_tags:
  "map (str_member ''tag'') (buildInbounds port gw)
   = Some ''transparent-in'' # (if trim_space gw \<noteq> [] then [Some ''dns-in''] else [])"
  by (simp add: buildInbounds_def str_member_def Let_def)

section \<open>Properties\<close>

definition rule_of :: "json \<Rightarrow> json" where
  "rule_of d = hd (doc_items ''rules'' (routing_of d))"

text \<open>C12: a tunnel with several nodes: the document has one VLESS outbound per node, in the node's order
  and under tags that are all different, then the direct outbound; the balancer's selector matches
  exactly the VLESS outbounds, its fallback is the first of them, the first outbound of all (xray's
  implicit default) is not the direct one, and the one routing rule sends exactly the document's
  inbounds to the balancer.\<close>

theorem multi_node_config:
  assumes "length ns \<ge> 2" "BuildXrayConfig env port gw ns strat = Inr d"
  shows "doc_tags ''outbounds'' d = map (\<lambda>i. Some (out_tag i)) [0..<length ns] @ [Some ''direct'']
     \<and> distinct (doc_tags ''outbounds'' d)
     \<and> (\<forall>i<length ns. doc_items ''outbounds'' d ! i = vless_outbound (out_tag i) (ns ! i))
     \<and> (\<forall>b\<in>set (doc_items ''balancers'' (routing_of d)).
          str_member ''tag'' b = str_member ''balancerTag'' (rule_of d)
          \<and> str_member ''fallbackTag'' b = hd (doc_tags ''outbounds'' d)
          \<and> (\<forall>ob\<in>set (doc_items ''outbounds'' d).
               (\<exists>p t. Some p \<in> set (strings_of (doc_items ''selector'' b)) \<and> str_member ''tag'' ob = Some t \<and> has_prefix t p)
               = (str_member ''protocol'' ob = Some ''vless'')))
     \<and> length (doc_items ''balancers'' (routing_of d)) = 1
     \<and> strings_of (doc_items ''inboundTag'' (rule_of d)) = doc_tags ''inbounds'' d"
proof (intro conjI)
  note c = config_multi [OF assms]
  show t: "doc_tags ''outbounds'' d = map (\<lambda>i. Some (out_tag i)) [0..<length ns] @ [Some ''direct'']"
    using multi_outbounds_tags [of 0 ns] by (simp add: doc_tags_def c(1))
  show "distinct (doc_tags ''outbounds'' d)"
    unfolding t by (auto simp: distinct_map inj_on_def)
  have nth: "i < length ns \<Longrightarrow> multi_outbounds k ns ! i = vless_outbound (out_tag (k + i)) (ns ! i)" for i k and ns
    by (induction ns arbitrary: i k) (auto simp: nth_Cons split: nat.split)
  then show "\<forall>i<length ns. doc_items ''outbounds'' d ! i = vless_outbound (out_tag i) (ns ! i)"
    using nth [of _ ns 0] by (simp add: c(1))
  have hd: "hd (doc_tags ''outbounds'' d) = Some ''vless-out-1''"
  proof -
    have "out_tag 0 = ''vless-out-1''" by code_simp
    moreover obtain k where "length ns = Suc k" using assms(1) by (cases "length ns") auto
    ultimately show ?thesis unfolding t by (simp add: upt_conv_Cons del: upt_Suc)
  qed
  have obs: "\<forall>ob\<in>set (multi_outbounds k ns). (\<exists>i n. ob = vless_outbound (out_tag i) n) \<or> ob = direct_outbound" for k and ns
    by (induction ns arbitrary: k) auto
  have dp: "\<not> has_prefix ''direct'' ''vless-out-''" by code_simp
  have sel: "(\<exists>p t. Some p \<in> set (strings_of [JStr ''vless-out-'']) \<and> str_member ''tag'' ob = Some t \<and> has_prefix t p)
      = (str_member ''protocol'' ob = Some ''vless'')" if "ob \<in> set (multi_outbounds 0 ns)" for ob
    using obs [of 0 ns] that out_tag_prefix dp by (auto simp: strings_of_def)
  show "\<forall>b\<in>set (doc_items ''balancers'' (routing_of d)).
          str_member ''tag'' b = str_member ''balancerTag'' (rule_of d)
          \<and> str_member ''fallbackTag'' b = hd (doc_tags ''outbounds'' d)
          \<and> (\<forall>ob\<in>set (doc_items ''outbounds'' d).
               (\<exists>p t. Some p \<in> set (strings_of (doc_items ''selector'' b)) \<and> str_member ''tag'' ob = Some t \<and> has_prefix t p)
               = (str_member ''protocol'' ob = Some ''vless''))"
  proof -
    have bal: "doc_items ''selector'' b = [JStr ''vless-out-''] \<and> str_member ''tag'' b = Some ''main-balancer''
        \<and> str_member ''fallbackTag'' b = Some ''vless-out-1''" if "b \<in> set (doc_items ''balancers'' (routing_of d))" for b
      using that by (auto simp: c(2) buildMultiNodeConfig_def doc_items_def str_member_def)
    have "str_member ''balancerTag'' (rule_of d) = Some ''main-balancer''"
      by (simp add: c(2) rule_of_def buildMultiNodeConfig_def doc_items_def str_member_def)
    with sel bal show ?thesis by (simp add: c(1) hd)
  qed
  show "length (doc_items ''balancers'' (routing_of d)) = 1"
    by (simp add: c(2) buildMultiNodeConfig_def doc_items_def)
  show "strings_of (doc_items ''inboundTag'' (rule_of d)) = doc_tags ''inbounds'' d"
    using inbound_tags [of port gw]
    by (simp add: rule_of_def c(2) buildMultiNodeConfig_def doc_items_def doc_tags_def strings_of_def)
       (simp add: config_inbounds [OF assms(2), unfolded doc_items_def])
qed

definition cfg_node :: "string \<Rightarrow> vless_node" where
  "cfg_node a = \<lparr>vn_id = 1, vn_sub = 1, vn_display = ''n'', vn_uuid = ''u'', vn_address = a, vn_port = 443,
     vn_flow = [], vn_encryption = ''none'', vn_packet = [], vn_network = ''tcp'', vn_transport = RawDoc (JObj []),
     vn_security = ''none'', vn_sec_config = RawDoc (JObj []), vn_raw = ''vless://u@a'', vn_created = 0\<rparr>"

lemma config_total: "ns \<noteq> [] \<Longrightarrow> \<exists>d. BuildXrayConfig env port gw ns strat = Inr d"
  by (simp add: BuildXrayConfig_def Let_def split: prod.split)

theorem multi_node_config_witness:
  "\<exists>d. BuildXrayConfig \<lparr>te_log_level = [], te_access_log = []\<rparr> 13001 ''10.100.1.1'' [cfg_node ''a'', cfg_node ''b''] ''least_ping'' = Inr d
     \<and> doc_tags ''outbounds'' d = [Some (out_tag 0), Some (out_tag 1), Some ''direct'']"
proof -
  obtain d where d: "BuildXrayConfig \<lparr>te_log_level = [], te_access_log = []\<rparr> 13001 ''10.100.1.1''
      [cfg_node ''a'', cfg_node ''b''] ''least_ping'' = Inr d"
    using config_total [of "[cfg_node ''a'', cfg_node ''b'']"] by blast
  from multi_node_config [OF _ d] have "doc_tags ''outbounds'' d = map (\<lambda>i. Some (out_tag i)) [0..<2] @ [Some ''direct'']"
    by (simp add: numeral_2_eq_2)
  with d show ?thesis by (auto simp: numeral_2_eq_2)
qed

text \<open>A tunnel with one node: exactly one routing rule sends exactly the document's inbounds to the
  VLESS outbound; but, unlike the document for several nodes, the first outbound is the direct one, so
  xray's implicit default leaves the tunnel.\<close>

theorem single_node_config:
  assumes "BuildXrayConfig env port gw [n] strat = Inr d"
  shows "doc_tags ''outbounds'' d = [Some ''direct'', Some ''proxy'']
     \<and> str_member ''protocol'' (hd (doc_items ''outbounds'' d)) = Some ''freedom''
     \<and> length (doc_items ''rules'' (routing_of d)) = 1
     \<and> str_member ''outboundTag'' (rule_of d) = Some ''proxy''
     \<and> strings_of (doc_items ''inboundTag'' (rule_of d)) = doc_tags ''inbounds'' d
     \<and> member ''observatory'' d = None"
proof -
  note c = config_single [OF assms]
  have "strings_of (doc_items ''inboundTag'' (rule_of d)) = doc_tags ''inbounds'' d"
    using inbound_tags [of port gw]
    by (simp add: rule_of_def c(2) buildSingleNodeConfig_def doc_items_def doc_tags_def strings_of_def)
       (simp add: config_inbounds [OF assms, unfolded doc_items_def])
  then show ?thesis
    by (simp add: c doc_tags_def)
       (simp add: rule_of_def c(2) buildSingleNodeConfig_def doc_items_def str_member_def)
qed

theorem single_node_config_witness:
  "\<exists>d. BuildXrayConfig \<lparr>te_log_level = [], te_access_log = []\<rparr> 13001 ''10.100.1.1'' [cfg_node ''a''] [] = Inr d
     \<and> doc_tags ''outbounds'' d = [Some ''direct'', Some ''proxy'']"
proof -
  obtain d where d: "BuildXrayConfig \<lparr>te_log_level = [], te_access_log = []\<rparr> 13001 ''10.100.1.1'' [cfg_node ''a''] [] = Inr d"
    using config_total [of "[cfg_node ''a'']"] by blast
  with single_node_config [OF d] show ?thesis by blast
qed

text \<open>The configuration never fails once there is a node, and a node that \<open>ParseURI\<close> accepted gets the
  stream settings of its own transport and security mode: their names appear as stored, and the
  transport's settings are those of the decoded column, not of the fallback.\<close>

theorem config_of_parsed:
  assumes "ParseURI raw = Inr n"
  shows "\<exists>d tr t sec s. BuildXrayConfig env port gw [n] strat = Inr d
     \<and> tr_DecodeSpec tr (vn_transport n) = Inr t \<and> sec_DecodeSpec sec (vn_sec_config n) = Inr s
     \<and> tr_Name tr = vn_network n \<and> sec_Name sec = vn_security n
     \<and> member ''streamSettings'' (doc_items ''outbounds'' d ! 1) = Some (JObj
         ([(''network'', JStr (vn_network n)), (''security'', JStr (vn_security n))]
          @ settings_member (vn_network n) (tr_EmitSettings t) @ settings_member (vn_security n) (sec_EmitSettings s)))"
proof -
  obtain tr t sec u where p: "vn_network n = tr_Name tr" "tr_DecodeSpec tr (vn_transport n) = Inr t"
      "vn_security n = sec_Name sec" "sec_DecodeSpec sec (vn_sec_config n) = Inr u"
    using ParseURI_stored [OF assms] by blast
  obtain d where d: "BuildXrayConfig env port gw [n] strat = Inr d"
    using config_total [of "[n]"] by blast
  have "tr_Name tr \<noteq> []" "sec_Name sec \<noteq> []" by (cases tr; simp) (cases sec; simp)
  then have "streamSettingsOutbound n = JObj
         ([(''network'', JStr (vn_network n)), (''security'', JStr (vn_security n))]
          @ settings_member (vn_network n) (tr_EmitSettings t) @ settings_member (vn_security n) (sec_EmitSettings u))"
    by (simp add: streamSettingsOutbound_def or_default_def p resolve_names resolved_def)
  then have "member ''streamSettings'' (doc_items ''outbounds'' d ! 1) = Some (JObj
         ([(''network'', JStr (vn_network n)), (''security'', JStr (vn_security n))]
          @ settings_member (vn_network n) (tr_EmitSettings t) @ settings_member (vn_security n) (sec_EmitSettings u)))"
    by (simp add: config_single [OF d] vless_outbound_def)
  with d p show ?thesis by (intro exI [of _ d] exI [of _ tr] exI [of _ t] exI [of _ sec] exI [of _ u] conjI) simp_all
qed

theorem config_of_parsed_witness:
  "\<exists>d n. ParseURI ''vless://u@h.example:8443?type=ws&path=%2Fa&security=tls&sni=h#N'' = Inr n
     \<and> BuildXrayConfig \<lparr>te_log_level = [], te_access_log = []\<rparr> 13001 ''10.1.0.1'' [n] [] = Inr d"
proof -
  let ?raw = "''vless://u@h.example:8443?type=ws&path=%2Fa&security=tls&sni=h#N''"
  have "(case ParseURI ?raw of Inl e \<Rightarrow> False | Inr n \<Rightarrow> True)" by code_simp
  then obtain n where n: "ParseURI ?raw = Inr n" by (cases "ParseURI ?raw") auto
  from config_of_parsed [OF this, of "\<lparr>te_log_level = [], te_access_log = []\<rparr>" 13001 "''10.1.0.1''" "[]"]
  obtain d where "BuildXrayConfig \<lparr>te_log_level = [], te_access_log = []\<rparr> 13001 ''10.1.0.1'' [n] [] = Inr d"
    by blast
  with n show ?thesis by blast
qed

end
