(* ===== verification/Host.thy ===== *)
theory Host
  imports GoNet AuditLog XrayConfig
begin

text \<open>
  The host as the program changes it: package \<open>infrastructure/netconf\<close> (iptables rules, policy routes, the
  addresses of the tunnel device).

  go-iptables, netlink, wireguard-go and xray-core are the record \<open>host\<close>: one field per function of theirs the
  program calls, on an abstract state \<open>'k\<close> of the kernel and of the devices and instances they run. A rule
  is the list of its arguments, a policy rule its mark and its table, a device or an instance a number.
  Functions that only log are left out, and so are the parts of the others that do.
\<close>

section \<open>The libraries\<close>

record route =
  rt_table :: int
  rt_link :: int

record 'k host =
  ipt_New :: "('k, unit) call"
  ipt_ChainExists :: "string \<Rightarrow> string \<Rightarrow> ('k, bool) call"
  ipt_NewChain :: "string \<Rightarrow> string \<Rightarrow> ('k, unit) call"
  ipt_ClearChain :: "string \<Rightarrow> string \<Rightarrow> ('k, unit) call"
  ipt_DeleteChain :: "string \<Rightarrow> string \<Rightarrow> ('k, unit) call"
  ipt_Insert :: "string \<Rightarrow> string \<Rightarrow> int \<Rightarrow> string list \<Rightarrow> ('k, unit) call"
  ipt_Append :: "string \<Rightarrow> string \<Rightarrow> string list \<Rightarrow> ('k, unit) call"
  ipt_Delete :: "string \<Rightarrow> string \<Rightarrow> string list \<Rightarrow> ('k, unit) call"
  nl_RuleAdd :: "int \<times> int \<Rightarrow> ('k, unit) call"
  nl_RuleList :: "('k, (int \<times> int) list) call"
  nl_RuleDel :: "int \<times> int \<Rightarrow> ('k, unit) call"
  nl_LinkByName :: "string \<Rightarrow> ('k, int) call"
  nl_ParseAddr :: "string \<Rightarrow> go_error + string"
  nl_AddrReplace :: "int \<Rightarrow> string \<Rightarrow> ('k, unit) call"
  nl_LinkSetUp :: "int \<Rightarrow> ('k, unit) call"
  nl_RouteReplace :: "route \<Rightarrow> ('k, unit) call"
  nl_RouteList :: "int \<Rightarrow> ('k, route list) call"
  nl_RouteDel :: "route \<Rightarrow> ('k, unit) call"
  os_WriteFile :: "string \<Rightarrow> string \<Rightarrow> ('k, unit) call"
  wg_CreateTUN :: "string \<Rightarrow> int \<Rightarrow> ('k, nat) call"
  wg_IpcSet :: "nat \<Rightarrow> string \<Rightarrow> ('k, unit) call"
  wg_Close :: "nat \<Rightarrow> ('k, unit) call"
  wg_UAPIOpen :: "string \<Rightarrow> ('k, nat) call"
  wg_UAPIListen :: "string \<Rightarrow> nat \<Rightarrow> ('k, nat) call"
  wg_UAPIClose :: "nat \<Rightarrow> ('k, unit) call"
  xr_Load :: "json \<Rightarrow> ('k, nat) call"
  xr_New :: "nat \<Rightarrow> ('k, nat) call"
  xr_Start :: "nat \<Rightarrow> ('k, unit) call"
  xr_Close :: "nat \<Rightarrow> ('k, unit) call"
  xr_Observe :: "nat \<Rightarrow> 'k \<Rightarrow> node_health_entry list option"

section \<open>netconf\<close>

text \<open>forward_linux.go\<close>

definition accept_rules :: "string \<Rightarrow> string list \<times> string list" where
  "accept_rules tun = ([''-o'', tun, ''-j'', ''ACCEPT''], [''-i'', tun, ''-j'', ''ACCEPT''])"

definition teardownForwardRules :: "'k host \<Rightarrow> string \<Rightarrow> ('k, unit) call" where
  "teardownForwardRules H tun = for_each (\<lambda>ch.
     bnd (ignore (ipt_Delete H ''filter'' ch (fst (accept_rules tun)))) (\<lambda>_.
     ignore (ipt_Delete H ''filter'' ch (snd (accept_rules tun))))) [''FORWARD'', ''DOCKER-USER'']"

definition TeardownForwardRules :: "'k host \<Rightarrow> string \<Rightarrow> ('k, unit) call" where
  "TeardownForwardRules H tun = bnd (ipt_New H) (\<lambda>_. teardownForwardRules H tun)"

definition try_docker_user :: "'k host \<Rightarrow> string \<Rightarrow> ('k, bool) call" where
  "try_docker_user H tun = attempt (ipt_ChainExists H ''filter'' ''DOCKER-USER'') (\<lambda>ok. if ok \<noteq> Inr True then ret False
     else attempt (ipt_Insert H ''filter'' ''DOCKER-USER'' 1 (fst (accept_rules tun))) (\<lambda>eOut.
       attempt (ipt_Insert H ''filter'' ''DOCKER-USER'' 1 (snd (accept_rules tun))) (\<lambda>eIn.
       if eOut = Inr () \<and> eIn = Inr () then ret True
       else bnd (ignore (ipt_Delete H ''filter'' ''DOCKER-USER'' (fst (accept_rules tun)))) (\<lambda>_.
         bnd (ignore (ipt_Delete H ''filter'' ''DOCKER-USER'' (snd (accept_rules tun)))) (\<lambda>_. ret False)))))"

definition SetupForwardRules :: "'k host \<Rightarrow> string \<Rightarrow> ('k, unit) call" where
  "SetupForwardRules H tun = bnd (ipt_New H) (\<lambda>_. bnd (teardownForwardRules H tun) (\<lambda>_.
     bnd (try_docker_user H tun) (\<lambda>useDockerUser.
     if useDockerUser then ret ()
     else bnd (ipt_Insert H ''filter'' ''FORWARD'' 1 (snd (accept_rules tun))) (\<lambda>_.
       attempt (ipt_Insert H ''filter'' ''FORWARD'' 1 (fst (accept_rules tun))) (\<lambda>r. case r of
         Inl e \<Rightarrow> bnd (ignore (ipt_Delete H ''filter'' ''FORWARD'' (snd (accept_rules tun)))) (\<lambda>_. fail e)
       | Inr _ \<Rightarrow> ret ())))))"

text \<open>nat_linux.go\<close>

definition masq_rule :: "string \<Rightarrow> string \<Rightarrow> string list" where
  "masq_rule tun subnet = [''-s'', subnet, ''!'', ''-o'', tun, ''-j'', ''MASQUERADE'']"

definition TeardownNATMasquerade :: "'k host \<Rightarrow> string \<Rightarrow> string \<Rightarrow> ('k, unit) call" where
  "TeardownNATMasquerade H tun subnet = (if subnet = [] then ret ()
     else bnd (ipt_New H) (\<lambda>_.
       bnd (ignore (ipt_Delete H ''nat'' ''POSTROUTING'' (masq_rule tun subnet))) (\<lambda>_.
       ignore (ipt_Delete H ''nat'' ''POSTROUTING'' [''-s'', subnet, ''-p'', ''icmp'', ''-j'', ''MASQUERADE'']))))"

definition SetupNATMasquerade :: "'k host \<Rightarrow> string \<Rightarrow> string \<Rightarrow> ('k, unit) call" where
  "SetupNATMasquerade H tun subnet = (if subnet = [] then ret ()
     else bnd (ipt_New H) (\<lambda>_.
       bnd (ignore (TeardownNATMasquerade H tun subnet)) (\<lambda>_.
       ipt_Insert H ''nat'' ''POSTROUTING'' 1 (masq_rule tun subnet))))"

text \<open>routing_linux.go; the mark is converted to 32 bits.\<close>

definition SetupReturnRoute :: "'k host \<Rightarrow> int \<Rightarrow> int \<Rightarrow> ('k, unit) call" where
  "SetupReturnRoute H fwmark table =
     bnd (ignore (nl_RuleAdd H (fwmark mod 2 ^ 32, table))) (\<lambda>_.
     bnd (nl_LinkByName H ''lo'') (\<lambda>lo.
     attempt (nl_RouteReplace H \<lparr>rt_table = table, rt_link = lo\<rparr>) (\<lambda>r. case r of
       Inl e \<Rightarrow> fail (Wrap (''route replace table='' @ itoa table) e)
     | Inr _ \<Rightarrow> ret ())))"

definition TeardownReturnRoute :: "'k host \<Rightarrow> int \<Rightarrow> int \<Rightarrow> ('k, unit) call" where
  "TeardownReturnRoute H fwmark table =
     bnd (nl_RuleList H) (\<lambda>rules.
     bnd (for_each (\<lambda>ru. ignore (nl_RuleDel H ru)) (filter (\<lambda>ru. ru = (fwmark mod 2 ^ 32, table)) rules)) (\<lambda>_.
     bnd (nl_RouteList H table) (\<lambda>rs.
     for_each (\<lambda>r. ignore (nl_RouteDel H r)) rs)))"

text \<open>tproxy_linux.go\<close>

definition defaultMSSClamp :: int where "defaultMSSClamp = 1280"

definition dropQUICVision :: "string \<Rightarrow> bool" where
  "dropQUICVision vlessFlow = (let f = to_lower (trim_space vlessFlow) in
     f \<noteq> [] \<and> \<not> contains_sub f ''vision-udp443'' \<and> contains_sub f ''vision'')"

definition tproxy_chain :: "int \<Rightarrow> string" where
  "tproxy_chain tunnelID = ''XRAY2WG_'' @ itoa tunnelID"

definition jump_rule :: "string \<Rightarrow> int \<Rightarrow> string list" where
  "jump_rule tun tunnelID = [''-i'', tun, ''-j'', tproxy_chain tunnelID]"

text \<open>The rules of the chain, in order.\<close>

definition tproxy_rules :: "int \<Rightarrow> int \<Rightarrow> string \<Rightarrow> string \<Rightarrow> int \<Rightarrow> string list list" where
  "tproxy_rules xrayPort fwmark localGatewayIP vlessFlow mss = (let mark = itoa fwmark; port = itoa xrayPort; g = trim_space localGatewayIP in
     (if g \<noteq> [] then [[''-d'', g, ''-p'', ''udp'', ''-m'', ''udp'', ''--dport'', ''53'', ''-j'', ''RETURN''],
                     [''-d'', g, ''-p'', ''tcp'', ''-m'', ''tcp'', ''--dport'', ''53'', ''-j'', ''RETURN'']] else [])
     @ [[''-p'', ''icmp'', ''-j'', ''RETURN''],
        [''-p'', ''tcp'', ''-m'', ''tcp'', ''--tcp-flags'', ''SYN,RST'', ''SYN'', ''-j'', ''TCPMSS'', ''--set-mss'', itoa mss],
        [''-p'', ''tcp'', ''-j'', ''TPROXY'', ''--on-port'', port, ''--tproxy-mark'', mark]]
     @ (if dropQUICVision vlessFlow then [[''-p'', ''udp'', ''-m'', ''udp'', ''--dport'', ''443'', ''-j'', ''DROP'']] else [])
     @ [[''-p'', ''udp'', ''-j'', ''TPROXY'', ''--on-port'', port, ''--tproxy-mark'', mark],
        [''-j'', ''RETURN'']])"

definition SetupTProxy :: "'k host \<Rightarrow> int \<Rightarrow> string \<Rightarrow> int \<Rightarrow> int \<Rightarrow> string \<Rightarrow> string \<Rightarrow> int \<Rightarrow> ('k, unit) call" where
  "SetupTProxy H tunnelID tun xrayPort fwmark localGatewayIP vlessFlow mssClamp =
    (let mss = (if mssClamp \<le> 0 then defaultMSSClamp else mssClamp); chain = tproxy_chain tunnelID in
     bnd (ipt_New H) (\<lambda>_.
     bnd (attempt (ipt_ChainExists H ''mangle'' chain) (\<lambda>ex.
        if ex = Inr True then ignore (ipt_ClearChain H ''mangle'' chain) else ipt_NewChain H ''mangle'' chain)) (\<lambda>_.
     bnd (ignore (ipt_Delete H ''mangle'' ''PREROUTING'' (jump_rule tun tunnelID))) (\<lambda>_.
     bnd (for_each (ipt_Append H ''mangle'' chain) (tproxy_rules xrayPort fwmark localGatewayIP vlessFlow mss)) (\<lambda>_.
     ipt_Append H ''mangle'' ''PREROUTING'' (jump_rule tun tunnelID))))))"

definition TeardownTProxy :: "'k host \<Rightarrow> int \<Rightarrow> string \<Rightarrow> int \<Rightarrow> ('k, unit) call" where
  "TeardownTProxy H tunnelID tun fwmark = bnd (ipt_New H) (\<lambda>_.
     bnd (ignore (ipt_Delete H ''mangle'' ''PREROUTING'' (jump_rule tun tunnelID))) (\<lambda>_.
     attempt (ipt_ChainExists H ''mangle'' (tproxy_chain tunnelID)) (\<lambda>ok. if ok \<noteq> Inr True then ret ()
       else bnd (ignore (ipt_ClearChain H ''mangle'' (tproxy_chain tunnelID))) (\<lambda>_.
         ignore (ipt_DeleteChain H ''mangle'' (tproxy_chain tunnelID))))))"

text \<open>address_linux.go, tun_sysctl_linux.go, sysctl_linux.go\<close>

definition AssignTUN :: "'k host \<Rightarrow> string \<Rightarrow> string \<Rightarrow> ('k, unit) call" where
  "AssignTUN H tun cidr = bnd (nl_LinkByName H tun) (\<lambda>link.
     bnd (lift (nl_ParseAddr H cidr)) (\<lambda>addr.
     bnd (ignore (nl_AddrReplace H link addr)) (\<lambda>_.
     nl_LinkSetUp H link)))"

definition PrepareTunForTransparentProxy :: "'k host \<Rightarrow> string \<Rightarrow> ('k, unit) call" where
  "PrepareTunForTransparentProxy H tun = for_each (\<lambda>(name, val).
     ignore (os_WriteFile H (''/proc/sys/net/ipv4/conf/'' @ tun @ ''/'' @ name) (val @ [CHR 0x0A])))
     [(''rp_filter'', ''0''), (''accept_local'', ''1'')]"

definition EnableForwarding :: "'k host \<Rightarrow> ('k, unit) call" where
  "EnableForwarding H =
     attempt (os_WriteFile H ''/proc/sys/net/ipv4/ip_forward'' [CHR ''1'', CHR 0x0A]) (\<lambda>e4.
     attempt (os_WriteFile H ''/proc/sys/net/ipv6/conf/all/forwarding'' [CHR ''1'', CHR 0x0A]) (\<lambda>e6.
     case (e4, e6) of (Inl a, Inl b) \<Rightarrow> fail (Wrap ''cannot write sysctl (read-only /proc?): ipv4'' a) | _ \<Rightarrow> ret ()))"

end
