(* ===== verification/Triples.thy ===== *)
theory Triples
  imports Db
begin

text \<open>
  Partial correctness of calls, statement failures included: \<open>valid P m Q E\<close> says that from a state with \<open>P\<close>
  the call \<open>m\<close> returns a value and a state with \<open>Q\<close>, or an error and a state with \<open>E\<close>. The rules follow the
  code: one per combinator, and one each for a query, a writing statement and a transaction, whatever
  statement \<open>db_fault\<close> makes fail.
\<close>

named_theorems valid_intro "rules for the triples of calls"

definition valid :: "('s \<Rightarrow> bool) \<Rightarrow> ('s, 'e, 'a) go \<Rightarrow> ('a \<Rightarrow> 's \<Rightarrow> bool) \<Rightarrow> ('s \<Rightarrow> bool) \<Rightarrow> bool" where
  "valid P m Q E \<longleftrightarrow> (\<forall>s. P s \<longrightarrow> (case m s of (Inr x, t) \<Rightarrow> Q x t | (Inl e, t) \<Rightarrow> E t))"

lemma validI: "(\<And>s. P s \<Longrightarrow> case m s of (Inr x, t) \<Rightarrow> Q x t | (Inl e, t) \<Rightarrow> E t) \<Longrightarrow> valid P m Q E"
  by (simp add: valid_def)

lemma valid_ok: "valid P m Q E \<Longrightarrow> P s \<Longrightarrow> m s = (Inr x, t) \<Longrightarrow> Q x t"
  by (auto simp: valid_def)

lemma valid_err: "valid P m Q E \<Longrightarrow> P s \<Longrightarrow> m s = (Inl e, t) \<Longrightarrow> E t"
  by (auto simp: valid_def)

lemma valid_weaken:
  "valid P m Q E \<Longrightarrow> (\<And>s. P' s \<Longrightarrow> P s) \<Longrightarrow> (\<And>x s. Q x s \<Longrightarrow> Q' x s) \<Longrightarrow> (\<And>s. E s \<Longrightarrow> E' s) \<Longrightarrow> valid P' m Q' E'"
  by (fastforce simp: valid_def split: prod.splits sum.splits)

lemma valid_bnd [valid_intro]:
  "valid P m R E \<Longrightarrow> (\<And>x. valid (R x) (f x) Q E) \<Longrightarrow> valid P (bnd m f) Q E"
  by (fastforce simp: valid_def bnd_def split: prod.splits sum.splits)

lemma valid_attempt:
  assumes "valid P m (\<lambda>x. R (Inr x)) E'" "\<And>e s. E' s \<Longrightarrow> R (Inl e) s" "\<And>r. valid (R r) (f r) Q E"
  shows "valid P (attempt m f) Q E"
proof (rule validI)
  fix s assume s: "P s"
  obtain r t where m: "m s = (r, t)" by fastforce
  have "R r t"
  proof (cases r)
    case (Inl e) with assms(2) valid_err [OF assms(1) s] m show ?thesis by simp
  next
    case (Inr x) with valid_ok [OF assms(1) s] m show ?thesis by simp
  qed
  with assms(3) [of r] m show "case attempt m f s of (Inr x, t) \<Rightarrow> Q x t | (Inl e, t) \<Rightarrow> E t"
    by (simp add: valid_def attempt_def)
qed

lemma valid_ret: "(\<And>s. P s \<Longrightarrow> Q x s) \<Longrightarrow> valid P (ret x) Q E"
  by (simp add: valid_def ret_def)

lemma valid_fail: "(\<And>s. P s \<Longrightarrow> E s) \<Longrightarrow> valid P (fail e) Q E"
  by (simp add: valid_def fail_def)

lemma valid_lift: "(\<And>s. P s \<Longrightarrow> E s) \<Longrightarrow> (\<And>x s. r = Inr x \<Longrightarrow> P s \<Longrightarrow> Q x s) \<Longrightarrow> valid P (lift r) Q E"
  by (auto simp: valid_def lift_def split: sum.splits)

lemma valid_if: "(b \<Longrightarrow> valid P m Q E) \<Longrightarrow> (\<not> b \<Longrightarrow> valid P n Q E) \<Longrightarrow> valid P (if b then m else n) Q E"
  by simp

lemma valid_case_option:
  "(v = None \<Longrightarrow> valid P m Q E) \<Longrightarrow> (\<And>x. v = Some x \<Longrightarrow> valid P (f x) Q E)
   \<Longrightarrow> valid P (case v of None \<Rightarrow> m | Some x \<Rightarrow> f x) Q E"
  by (simp split: option.split)

lemma valid_pre: "(\<And>s. P s \<Longrightarrow> b) \<Longrightarrow> (b \<Longrightarrow> valid P m Q E) \<Longrightarrow> valid P m Q E"
  by (auto simp: valid_def)

lemma valid_query:
  assumes "\<And>d. P d \<Longrightarrow> E (tick d)" "\<And>d. P d \<Longrightarrow> Q (f (tick d)) (tick d)"
  shows "valid P (query f) Q E"
  using assms by (auto simp: valid_def query_def stmt_def split: option.splits)

lemma valid_exec:
  assumes "\<And>d. P d \<Longrightarrow> E (tick d)"
    and "\<And>d. P d \<Longrightarrow> unique_ok (snd (f (tick d))) \<Longrightarrow> refs_ok (snd (f (tick d))) \<Longrightarrow> Q (fst (f (tick d))) (snd (f (tick d)))"
  shows "valid P (exec f) Q E"
proof (rule validI)
  fix d assume d: "P d"
  obtain r t where f: "f (tick d) = (r, t)" by fastforce
  show "case exec f d of (Inr x, t) \<Rightarrow> Q x t | (Inl e, t) \<Rightarrow> E t"
    using assms(1) [OF d] assms(2) [OF d] by (simp add: exec_def stmt_def dml_def f split: option.split)
qed

lemma valid_tx:
  assumes "valid P m Q E'" "\<And>d n. P d \<Longrightarrow> E (d\<lparr>db_clock := n\<rparr>)" "\<And>x d n. Q x d \<Longrightarrow> Q x (d\<lparr>db_clock := n\<rparr>)"
  shows "valid P (tx m) Q E"
proof (rule validI)
  fix d assume d: "P d"
  obtain r t where m: "m d = (r, t)" by fastforce
  then show "case tx m d of (Inr x, t) \<Rightarrow> Q x t | (Inl e, t) \<Rightarrow> E t"
    using assms valid_ok [OF assms(1) d] d
    by (auto simp: tx_def tick_def split: sum.splits option.splits)
qed

text \<open>A triple whose three assertions are one invariant is preservation.\<close>

lemma valid_preserves: "valid I m (\<lambda>x. I) I \<longleftrightarrow> preserves I m"
proof -
  have "(case m s of (Inr x, t) \<Rightarrow> I t | (Inl e, t) \<Rightarrow> I t) = I (snd (m s))" for s
    by (simp split: prod.split sum.split)
  then show ?thesis by (simp add: valid_def preserves_def)
qed

end
