(* ===== verification/HostLaw.thy ===== *)
theory HostLaw
  imports Host Triples
begin

text \<open>
  What the program relies on of the host's libraries, as laws about a view of the kernel: the chains of the
  packet filter with their rules in order, the policy rules, the routes, the open WireGuard devices and the
  running Xray instances. A call that adds something may fail, and then changes nothing; a removal fails when
  what it removes is not there. From these laws: what each function of netconf does to the view.
\<close>

section \<open>The view and the laws\<close>

record net_view =
  nv_chain :: "string \<Rightarrow> string \<Rightarrow> string list list option"
  nv_marks :: "(int \<times> int) list"
  nv_routes :: "route list"
  nv_devs :: "nat list"
  nv_live :: "nat list"

definition rules :: "net_view \<Rightarrow> string \<Rightarrow> string \<Rightarrow> string list list" where
  "rules v t c = (case nv_chain v t c of None \<Rightarrow> [] | Some rs \<Rightarrow> rs)"

definition set_chain :: "string \<Rightarrow> string \<Rightarrow> string list list option \<Rightarrow> net_view \<Rightarrow> net_view" where
  "set_chain t c x v = v\<lparr>nv_chain := (nv_chain v)(t := (nv_chain v t)(c := x))\<rparr>"

definition on_chain :: "string \<Rightarrow> string \<Rightarrow> (string list list \<Rightarrow> string list list) \<Rightarrow> net_view \<Rightarrow> net_view" where
  "on_chain t c f v = set_chain t c (map_option f (nv_chain v t c)) v"

definition del :: "string \<Rightarrow> string \<Rightarrow> string list \<Rightarrow> net_view \<Rightarrow> net_view" where
  "del t c r = on_chain t c (remove1 r)"

definition acts :: "('k \<Rightarrow> net_view) \<Rightarrow> ('k, 'r) call \<Rightarrow> ('r \<Rightarrow> net_view \<Rightarrow> net_view) \<Rightarrow> bool" where
  "acts view m f \<longleftrightarrow> (\<forall>k. case m k of (Inr x, k') \<Rightarrow> view k' = f x (view k) | (Inl e, k') \<Rightarrow> view k' = view k)"

definition removes :: "('k \<Rightarrow> net_view) \<Rightarrow> ('k, unit) call \<Rightarrow> (net_view \<Rightarrow> bool) \<Rightarrow> (net_view \<Rightarrow> net_view) \<Rightarrow> bool" where
  "removes view m p f \<longleftrightarrow> (\<forall>k. case m k of (Inr x, k') \<Rightarrow> p (view k) \<and> view k' = f (view k) | (Inl e, k') \<Rightarrow> \<not> p (view k) \<and> view k' = view k)"

definition reads :: "('k \<Rightarrow> net_view) \<Rightarrow> ('k, 'r) call \<Rightarrow> (net_view \<Rightarrow> 'r) \<Rightarrow> bool" where
  "reads view m g \<longleftrightarrow> (\<forall>k. \<exists>k'. m k = (Inr (g (view k)), k') \<and> view k' = view k)"

text \<open>The packet filter.\<close>

definition ipt_law :: "'k host \<Rightarrow> ('k \<Rightarrow> net_view) \<Rightarrow> bool" where
  "ipt_law H view \<longleftrightarrow> reads view (ipt_New H) (\<lambda>v. ())
     \<and> (\<forall>t c. reads view (ipt_ChainExists H t c) (\<lambda>v. nv_chain v t c \<noteq> None)
        \<and> acts view (ipt_NewChain H t c) (\<lambda>_. set_chain t c (Some []))
        \<and> acts view (ipt_ClearChain H t c) (\<lambda>_. set_chain t c (Some []))
        \<and> acts view (ipt_DeleteChain H t c) (\<lambda>_. set_chain t c None)
        \<and> (\<forall>r. acts view (ipt_Insert H t c 1 r) (\<lambda>_. on_chain t c ((#) r))
             \<and> (\<forall>k k'. ipt_Insert H t c 1 r k = (Inr (), k') \<longrightarrow> nv_chain (view k) t c \<noteq> None)
             \<and> acts view (ipt_Append H t c r) (\<lambda>_. on_chain t c (\<lambda>rs. rs @ [r]))
             \<and> (\<forall>k k'. ipt_Append H t c r k = (Inr (), k') \<longrightarrow> nv_chain (view k) t c \<noteq> None)
             \<and> removes view (ipt_Delete H t c r) (\<lambda>v. r \<in> set (rules v t c)) (del t c r)))"

text \<open>Policy rules and routes, devices and instances.\<close>

definition net_law :: "'k host \<Rightarrow> ('k \<Rightarrow> net_view) \<Rightarrow> bool" where
  "net_law H view \<longleftrightarrow>
     (\<forall>r. acts view (nl_RuleAdd H r) (\<lambda>_ v. v\<lparr>nv_marks := nv_marks v @ [r]\<rparr>)
        \<and> removes view (nl_RuleDel H r) (\<lambda>v. r \<in> set (nv_marks v)) (\<lambda>v. v\<lparr>nv_marks := remove1 r (nv_marks v)\<rparr>))
     \<and> reads view (nl_RuleList H) nv_marks
     \<and> (\<forall>r. acts view (nl_RouteReplace H r) (\<lambda>_ v. v\<lparr>nv_routes := r # filter (\<lambda>q. rt_table q \<noteq> rt_table r) (nv_routes v)\<rparr>)
        \<and> removes view (nl_RouteDel H r) (\<lambda>v. r \<in> set (nv_routes v)) (\<lambda>v. v\<lparr>nv_routes := remove1 r (nv_routes v)\<rparr>))
     \<and> (\<forall>t. reads view (nl_RouteList H t) (\<lambda>v. filter (\<lambda>q. rt_table q = t) (nv_routes v)))
     \<and> (\<forall>n. acts view (nl_LinkByName H n) (\<lambda>_ v. v)) \<and> (\<forall>l a. acts view (nl_AddrReplace H l a) (\<lambda>_ v. v))
     \<and> (\<forall>l. acts view (nl_LinkSetUp H l) (\<lambda>_ v. v)) \<and> (\<forall>f s. acts view (os_WriteFile H f s) (\<lambda>_ v. v))"

definition dev_law :: "'k host \<Rightarrow> ('k \<Rightarrow> net_view) \<Rightarrow> bool" where
  "dev_law H view \<longleftrightarrow>
     (\<forall>n m. acts view (wg_CreateTUN H n m) (\<lambda>d v. v\<lparr>nv_devs := d # nv_devs v\<rparr>))
     \<and> (\<forall>d k. view (snd (wg_Close H d k)) = (view k)\<lparr>nv_devs := remove1 d (nv_devs (view k))\<rparr>)
     \<and> (\<forall>d s. acts view (wg_IpcSet H d s) (\<lambda>_ v. v)) \<and> (\<forall>n. acts view (wg_UAPIOpen H n) (\<lambda>_ v. v))
     \<and> (\<forall>n f. acts view (wg_UAPIListen H n f) (\<lambda>_ v. v)) \<and> (\<forall>u. acts view (wg_UAPIClose H u) (\<lambda>_ v. v))
     \<and> (\<forall>j. acts view (xr_Load H j) (\<lambda>_ v. v)) \<and> (\<forall>c. acts view (xr_New H c) (\<lambda>_ v. v))
     \<and> (\<forall>i. acts view (xr_Start H i) (\<lambda>_ v. v\<lparr>nv_live := i # nv_live v\<rparr>))
     \<and> (\<forall>i k. view (snd (xr_Close H i k)) = (view k)\<lparr>nv_live := remove1 i (nv_live (view k))\<rparr>)"

definition host_law :: "'k host \<Rightarrow> ('k \<Rightarrow> net_view) \<Rightarrow> bool" where
  "host_law H view \<longleftrightarrow> ipt_law H view \<and> net_law H view \<and> dev_law H view"

text \<open>The laws one by one.\<close>

lemma ipt_laws:
  assumes "ipt_law H view"
  shows "reads view (ipt_New H) (\<lambda>v. ())" "reads view (ipt_ChainExists H t c) (\<lambda>v. nv_chain v t c \<noteq> None)"
    "acts view (ipt_NewChain H t c) (\<lambda>_. set_chain t c (Some []))" "acts view (ipt_ClearChain H t c) (\<lambda>_. set_chain t c (Some []))"
    "acts view (ipt_DeleteChain H t c) (\<lambda>_. set_chain t c None)"
    "acts view (ipt_Insert H t c 1 r) (\<lambda>_. on_chain t c ((#) r))" "acts view (ipt_Append H t c r) (\<lambda>_. on_chain t c (\<lambda>rs. rs @ [r]))"
    "removes view (ipt_Delete H t c r) (\<lambda>v. r \<in> set (rules v t c)) (del t c r)"
    "ipt_Insert H t c 1 r k = (Inr (), k') \<Longrightarrow> nv_chain (view k) t c \<noteq> None"
    "ipt_Append H t c r k = (Inr (), k') \<Longrightarrow> nv_chain (view k) t c \<noteq> None"
  using assms unfolding ipt_law_def by blast+

lemma net_laws:
  assumes "net_law H view"
  shows "acts view (nl_RuleAdd H q) (\<lambda>_ v. v\<lparr>nv_marks := nv_marks v @ [q]\<rparr>)"
    "removes view (nl_RuleDel H q) (\<lambda>v. q \<in> set (nv_marks v)) (\<lambda>v. v\<lparr>nv_marks := remove1 q (nv_marks v)\<rparr>)"
    "reads view (nl_RuleList H) nv_marks"
    "acts view (nl_RouteReplace H r) (\<lambda>_ v. v\<lparr>nv_routes := r # filter (\<lambda>p. rt_table p \<noteq> rt_table r) (nv_routes v)\<rparr>)"
    "removes view (nl_RouteDel H r) (\<lambda>v. r \<in> set (nv_routes v)) (\<lambda>v. v\<lparr>nv_routes := remove1 r (nv_routes v)\<rparr>)"
    "reads view (nl_RouteList H t) (\<lambda>v. filter (\<lambda>p. rt_table p = t) (nv_routes v))"
    "acts view (nl_LinkByName H n) (\<lambda>_ v. v)" "acts view (nl_AddrReplace H l a) (\<lambda>_ v. v)"
    "acts view (nl_LinkSetUp H l) (\<lambda>_ v. v)" "acts view (os_WriteFile H f s) (\<lambda>_ v. v)"
  using assms unfolding net_law_def by blast+

lemma dev_laws:
  assumes "dev_law H view"
  shows "acts view (wg_CreateTUN H n mtu) (\<lambda>d v. v\<lparr>nv_devs := d # nv_devs v\<rparr>)"
    "view (snd (wg_Close H d k)) = (view k)\<lparr>nv_devs := remove1 d (nv_devs (view k))\<rparr>"
    "acts view (wg_IpcSet H d s) (\<lambda>_ v. v)" "acts view (wg_UAPIOpen H n) (\<lambda>_ v. v)"
    "acts view (wg_UAPIListen H n u) (\<lambda>_ v. v)" "acts view (wg_UAPIClose H u) (\<lambda>_ v. v)"
    "acts view (xr_Load H j) (\<lambda>_ v. v)" "acts view (xr_New H c) (\<lambda>_ v. v)"
    "acts view (xr_Start H i) (\<lambda>_ v. v\<lparr>nv_live := i # nv_live v\<rparr>)"
    "view (snd (xr_Close H i k)) = (view k)\<lparr>nv_live := remove1 i (nv_live (view k))\<rparr>"
  using assms unfolding dev_law_def by blast+

section \<open>Rules after a change\<close>

lemma chain_set [simp]: "nv_chain (set_chain t c x v) t' c' = (if t' = t \<and> c' = c then x else nv_chain v t' c')"
  by (simp add: set_chain_def)

lemma rules_set [simp]: "rules (set_chain t c x v) t' c' = (if t' = t \<and> c' = c then (case x of None \<Rightarrow> [] | Some rs \<Rightarrow> rs) else rules v t' c')"
  by (simp add: rules_def)

lemma chain_on [simp]: "nv_chain (on_chain t c f v) t' c' = (if t' = t \<and> c' = c then map_option f (nv_chain v t c) else nv_chain v t' c')"
  by (simp add: on_chain_def)

lemma rules_on: "nv_chain v t c \<noteq> None \<Longrightarrow> rules (on_chain t c f v) t' c' = (if t' = t \<and> c' = c then f (rules v t c) else rules v t' c')"
  by (auto simp: rules_def)

lemma rules_del [simp]: "rules (del t c r v) t' c' = (if t' = t \<and> c' = c then remove1 r (rules v t c) else rules v t' c')"
  by (cases "nv_chain v t c") (auto simp: del_def rules_def)

section \<open>Triples over the view\<close>

text \<open>\<open>vtriple\<close> is \<open>valid\<close> for assertions about the view.\<close>

definition vtriple :: "('k \<Rightarrow> net_view) \<Rightarrow> (net_view \<Rightarrow> bool) \<Rightarrow> ('k, 'r) call \<Rightarrow> ('r \<Rightarrow> net_view \<Rightarrow> bool) \<Rightarrow> (net_view \<Rightarrow> bool) \<Rightarrow> bool" where
  "vtriple view P m Q E \<longleftrightarrow> valid (\<lambda>k. P (view k)) m (\<lambda>x k. Q x (view k)) (\<lambda>k. E (view k))"

lemma vt_acts: "acts view m f \<Longrightarrow> (\<And>v. P v \<Longrightarrow> E v) \<Longrightarrow> (\<And>x v. P v \<Longrightarrow> Q x (f x v)) \<Longrightarrow> vtriple view P m Q E"
  by (fastforce simp: vtriple_def valid_def acts_def split: prod.splits sum.splits)

lemma vt_reads:
  assumes "reads view m g" "\<And>v. P v \<Longrightarrow> Q (g v) v" shows "vtriple view P m Q E"
  unfolding vtriple_def
proof (rule validI)
  fix k assume "P (view k)"
  moreover obtain k' where "m k = (Inr (g (view k)), k')" "view k' = view k" using assms(1) unfolding reads_def by blast
  ultimately show "case m k of (Inr x, t) \<Rightarrow> Q x (view t) | (Inl e, t) \<Rightarrow> E (view t)" using assms(2) by simp
qed

lemma vt_bnd: "vtriple view P m R E \<Longrightarrow> (\<And>x. vtriple view (R x) (f x) Q E) \<Longrightarrow> vtriple view P (bnd m f) Q E"
  unfolding vtriple_def by (rule valid_bnd)

lemma vt_ret: "(\<And>v. P v \<Longrightarrow> Q x v) \<Longrightarrow> vtriple view P (ret x) Q E"
  unfolding vtriple_def by (rule valid_ret) simp

lemma vt_fail: "(\<And>v. P v \<Longrightarrow> E v) \<Longrightarrow> vtriple view P (fail e) Q E"
  unfolding vtriple_def by (rule valid_fail) simp

lemma vt_weaken: "vtriple view P m Q E \<Longrightarrow> (\<And>v. P' v \<Longrightarrow> P v) \<Longrightarrow> (\<And>x v. Q x v \<Longrightarrow> Q' x v) \<Longrightarrow> (\<And>v. E v \<Longrightarrow> E' v) \<Longrightarrow> vtriple view P' m Q' E'"
  unfolding vtriple_def by (erule valid_weaken) simp_all

lemma vt_pre: "(\<And>v. P v \<Longrightarrow> P' v) \<Longrightarrow> vtriple view P' m Q E \<Longrightarrow> vtriple view P m Q E"
  by (erule vt_weaken)

lemma vt_attempt:
  "vtriple view P m (\<lambda>x. R (Inr x)) E' \<Longrightarrow> (\<And>e v. E' v \<Longrightarrow> R (Inl e) v) \<Longrightarrow> (\<And>r. vtriple view (R r) (f r) Q E) \<Longrightarrow> vtriple view P (attempt m f) Q E"
  unfolding vtriple_def by (rule valid_attempt [where R = "\<lambda>r k. R r (view k)"])

lemma vt_ignore: "vtriple view P m (\<lambda>_. Q) Q \<Longrightarrow> vtriple view P (ignore m) (\<lambda>_. Q) E"
  unfolding ignore_def by (rule vt_attempt [where R = "\<lambda>_. Q"]) (simp_all add: vt_ret)

text \<open>An ignored removal takes the thing away if it is there.\<close>

lemma vt_remove:
  assumes "removes view m p f" "\<And>v. P v \<Longrightarrow> p v \<Longrightarrow> Q (f v)" "\<And>v. P v \<Longrightarrow> \<not> p v \<Longrightarrow> Q v"
  shows "vtriple view P (ignore m) (\<lambda>_. Q) E"
proof (rule vt_ignore)
  show "vtriple view P m (\<lambda>_. Q) Q"
    unfolding vtriple_def
  proof (rule validI)
    fix k assume k: "P (view k)"
    obtain r k' where m: "m k = (r, k')" by fastforce
    show "case m k of (Inr x, t) \<Rightarrow> Q (view t) | (Inl e, t) \<Rightarrow> Q (view t)"
    proof (cases r)
      case (Inl e)
      with assms(1) m have "\<not> p (view k)" "view k' = view k" by (auto simp: removes_def dest!: spec [of _ k])
      with k assms(3) m Inl show ?thesis by simp
    next
      case (Inr x)
      with assms(1) m have "p (view k)" "view k' = f (view k)" by (auto simp: removes_def dest!: spec [of _ k])
      with k assms(2) m Inr show ?thesis by simp
    qed
  qed
qed

lemma vt_frame: "acts view m (\<lambda>_ v. v) \<Longrightarrow> vtriple view P m (\<lambda>_. P) P"
  by (rule vt_acts) simp_all

end
