(* ===== verification/HostRules.thy ===== *)
theory HostRules
  imports HostLaw
begin

text \<open>
  The rules of a tunnel among all rules of the host. A tunnel owns a fixed set of rules in shared chains (the
  jump into its mangle chain, the ACCEPT rules for its device, the MASQUERADE rules of its subnet) and its own
  mangle chain. \<open>stays\<close> says that every other rule is where it was and that of the tunnel's own rules at most
  those of a given set are there, each at most once. What each function of netconf does to that set.
\<close>

section \<open>The tunnel's rules\<close>

type_synonym place = "string \<times> string \<times> string list"

definition jump_at :: "int \<Rightarrow> string \<Rightarrow> place" where
  "jump_at i tun = (''mangle'', ''PREROUTING'', jump_rule tun i)"

definition accepts_at :: "string \<Rightarrow> string \<Rightarrow> place set" where
  "accepts_at ch tun = {(''filter'', ch, fst (accept_rules tun)), (''filter'', ch, snd (accept_rules tun))}"

definition forwards_at :: "string \<Rightarrow> place set" where
  "forwards_at tun = accepts_at ''FORWARD'' tun \<union> accepts_at ''DOCKER-USER'' tun"

definition masq_at :: "string \<Rightarrow> string \<Rightarrow> place" where
  "masq_at tun subnet = (''nat'', ''POSTROUTING'', masq_rule tun subnet)"

definition old_masq_at :: "string \<Rightarrow> place" where
  "old_masq_at subnet = (''nat'', ''POSTROUTING'', [''-s'', subnet, ''-p'', ''icmp'', ''-j'', ''MASQUERADE''])"

definition tunnel_rules :: "int \<Rightarrow> string \<Rightarrow> string \<Rightarrow> place set" where
  "tunnel_rules i tun subnet = insert (jump_at i tun) (forwards_at tun \<union> {masq_at tun subnet, old_masq_at subnet})"

lemmas places = jump_at_def accepts_at_def forwards_at_def masq_at_def old_masq_at_def tunnel_rules_def accept_rules_def jump_rule_def masq_rule_def

definition own_chain :: "int \<Rightarrow> string \<Rightarrow> string \<Rightarrow> bool" where
  "own_chain i t c \<longleftrightarrow> t = ''mangle'' \<and> c = tproxy_chain i"

lemma tproxy_chain_not [simp]: "tproxy_chain i \<noteq> ''PREROUTING''" "''PREROUTING'' \<noteq> tproxy_chain i"
  by (simp_all add: tproxy_chain_def)

text \<open>The rules that are not the tunnel's, chain by chain.\<close>

definition foreign :: "place set \<Rightarrow> net_view \<Rightarrow> string \<Rightarrow> string \<Rightarrow> string list list" where
  "foreign U v t c = filter (\<lambda>r. (t, c, r) \<notin> U) (rules v t c)"

definition stays :: "int \<Rightarrow> place set \<Rightarrow> (string \<Rightarrow> string \<Rightarrow> string list list) \<Rightarrow> place set \<Rightarrow> net_view \<Rightarrow> bool" where
  "stays i U F S v \<longleftrightarrow> (\<forall>t c. \<not> own_chain i t c \<longrightarrow> foreign U v t c = F t c
     \<and> (\<forall>r. (t, c, r) \<in> U \<longrightarrow> count_list (rules v t c) r \<le> (if (t, c, r) \<in> S then 1 else 0)))"

lemma stays_mono: "stays i U F S v \<Longrightarrow> S \<subseteq> S' \<Longrightarrow> stays i U F S' v"
  unfolding stays_def by (fastforce split: if_splits)

lemma stays_rules: "(\<And>t c. \<not> own_chain i t c \<Longrightarrow> rules v' t c = rules v t c) \<Longrightarrow> stays i U F S v' = stays i U F S v"
  by (simp add: stays_def foreign_def)

lemma stays_own_chain: "own_chain i t c \<Longrightarrow> stays i U F S (set_chain t c x v) = stays i U F S v"
  by (rule stays_rules) auto

lemma stays_own_on: "own_chain i t c \<Longrightarrow> stays i U F S (on_chain t c f v) = stays i U F S v"
  unfolding on_chain_def by (rule stays_own_chain)

lemma count_list_remove1: "count_list (remove1 r xs) q = (if q = r then count_list xs r - 1 else count_list xs q)"
  by (induction xs) (auto simp: count_list_0_iff dest: count_list_0_iff [THEN iffD2])

text \<open>A clean host: none of the tunnel's rules is there.\<close>

lemma foreign_all: "(\<And>r. (t, c, r) \<in> U \<Longrightarrow> r \<notin> set (rules v t c)) \<Longrightarrow> foreign U v t c = rules v t c"
  unfolding foreign_def by (rule filter_True) blast

lemma stays_clean:
  "stays i U F {} v \<longleftrightarrow> (\<forall>t c. \<not> own_chain i t c \<longrightarrow> rules v t c = F t c \<and> (\<forall>r. (t, c, r) \<in> U \<longrightarrow> r \<notin> set (F t c)))"
proof -
  have "foreign U v t c = F t c \<and> (\<forall>r. (t, c, r) \<in> U \<longrightarrow> r \<notin> set (rules v t c))
     \<longleftrightarrow> rules v t c = F t c \<and> (\<forall>r. (t, c, r) \<in> U \<longrightarrow> r \<notin> set (F t c))" for t c
    using foreign_all [of t c U v] by (metis (no_types, lifting))
  then show ?thesis by (simp add: stays_def count_list_0_iff)
qed

section \<open>One change\<close>

lemma stays_add:
  assumes "stays i U F S v" "(t, c, r) \<in> U" "(t, c, r) \<notin> S" "\<And>xs. filter (\<lambda>q. q \<noteq> r) (f xs) = filter (\<lambda>q. q \<noteq> r) xs"
    "\<And>xs q. count_list (f xs) q \<le> count_list xs q + (if q = r then 1 else 0)"
  shows "stays i U F (insert (t, c, r) S) (on_chain t c f v)"
proof (cases "nv_chain v t c")
  case None
  then have "stays i U F S (on_chain t c f v) = stays i U F S v" by (intro stays_rules) (auto simp: rules_def)
  with assms(1) show ?thesis using stays_mono by blast
next
  case (Some xs)
  have other: "foreign U (on_chain t c f v) t' c' = foreign U v t' c'" for t' c'
  proof -
    have "filter (\<lambda>q. (t, c, q) \<notin> U) ys = filter (\<lambda>q. (t, c, q) \<notin> U) (filter (\<lambda>q. q \<noteq> r) ys)" for ys
      using assms(2) by (auto intro: filter_cong)
    with assms(4) have "filter (\<lambda>q. (t, c, q) \<notin> U) (f ys) = filter (\<lambda>q. (t, c, q) \<notin> U) ys" for ys by metis
    with Some show ?thesis by (simp add: foreign_def rules_on)
  qed
  have "count_list (rules (on_chain t c f v) t' c') q \<le> (if (t', c', q) \<in> insert (t, c, r) S then 1 else 0)"
    if "\<not> own_chain i t' c'" "(t', c', q) \<in> U" for t' c' q
  proof -
    have c: "count_list (rules v t' c') q \<le> (if (t', c', q) \<in> S then 1 else 0)" using assms(1) that by (simp add: stays_def)
    show ?thesis
    proof (cases "t' = t \<and> c' = c")
      case True
      with Some have "count_list (rules (on_chain t c f v) t' c') q \<le> count_list (rules v t' c') q + (if q = r then 1 else 0)"
        using assms(5) by (simp add: rules_on)
      with c True assms(3) show ?thesis by (cases "q = r"; cases "(t', c', q) \<in> S") auto
    next
      case False
      with Some have "rules (on_chain t c f v) t' c' = rules v t' c'" by (auto simp: rules_on)
      with c False show ?thesis by (cases "(t', c', q) \<in> S") auto
    qed
  qed
  with other assms(1) show ?thesis by (simp add: stays_def)
qed

lemma stays_del:
  assumes "stays i U F S v" "(t, c, r) \<in> U"
  shows "stays i U F (S - {(t, c, r)}) (del t c r v)"
proof -
  have "filter (\<lambda>q. (t, c, q) \<notin> U) (remove1 r xs) = filter (\<lambda>q. (t, c, q) \<notin> U) xs" for xs
    using assms(2) by (simp add: filter_remove1 remove1_idem)
  then have "foreign U (del t c r v) t' c' = foreign U v t' c'" for t' c' by (simp add: foreign_def)
  moreover have "count_list (rules (del t c r v) t' c') q \<le> (if (t', c', q) \<in> S - {(t, c, r)} then 1 else 0)"
    if "\<not> own_chain i t' c'" "(t', c', q) \<in> U" for t' c' q
  proof -
    have c: "count_list (rules v t' c') q \<le> (if (t', c', q) \<in> S then 1 else 0)" using assms(1) that by (simp add: stays_def)
    then have "count_list (rules v t' c') q \<le> 1" by (simp split: if_splits)
    show ?thesis
    proof (cases "t' = t \<and> c' = c \<and> q = r")
      case True
      with \<open>count_list (rules v t' c') q \<le> 1\<close> show ?thesis by (simp add: count_list_remove1)
    next
      case False
      then have "count_list (rules (del t c r v) t' c') q = count_list (rules v t' c') q" by (auto simp: count_list_remove1)
      moreover have "(t', c', q) \<noteq> (t, c, r)" using False by simp
      ultimately show ?thesis using c by simp
    qed
  qed
  ultimately show ?thesis using assms(1) by (simp add: stays_def)
qed

lemma stays_absent: "stays i U F S v \<Longrightarrow> r \<notin> set (rules v t c) \<Longrightarrow> stays i U F (S - {(t, c, r)}) v"
  by (fastforce simp: stays_def count_list_0_iff split: if_splits)

section \<open>The functions of netconf\<close>

text \<open>The calls of the packet filter that netconf makes on the tunnel's places.\<close>

lemma stays_Cons:
  "stays i U F S v \<Longrightarrow> (t, c, r) \<in> U \<Longrightarrow> (t, c, r) \<notin> S \<Longrightarrow> stays i U F (insert (t, c, r) S) (on_chain t c ((#) r) v)"
  by (rule stays_add) auto

lemma stays_snoc:
  "stays i U F S v \<Longrightarrow> (t, c, r) \<in> U \<Longrightarrow> (t, c, r) \<notin> S \<Longrightarrow> stays i U F (insert (t, c, r) S) (on_chain t c (\<lambda>xs. xs @ [r]) v)"
  by (rule stays_add) auto

lemma vt_insert:
  assumes "ipt_law H view" "(t, c, r) \<in> U" "(t, c, r) \<notin> S"
  shows "vtriple view (stays i U F S) (ipt_Insert H t c 1 r) (\<lambda>_. stays i U F (insert (t, c, r) S)) (stays i U F S)"
proof -
  have "acts view (ipt_Insert H t c 1 r) (\<lambda>_. on_chain t c ((#) r))" using assms(1) by (simp add: ipt_law_def)
  then show ?thesis by (rule vt_acts) (simp_all add: stays_Cons assms(2,3))
qed

lemma vt_append:
  assumes "ipt_law H view" "(t, c, r) \<in> U" "(t, c, r) \<notin> S"
  shows "vtriple view (stays i U F S) (ipt_Append H t c r) (\<lambda>_. stays i U F (insert (t, c, r) S)) (stays i U F S)"
proof -
  have "acts view (ipt_Append H t c r) (\<lambda>_. on_chain t c (\<lambda>rs. rs @ [r]))" using assms(1) by (simp add: ipt_law_def)
  then show ?thesis by (rule vt_acts) (simp_all add: stays_snoc assms(2,3))
qed

lemma vt_delete:
  assumes "ipt_law H view" "(t, c, r) \<in> U"
  shows "vtriple view (stays i U F S) (ignore (ipt_Delete H t c r)) (\<lambda>_. stays i U F (S - {(t, c, r)})) E"
proof -
  have "removes view (ipt_Delete H t c r) (\<lambda>v. r \<in> set (rules v t c)) (del t c r)" using assms(1) by (simp add: ipt_law_def)
  then show ?thesis by (rule vt_remove) (auto intro: stays_del stays_absent assms(2))
qed

lemma vt_ipt_New: "ipt_law H view \<Longrightarrow> vtriple view P (ipt_New H) (\<lambda>_. P) E"
  by (rule vt_reads [OF ipt_laws(1)])

lemma vt_exists: "ipt_law H view \<Longrightarrow> vtriple view P (ipt_ChainExists H t c) (\<lambda>_. P) E"
  by (rule vt_reads [OF ipt_laws(2)])

text \<open>The tunnel's own chain.\<close>

lemma vt_own_chain:
  assumes "ipt_law H view" "own_chain i t c"
  shows "vtriple view (stays i U F S) (ipt_NewChain H t c) (\<lambda>_. stays i U F S) (stays i U F S)"
    "vtriple view (stays i U F S) (ipt_ClearChain H t c) (\<lambda>_. stays i U F S) (stays i U F S)"
    "vtriple view (stays i U F S) (ipt_Append H t c r) (\<lambda>_. stays i U F S) (stays i U F S)"
    "vtriple view (stays i U F S) (ignore (ipt_DeleteChain H t c)) (\<lambda>_. stays i U F S) E"
proof -
  note s = stays_own_chain [OF assms(2)] and on = stays_own_on [OF assms(2)]
  have "acts view (ipt_NewChain H t c) (\<lambda>_. set_chain t c (Some []))" "acts view (ipt_ClearChain H t c) (\<lambda>_. set_chain t c (Some []))"
    using assms(1) by (simp_all add: ipt_law_def)
  then show "vtriple view (stays i U F S) (ipt_NewChain H t c) (\<lambda>_. stays i U F S) (stays i U F S)"
    "vtriple view (stays i U F S) (ipt_ClearChain H t c) (\<lambda>_. stays i U F S) (stays i U F S)"
    by (auto intro!: vt_acts simp: s)
  have "acts view (ipt_Append H t c r) (\<lambda>_. on_chain t c (\<lambda>rs. rs @ [r]))" using assms(1) by (simp add: ipt_law_def)
  then show "vtriple view (stays i U F S) (ipt_Append H t c r) (\<lambda>_. stays i U F S) (stays i U F S)"
    by (rule vt_acts) (simp_all add: on)
  have "acts view (ipt_DeleteChain H t c) (\<lambda>_. set_chain t c None)" using assms(1) by (rule ipt_laws)
  then have "vtriple view (stays i U F S) (ipt_DeleteChain H t c) (\<lambda>_. stays i U F S) (stays i U F S)"
    by (rule vt_acts) (simp_all add: s)
  then show "vtriple view (stays i U F S) (ignore (ipt_DeleteChain H t c)) (\<lambda>_. stays i U F S) E" by (rule vt_ignore)
qed

lemma vt_for_each: "(\<And>x. vtriple view P (f x) (\<lambda>_. P) P) \<Longrightarrow> vtriple view P (for_each f xs) (\<lambda>_. P) P"
  by (induction xs) (auto intro!: vt_bnd vt_ret)

lemma own_tproxy: "own_chain i ''mangle'' (tproxy_chain i)"
  by (simp add: own_chain_def)

text \<open>The jump is the last rule \<open>SetupTProxy\<close> adds, so nothing outside the tunnel's chain is left when it fails.\<close>

lemma vt_SetupTProxy:
  assumes "ipt_law H view" "jump_at i tun \<in> U" "jump_at i tun \<notin> S"
  shows "vtriple view (stays i U F S) (SetupTProxy H i tun port mark gw flow mss) (\<lambda>_. stays i U F (insert (jump_at i tun) S)) (stays i U F S)"
proof -
  let ?P = "stays i U F S"
  note own = vt_own_chain [OF assms(1) own_tproxy]
  have "vtriple view ?P (attempt (ipt_ChainExists H ''mangle'' (tproxy_chain i)) (\<lambda>ex.
        if ex = Inr True then ignore (ipt_ClearChain H ''mangle'' (tproxy_chain i)) else ipt_NewChain H ''mangle'' (tproxy_chain i))) (\<lambda>_. ?P) ?P"
    by (rule vt_attempt [where R = "\<lambda>_. ?P" and E' = "?P"]) (auto intro: vt_exists assms(1) own vt_ignore)
  moreover have "vtriple view ?P (ignore (ipt_Delete H ''mangle'' ''PREROUTING'' (jump_rule tun i))) (\<lambda>_. ?P) ?P"
    using vt_delete [OF assms(1), of "''mangle''" "''PREROUTING''" "jump_rule tun i" U i F S] assms(2,3) by (simp add: jump_at_def)
  moreover have "vtriple view ?P (for_each (ipt_Append H ''mangle'' (tproxy_chain i)) rs) (\<lambda>_. ?P) ?P" for rs
    by (intro vt_for_each own)
  moreover have "vtriple view ?P (ipt_Append H ''mangle'' ''PREROUTING'' (jump_rule tun i)) (\<lambda>_. stays i U F (insert (jump_at i tun) S)) ?P"
    using vt_append [OF assms(1), of "''mangle''" "''PREROUTING''" "jump_rule tun i" U S i F] assms(2,3) by (simp add: jump_at_def)
  ultimately show ?thesis
    unfolding SetupTProxy_def Let_def by (intro vt_bnd [where R = "\<lambda>_. ?P"] vt_ipt_New assms(1))
qed

lemma vt_TeardownTProxy:
  assumes "ipt_law H view" "jump_at i tun \<in> U"
  shows "vtriple view (stays i U F S) (TeardownTProxy H i tun mark) (\<lambda>_. stays i U F (S - {jump_at i tun})) E"
proof -
  let ?Q = "stays i U F (S - {jump_at i tun})"
  note own = vt_own_chain [OF assms(1) own_tproxy]
  have "vtriple view (stays i U F S) (ignore (ipt_Delete H ''mangle'' ''PREROUTING'' (jump_rule tun i))) (\<lambda>_. ?Q) E"
    using vt_delete [OF assms(1), of "''mangle''" "''PREROUTING''" "jump_rule tun i" U i F S] assms(2) by (simp add: jump_at_def)
  moreover have "vtriple view ?Q (attempt (ipt_ChainExists H ''mangle'' (tproxy_chain i)) (\<lambda>ok. if ok \<noteq> Inr True then ret ()
       else bnd (ignore (ipt_ClearChain H ''mangle'' (tproxy_chain i))) (\<lambda>_. ignore (ipt_DeleteChain H ''mangle'' (tproxy_chain i))))) (\<lambda>_. ?Q) E"
    by (rule vt_attempt [where R = "\<lambda>_. ?Q" and E' = "?Q"])
      (auto intro!: vt_exists assms(1) own vt_ignore vt_ret vt_bnd [where R = "\<lambda>_. ?Q"])
  ultimately show ?thesis
    unfolding TeardownTProxy_def
    by (intro vt_bnd [where R = "\<lambda>_. stays i U F S", OF vt_ipt_New] vt_bnd [where R = "\<lambda>_. ?Q"] assms(1))
qed

text \<open>The ACCEPT rules: both go into DOCKER-USER, or both into FORWARD, or neither stays.\<close>

lemma accepts_at_not [simp]:
  "(''filter'', ''DOCKER-USER'', r) \<notin> accepts_at ''FORWARD'' tun" "(''filter'', ''FORWARD'', r) \<notin> accepts_at ''DOCKER-USER'' tun"
  by (simp_all add: accepts_at_def)

lemma accept_rules_differ [simp]: "fst (accept_rules tun) \<noteq> snd (accept_rules tun)" "snd (accept_rules tun) \<noteq> fst (accept_rules tun)"
  by (simp_all add: accept_rules_def)

lemma vt_del_accepts:
  assumes "ipt_law H view" "accepts_at ch tun \<subseteq> U"
  shows "vtriple view (stays i U F S) (bnd (ignore (ipt_Delete H ''filter'' ch (fst (accept_rules tun)))) (\<lambda>_.
     ignore (ipt_Delete H ''filter'' ch (snd (accept_rules tun))))) (\<lambda>_. stays i U F (S - accepts_at ch tun)) E"
proof -
  have u: "(''filter'', ch, fst (accept_rules tun)) \<in> U" "(''filter'', ch, snd (accept_rules tun)) \<in> U"
    using assms(2) by (simp_all add: accepts_at_def)
  have "S - {(''filter'', ch, fst (accept_rules tun))} - {(''filter'', ch, snd (accept_rules tun))} = S - accepts_at ch tun"
    by (auto simp: accepts_at_def)
  with vt_bnd [OF vt_delete [OF assms(1) u(1)] vt_delete [OF assms(1) u(2)]] show ?thesis by metis
qed

lemma vt_teardownForward:
  assumes "ipt_law H view" "forwards_at tun \<subseteq> U"
  shows "vtriple view (stays i U F S) (teardownForwardRules H tun) (\<lambda>_. stays i U F (S - forwards_at tun)) E"
proof -
  have u: "accepts_at ''FORWARD'' tun \<subseteq> U" "accepts_at ''DOCKER-USER'' tun \<subseteq> U" using assms(2) by (simp_all add: forwards_at_def)
  have "S - forwards_at tun = S - accepts_at ''FORWARD'' tun - accepts_at ''DOCKER-USER'' tun" by (auto simp: forwards_at_def)
  then show ?thesis
    unfolding teardownForwardRules_def for_each.simps
    by (intro vt_bnd [OF vt_del_accepts [OF assms(1) u(1)]] vt_bnd [OF vt_del_accepts [OF assms(1) u(2)]] vt_ret) simp
qed

lemma vt_TeardownForwardRules:
  "ipt_law H view \<Longrightarrow> forwards_at tun \<subseteq> U \<Longrightarrow>
   vtriple view (stays i U F S) (TeardownForwardRules H tun) (\<lambda>_. stays i U F (S - forwards_at tun)) E"
  unfolding TeardownForwardRules_def by (rule vt_bnd [OF vt_ipt_New vt_teardownForward])

lemma vt_try_insert:
  assumes "ipt_law H view" "(t, c, r) \<in> U" "(t, c, r) \<notin> S" "\<And>r'. vtriple view (stays i U F (insert (t, c, r) S)) (f r') Q E"
  shows "vtriple view (stays i U F S) (attempt (ipt_Insert H t c 1 r) f) Q E"
  by (rule vt_attempt [OF vt_insert [OF assms(1-3)]]) (auto intro: stays_mono assms(4))

lemma vt_try_docker_user:
  assumes "ipt_law H view" "forwards_at tun \<subseteq> U" "S \<inter> forwards_at tun = {}"
  shows "vtriple view (stays i U F S) (try_docker_user H tun)
    (\<lambda>b. stays i U F (if b then S \<union> accepts_at ''DOCKER-USER'' tun else S)) E"
proof -
  let ?o = "(''filter'', ''DOCKER-USER'', fst (accept_rules tun))" and ?i = "(''filter'', ''DOCKER-USER'', snd (accept_rules tun))"
  have u: "?o \<in> U" "?i \<in> U" "accepts_at ''DOCKER-USER'' tun \<subseteq> U" using assms(2) by (auto simp: forwards_at_def accepts_at_def)
  have s: "?o \<notin> S" "?i \<notin> insert ?o S" "S - accepts_at ''DOCKER-USER'' tun = S" using assms(3) by (auto simp: forwards_at_def accepts_at_def)
  have both: "insert ?i (insert ?o S) = S \<union> accepts_at ''DOCKER-USER'' tun" by (auto simp: accepts_at_def)
  have gone: "S \<union> accepts_at ''DOCKER-USER'' tun - accepts_at ''DOCKER-USER'' tun = S" using s(3) by auto
  have undo: "vtriple view (stays i U F (S \<union> accepts_at ''DOCKER-USER'' tun))
      (bnd (ignore (ipt_Delete H ''filter'' ''DOCKER-USER'' (fst (accept_rules tun)))) (\<lambda>_.
       bnd (ignore (ipt_Delete H ''filter'' ''DOCKER-USER'' (snd (accept_rules tun)))) (\<lambda>_. ret False)))
      (\<lambda>b. stays i U F (if b then S \<union> accepts_at ''DOCKER-USER'' tun else S)) E"
    using vt_bnd [OF vt_del_accepts [OF assms(1) u(3), of i F "S \<union> accepts_at ''DOCKER-USER'' tun"], of "\<lambda>_. ret False"]
    by (simp add: gone bnd_assoc vt_ret)
  have ins: "vtriple view (stays i U F S) (attempt (ipt_Insert H ''filter'' ''DOCKER-USER'' 1 (fst (accept_rules tun))) (\<lambda>eOut.
       attempt (ipt_Insert H ''filter'' ''DOCKER-USER'' 1 (snd (accept_rules tun))) (\<lambda>eIn.
       if eOut = Inr () \<and> eIn = Inr () then ret True
       else bnd (ignore (ipt_Delete H ''filter'' ''DOCKER-USER'' (fst (accept_rules tun)))) (\<lambda>_.
         bnd (ignore (ipt_Delete H ''filter'' ''DOCKER-USER'' (snd (accept_rules tun)))) (\<lambda>_. ret False)))))
      (\<lambda>b. stays i U F (if b then S \<union> accepts_at ''DOCKER-USER'' tun else S)) E"
    by (rule vt_try_insert [OF assms(1) u(1) s(1)], rule vt_try_insert [OF assms(1) u(2) s(2)])
      (auto simp: both intro: vt_ret undo)
  show ?thesis
    unfolding try_docker_user_def
    by (rule vt_attempt [where R = "\<lambda>_. stays i U F S" and E' = "stays i U F S"]) (auto intro: vt_exists assms(1) vt_ret ins)
qed

lemma vt_SetupForwardRules:
  assumes "ipt_law H view" "forwards_at tun \<subseteq> U" "S \<inter> forwards_at tun = {}"
  shows "vtriple view (stays i U F S) (SetupForwardRules H tun) (\<lambda>_. stays i U F (S \<union> forwards_at tun)) (stays i U F S)"
proof -
  let ?o = "(''filter'', ''FORWARD'', fst (accept_rules tun))" and ?i = "(''filter'', ''FORWARD'', snd (accept_rules tun))"
  have u: "?o \<in> U" "?i \<in> U" using assms(2) by (auto simp: forwards_at_def accepts_at_def)
  have s: "?i \<notin> S" "?o \<notin> insert ?i S" "insert ?i S - {?i} = S" "S - forwards_at tun = S"
    "insert ?o (insert ?i S) \<subseteq> S \<union> forwards_at tun" "S \<union> accepts_at ''DOCKER-USER'' tun \<subseteq> S \<union> forwards_at tun"
    using assms(3) by (auto simp: forwards_at_def accepts_at_def)
  have un: "vtriple view (stays i U F (insert ?i S)) (bnd (ignore (ipt_Delete H ''filter'' ''FORWARD'' (snd (accept_rules tun)))) (\<lambda>_. fail e))
      (\<lambda>_. stays i U F (S \<union> forwards_at tun)) (stays i U F S)" for e
    by (rule vt_bnd [OF vt_delete [OF assms(1) u(2)]]) (auto intro: vt_fail simp: s)
  have fw: "vtriple view (stays i U F S) (bnd (ipt_Insert H ''filter'' ''FORWARD'' 1 (snd (accept_rules tun))) (\<lambda>_.
       attempt (ipt_Insert H ''filter'' ''FORWARD'' 1 (fst (accept_rules tun))) (\<lambda>r. case r of
         Inl e \<Rightarrow> bnd (ignore (ipt_Delete H ''filter'' ''FORWARD'' (snd (accept_rules tun)))) (\<lambda>_. fail e)
       | Inr _ \<Rightarrow> ret ()))) (\<lambda>_. stays i U F (S \<union> forwards_at tun)) (stays i U F S)"
  proof (rule vt_bnd [OF vt_insert [OF assms(1) u(2) s(1)]], rule vt_attempt)
    show "vtriple view (stays i U F (insert ?i S)) (ipt_Insert H ''filter'' ''FORWARD'' 1 (fst (accept_rules tun)))
       (\<lambda>x v. case Inr x of Inl e \<Rightarrow> stays i U F (insert ?i S) v | Inr _ \<Rightarrow> stays i U F (insert ?o (insert ?i S)) v) (stays i U F (insert ?i S))"
      using vt_insert [OF assms(1) u(1) s(2)] by simp
  qed (auto split: sum.split intro!: un vt_ret stays_mono [OF _ s(5)])
  have "vtriple view (stays i U F (if b then S \<union> accepts_at ''DOCKER-USER'' tun else S)) (if b then ret () else m)
      (\<lambda>_. stays i U F (S \<union> forwards_at tun)) (stays i U F S)"
    if "vtriple view (stays i U F S) m (\<lambda>_. stays i U F (S \<union> forwards_at tun)) (stays i U F S)" for b m
    using that by (auto intro: vt_ret stays_mono [OF _ s(6)])
  note branch = this [OF fw]
  show ?thesis
    unfolding SetupForwardRules_def
    by (rule vt_bnd [OF vt_ipt_New [OF assms(1)]], rule vt_bnd [OF vt_teardownForward [OF assms(1,2)]], unfold s(4),
        rule vt_bnd [OF vt_try_docker_user [OF assms] branch])
qed

text \<open>The MASQUERADE rule.\<close>

lemma vt_TeardownNAT:
  assumes "ipt_law H view" "masq_at tun subnet \<in> U" "old_masq_at subnet \<in> U"
  shows "vtriple view (stays i U F S) (TeardownNATMasquerade H tun subnet)
    (\<lambda>_. stays i U F (if subnet = [] then S else S - {masq_at tun subnet, old_masq_at subnet})) E"
proof -
  have "S - {masq_at tun subnet} - {old_masq_at subnet} = S - {masq_at tun subnet, old_masq_at subnet}" by auto
  then have "vtriple view (stays i U F S) (bnd (ipt_New H) (\<lambda>_.
       bnd (ignore (ipt_Delete H ''nat'' ''POSTROUTING'' (masq_rule tun subnet))) (\<lambda>_.
       ignore (ipt_Delete H ''nat'' ''POSTROUTING'' [''-s'', subnet, ''-p'', ''icmp'', ''-j'', ''MASQUERADE'']))))
    (\<lambda>_. stays i U F (S - {masq_at tun subnet, old_masq_at subnet})) E"
    using vt_bnd [OF vt_ipt_New [OF assms(1)] vt_bnd [OF vt_delete [OF assms(1) assms(2) [unfolded masq_at_def]]
        vt_delete [OF assms(1) assms(3) [unfolded old_masq_at_def]]], of i F S E]
    by (simp add: masq_at_def old_masq_at_def)
  then show ?thesis by (simp add: TeardownNATMasquerade_def vt_ret)
qed

lemma vt_SetupNAT:
  assumes "ipt_law H view" "masq_at tun subnet \<in> U" "old_masq_at subnet \<in> U" "masq_at tun subnet \<notin> S"
  shows "vtriple view (stays i U F S) (SetupNATMasquerade H tun subnet) (\<lambda>_. stays i U F (insert (masq_at tun subnet) S)) (stays i U F S)"
proof -
  have m: "insert (masq_at tun subnet) (S - {masq_at tun subnet, old_masq_at subnet}) \<subseteq> insert (masq_at tun subnet) S" by auto
  have ins: "vtriple view (stays i U F (S - {masq_at tun subnet, old_masq_at subnet})) (ipt_Insert H ''nat'' ''POSTROUTING'' 1 (masq_rule tun subnet))
      (\<lambda>_. stays i U F (insert (masq_at tun subnet) S)) (stays i U F S)"
    by (rule vt_weaken [OF vt_insert [OF assms(1) assms(2) [unfolded masq_at_def], of "S - {masq_at tun subnet, old_masq_at subnet}"]])
      (auto simp: masq_at_def elim!: stays_mono)
  have "vtriple view (stays i U F S) (ignore (TeardownNATMasquerade H tun subnet)) (\<lambda>_. stays i U F (S - {masq_at tun subnet, old_masq_at subnet})) E"
    if "subnet \<noteq> []" for E
    using vt_TeardownNAT [OF assms(1-3), of i F S "stays i U F (S - {masq_at tun subnet, old_masq_at subnet})"] that by (intro vt_ignore) simp
  then show ?thesis
    by (auto simp: SetupNATMasquerade_def intro!: vt_ret vt_bnd [OF vt_ipt_New [OF assms(1)]] vt_bnd [OF _ ins] elim: stays_mono)
qed

end
