(* ===== verification/HostRoutes.thy ===== *)
theory HostRoutes
  imports HostRules
begin

text \<open>
  The policy rule and the routing table of a tunnel, and which calls of netconf leave which part of the host alone.
\<close>

section \<open>Calls that leave a part of the view alone\<close>

text \<open>Assertions about the chains, and about the policy rules and routes.\<close>

definition chains_only :: "(net_view \<Rightarrow> bool) \<Rightarrow> bool" where
  "chains_only P \<longleftrightarrow> (\<forall>v x. P (v\<lparr>nv_marks := x\<rparr>) = P v)
     \<and> (\<forall>v x. P (v\<lparr>nv_routes := x\<rparr>) = P v)
     \<and> (\<forall>v x. P (v\<lparr>nv_devs := x\<rparr>) = P v)
     \<and> (\<forall>v x. P (v\<lparr>nv_live := x\<rparr>) = P v)"

definition routes_only :: "(net_view \<Rightarrow> bool) \<Rightarrow> bool" where
  "routes_only P \<longleftrightarrow> (\<forall>v x. P (v\<lparr>nv_chain := x\<rparr>) = P v)
     \<and> (\<forall>v x. P (v\<lparr>nv_devs := x\<rparr>) = P v)
     \<and> (\<forall>v x. P (v\<lparr>nv_live := x\<rparr>) = P v)"

definition devs_only :: "(net_view \<Rightarrow> bool) \<Rightarrow> bool" where
  "devs_only P \<longleftrightarrow> (\<forall>v x. P (v\<lparr>nv_chain := x\<rparr>) = P v)
     \<and> (\<forall>v x. P (v\<lparr>nv_marks := x\<rparr>) = P v)
     \<and> (\<forall>v x. P (v\<lparr>nv_routes := x\<rparr>) = P v)"

lemma chains_only_upd:
  assumes "chains_only P"
  shows "P (v\<lparr>nv_marks := m\<rparr>) = P v" "P (v\<lparr>nv_routes := r\<rparr>) = P v" "P (v\<lparr>nv_devs := d\<rparr>) = P v" "P (v\<lparr>nv_live := l\<rparr>) = P v"
  using assms by (simp_all add: chains_only_def)

lemma routes_only_upd:
  assumes "routes_only P"
  shows "P (v\<lparr>nv_chain := c\<rparr>) = P v" "P (v\<lparr>nv_devs := d\<rparr>) = P v" "P (v\<lparr>nv_live := l\<rparr>) = P v"
  using assms by (simp_all add: routes_only_def)

lemma devs_only_upd:
  assumes "devs_only P"
  shows "P (v\<lparr>nv_chain := c\<rparr>) = P v" "P (v\<lparr>nv_marks := m\<rparr>) = P v" "P (v\<lparr>nv_routes := r\<rparr>) = P v"
  using assms by (simp_all add: devs_only_def)

lemma any_chain_upd:
  assumes "routes_only P \<or> devs_only P"
  shows "P (set_chain t c x v) = P v" "P (on_chain t c f v) = P v" "P (del t c r v) = P v"
proof -
  have "P (v\<lparr>nv_chain := g\<rparr>) = P v" for g v
    using assms unfolding routes_only_def devs_only_def by blast
  then show "P (set_chain t c x v) = P v" "P (on_chain t c f v) = P v" "P (del t c r v) = P v"
    by (simp_all only: del_def on_chain_def set_chain_def)
qed

lemma vt_keeps: "vtriple view P m (\<lambda>_. P) P \<longleftrightarrow> preserves (\<lambda>k. P (view k)) m"
  unfolding vtriple_def by (rule valid_preserves)

lemma acts_keeps: "acts view m f \<Longrightarrow> (\<And>x v. P (f x v) = P v) \<Longrightarrow> preserves (\<lambda>k. P (view k)) m"
proof (rule preservesI)
  fix k assume k: "P (view k)"
  obtain r k' where m: "m k = (r, k')" by fastforce
  assume act: "acts view m f" and f: "\<And>x v. P (f x v) = P v"
  from act m have "(\<exists>x. view k' = f x (view k)) \<or> view k' = view k"
    by (cases r) (auto simp: acts_def dest!: spec [of _ k])
  with k f [of _ "view k"] show "P (view (snd (m k)))" by (auto simp only: m snd_conv)
qed

lemma reads_keeps: "reads view m g \<Longrightarrow> preserves (\<lambda>k. P (view k)) m"
  unfolding preserves_def reads_def by (metis snd_conv)

lemma removes_keeps: "removes view m p f \<Longrightarrow> (\<And>v. P (f v) = P v) \<Longrightarrow> preserves (\<lambda>k. P (view k)) m"
proof (rule preservesI)
  fix k assume k: "P (view k)"
  obtain r k' where m: "m k = (r, k')" by fastforce
  assume rem: "removes view m p f" and f: "\<And>v. P (f v) = P v"
  from rem m have "view k' = f (view k) \<or> view k' = view k"
    by (cases r) (auto simp: removes_def dest!: spec [of _ k])
  with k f [of "view k"] show "P (view (snd (m k)))" by (auto simp only: m snd_conv)
qed

lemma ipt_keeps:
  assumes "ipt_law H view" "routes_only P \<or> devs_only P"
  shows "preserves (\<lambda>k. P (view k)) (ipt_New H)" "preserves (\<lambda>k. P (view k)) (ipt_ChainExists H t c)"
    "preserves (\<lambda>k. P (view k)) (ipt_NewChain H t c)" "preserves (\<lambda>k. P (view k)) (ipt_ClearChain H t c)"
    "preserves (\<lambda>k. P (view k)) (ipt_DeleteChain H t c)" "preserves (\<lambda>k. P (view k)) (ipt_Insert H t c 1 r)"
    "preserves (\<lambda>k. P (view k)) (ipt_Append H t c r)" "preserves (\<lambda>k. P (view k)) (ipt_Delete H t c r)"
proof -
  note law = ipt_laws [OF assms(1)]
  note p = any_chain_upd [OF assms(2)]
  show "preserves (\<lambda>k. P (view k)) (ipt_New H)" by (rule reads_keeps [OF law(1)])
  show "preserves (\<lambda>k. P (view k)) (ipt_ChainExists H t c)" by (rule reads_keeps [OF law(2)])
  show "preserves (\<lambda>k. P (view k)) (ipt_NewChain H t c)" by (rule acts_keeps [OF law(3)]) (rule p)
  show "preserves (\<lambda>k. P (view k)) (ipt_ClearChain H t c)" by (rule acts_keeps [OF law(4)]) (rule p)
  show "preserves (\<lambda>k. P (view k)) (ipt_DeleteChain H t c)" by (rule acts_keeps [OF law(5)]) (rule p)
  show "preserves (\<lambda>k. P (view k)) (ipt_Insert H t c 1 r)" by (rule acts_keeps [OF law(6)]) (rule p)
  show "preserves (\<lambda>k. P (view k)) (ipt_Append H t c r)" by (rule acts_keeps [OF law(7)]) (rule p)
  show "preserves (\<lambda>k. P (view k)) (ipt_Delete H t c r)" by (rule removes_keeps [OF law(8)]) (rule p)
qed

lemmas keeps_intro = preserves_bnd preserves_attempt preserves_ignore preserves_if preserves_ret preserves_fail preserves_for_each
  preserves_case_sum preserves_lift

lemma netconf_keeps:
  assumes "ipt_law H view" "routes_only P \<or> devs_only P"
  shows "preserves (\<lambda>k. P (view k)) (SetupForwardRules H tun)" "preserves (\<lambda>k. P (view k)) (TeardownForwardRules H tun)"
    "preserves (\<lambda>k. P (view k)) (SetupNATMasquerade H tun sub)" "preserves (\<lambda>k. P (view k)) (TeardownNATMasquerade H tun sub)"
    "preserves (\<lambda>k. P (view k)) (SetupTProxy H i tun port mark gw flow mss)" "preserves (\<lambda>k. P (view k)) (TeardownTProxy H i tun mark)"
  unfolding SetupForwardRules_def TeardownForwardRules_def teardownForwardRules_def try_docker_user_def SetupNATMasquerade_def
    TeardownNATMasquerade_def SetupTProxy_def TeardownTProxy_def Let_def
  by (intro keeps_intro ipt_keeps [OF assms])+

lemma net_keeps:
  assumes "net_law H view" "chains_only P \<or> devs_only P"
  shows "preserves (\<lambda>k. P (view k)) (nl_RuleAdd H q)" "preserves (\<lambda>k. P (view k)) (nl_RuleDel H q)"
    "preserves (\<lambda>k. P (view k)) (nl_RuleList H)" "preserves (\<lambda>k. P (view k)) (nl_RouteReplace H r)"
    "preserves (\<lambda>k. P (view k)) (nl_RouteDel H r)" "preserves (\<lambda>k. P (view k)) (nl_RouteList H t)"
proof -
  note law = net_laws [OF assms(1)]
  have p: "P (v\<lparr>nv_marks := m\<rparr>) = P v" "P (v\<lparr>nv_routes := rs\<rparr>) = P v" for v m rs
    using assms(2) unfolding chains_only_def devs_only_def by blast+
  show "preserves (\<lambda>k. P (view k)) (nl_RuleAdd H q)" by (rule acts_keeps [OF law(1)]) (rule p)
  show "preserves (\<lambda>k. P (view k)) (nl_RuleDel H q)" by (rule removes_keeps [OF law(2)]) (rule p)
  show "preserves (\<lambda>k. P (view k)) (nl_RuleList H)" by (rule reads_keeps [OF law(3)])
  show "preserves (\<lambda>k. P (view k)) (nl_RouteReplace H r)" by (rule acts_keeps [OF law(4)]) (rule p)
  show "preserves (\<lambda>k. P (view k)) (nl_RouteDel H r)" by (rule removes_keeps [OF law(5)]) (rule p)
  show "preserves (\<lambda>k. P (view k)) (nl_RouteList H t)" by (rule reads_keeps [OF law(6)])
qed

lemma link_keeps:
  assumes "net_law H view"
  shows "preserves (\<lambda>k. P (view k)) (nl_LinkByName H n)" "preserves (\<lambda>k. P (view k)) (nl_AddrReplace H l a)"
    "preserves (\<lambda>k. P (view k)) (nl_LinkSetUp H l)" "preserves (\<lambda>k. P (view k)) (os_WriteFile H f s)"
  by (rule acts_keeps [OF net_laws(7)] acts_keeps [OF net_laws(8)] acts_keeps [OF net_laws(9)] acts_keeps [OF net_laws(10)], rule assms, rule refl)+

lemma address_keeps:
  assumes "net_law H view"
  shows "preserves (\<lambda>k. P (view k)) (AssignTUN H tun cidr)" "preserves (\<lambda>k. P (view k)) (PrepareTunForTransparentProxy H tun)"
  unfolding AssignTUN_def PrepareTunForTransparentProxy_def case_prod_unfold
  by (intro keeps_intro link_keeps [OF assms])+

lemma route_keeps:
  assumes "net_law H view" "chains_only P \<or> devs_only P"
  shows "preserves (\<lambda>k. P (view k)) (SetupReturnRoute H mark t)" "preserves (\<lambda>k. P (view k)) (TeardownReturnRoute H mark t)"
  unfolding SetupReturnRoute_def TeardownReturnRoute_def
  by (intro keeps_intro link_keeps [OF assms(1)] net_keeps [OF assms])+

section \<open>The policy rule and the routing table\<close>

text \<open>Of the policy rules the tunnel owns the ones with its mark and table, of the routes those of its table.
  \<open>routed b\<close>: the others are as they were, and unless \<open>b\<close> there are none of the tunnel's.\<close>

definition routed :: "int \<times> int \<Rightarrow> (int \<times> int) list \<Rightarrow> route list \<Rightarrow> bool \<Rightarrow> net_view \<Rightarrow> bool" where
  "routed q ms rs b v \<longleftrightarrow> filter (\<lambda>p. p \<noteq> q) (nv_marks v) = ms \<and> filter (\<lambda>r. rt_table r \<noteq> snd q) (nv_routes v) = rs
     \<and> (\<not> b \<longrightarrow> q \<notin> set (nv_marks v) \<and> (\<forall>r\<in>set (nv_routes v). rt_table r \<noteq> snd q))"

lemma routed_only: "routes_only (routed q ms rs b)"
  by (simp add: routes_only_def routed_def)

lemma stays_only: "chains_only (stays i U F S)"
  by (simp add: chains_only_def stays_def foreign_def rules_def)

lemma routed_mono: "routed q ms rs b v \<Longrightarrow> (b \<Longrightarrow> b') \<Longrightarrow> routed q ms rs b' v"
  by (auto simp: routed_def)

lemma routed_clean: "routed q ms rs False v \<Longrightarrow> nv_marks v = ms \<and> nv_routes v = rs"
  unfolding routed_def by (metis (mono_tags, lifting) filter_True)

lemma vt_SetupReturnRoute:
  assumes "net_law H view"
  shows "vtriple view (routed (mark mod 2 ^ 32, t) ms rs b) (SetupReturnRoute H mark t)
    (\<lambda>_. routed (mark mod 2 ^ 32, t) ms rs True) (routed (mark mod 2 ^ 32, t) ms rs True)"
proof -
  let ?q = "(mark mod 2 ^ 32, t)"
  let ?P = "routed ?q ms rs True"
  note law = net_laws [OF assms]
  note add = law(1) [of ?q]
  have rep: "acts view (nl_RouteReplace H \<lparr>rt_table = t, rt_link = l\<rparr>)
      (\<lambda>_ v. v\<lparr>nv_routes := \<lparr>rt_table = t, rt_link = l\<rparr> # filter (\<lambda>q. rt_table q \<noteq> t) (nv_routes v)\<rparr>)" for l
    using law(4) [of "\<lparr>rt_table = t, rt_link = l\<rparr>"] by simp
  have 1: "vtriple view (routed ?q ms rs b) (ignore (nl_RuleAdd H ?q)) (\<lambda>_. ?P) ?P"
    by (rule vt_ignore, rule vt_acts [OF add]) (auto simp: routed_def)
  have 2: "vtriple view ?P (nl_LinkByName H ''lo'') (\<lambda>_. ?P) ?P"
    unfolding vt_keeps by (rule link_keeps [OF assms])
  have 3: "vtriple view ?P (attempt (nl_RouteReplace H \<lparr>rt_table = t, rt_link = l\<rparr>) (\<lambda>r. case r of
       Inl e \<Rightarrow> fail (Wrap (''route replace table='' @ itoa t) e) | Inr _ \<Rightarrow> ret ())) (\<lambda>_. ?P) ?P" for l
    by (rule vt_attempt [where R = "\<lambda>_. ?P" and E' = "?P"], rule vt_acts [OF rep])
      (auto simp: routed_def intro: vt_ret vt_fail split: sum.split)
  show ?thesis unfolding SetupReturnRoute_def by (rule vt_bnd [OF 1 vt_bnd [OF 2 3]])
qed

text \<open>Taking the route down deletes one policy rule per rule listed, and each route listed.\<close>

lemma vt_del_marks:
  assumes "net_law H view" "set xs \<subseteq> {q}"
  shows "vtriple view (\<lambda>v. routed q ms rs True v \<and> count_list (nv_marks v) q \<le> length xs) (for_each (\<lambda>ru. ignore (nl_RuleDel H ru)) xs)
    (\<lambda>_ v. routed q ms rs True v \<and> q \<notin> set (nv_marks v)) E"
  using assms(2)
proof (induction xs)
  case Nil
  show ?case by (auto intro: vt_ret simp: count_list_0_iff)
next
  case (Cons x xs)
  have "vtriple view (\<lambda>v. routed q ms rs True v \<and> count_list (nv_marks v) q \<le> Suc (length xs)) (ignore (nl_RuleDel H q))
      (\<lambda>_ v. routed q ms rs True v \<and> count_list (nv_marks v) q \<le> length xs) E"
    by (rule vt_remove [OF net_laws(2) [OF assms(1)]]) (auto simp: routed_def filter_remove1 remove1_idem count_list_remove1 count_list_0_iff [THEN iffD2])
  then show ?case using Cons by (auto intro: vt_bnd)
qed

lemma vt_del_routes:
  assumes "net_law H view"
  shows "vtriple view (\<lambda>v. routed q ms rs True v \<and> q \<notin> set (nv_marks v) \<and> filter (\<lambda>r. rt_table r = snd q) (nv_routes v) = xs)
    (for_each (\<lambda>r. ignore (nl_RouteDel H r)) xs) (\<lambda>_. routed q ms rs False) E"
proof (induction xs)
  case Nil
  show ?case by (auto intro!: vt_ret simp: routed_def filter_empty_conv)
next
  case (Cons x xs)
  have "vtriple view (\<lambda>v. routed q ms rs True v \<and> q \<notin> set (nv_marks v) \<and> filter (\<lambda>r. rt_table r = snd q) (nv_routes v) = x # xs)
     (ignore (nl_RouteDel H x)) (\<lambda>_ v. routed q ms rs True v \<and> q \<notin> set (nv_marks v) \<and> filter (\<lambda>r. rt_table r = snd q) (nv_routes v) = xs) E"
  proof (rule vt_remove [OF net_laws(5) [OF assms]])
    fix v assume v: "routed q ms rs True v \<and> q \<notin> set (nv_marks v) \<and> filter (\<lambda>r. rt_table r = snd q) (nv_routes v) = x # xs"
    then have "x \<in> set (filter (\<lambda>r. rt_table r = snd q) (nv_routes v))" by simp
    then have x: "rt_table x = snd q" "x \<in> set (nv_routes v)" by simp_all
    { assume "x \<notin> set (nv_routes v)"
      with x show "routed q ms rs True v \<and> q \<notin> set (nv_marks v) \<and> filter (\<lambda>r. rt_table r = snd q) (nv_routes v) = xs" by simp }
    let ?rs = "remove1 x (nv_routes v)"
    have "filter (\<lambda>r. rt_table r \<noteq> snd q) ?rs = filter (\<lambda>r. rt_table r \<noteq> snd q) (nv_routes v)"
      unfolding filter_remove1 using x by (intro remove1_idem) simp
    moreover have "filter (\<lambda>r. rt_table r = snd q) ?rs = xs" unfolding filter_remove1 using v by simp
    ultimately show "routed q ms rs True (v\<lparr>nv_routes := ?rs\<rparr>) \<and> q \<notin> set (nv_marks (v\<lparr>nv_routes := ?rs\<rparr>))
        \<and> filter (\<lambda>r. rt_table r = snd q) (nv_routes (v\<lparr>nv_routes := ?rs\<rparr>)) = xs"
      using v by (simp add: routed_def)
  qed
  then show ?case using Cons by (auto intro: vt_bnd)
qed

lemma vt_TeardownReturnRoute:
  assumes "net_law H view"
  shows "vtriple view (routed (mark mod 2 ^ 32, t) ms rs b) (TeardownReturnRoute H mark t) (\<lambda>_. routed (mark mod 2 ^ 32, t) ms rs False) E"
proof -
  let ?q = "(mark mod 2 ^ 32, t)"
  have len: "length (filter (\<lambda>ru. ru = ?q) xs) = count_list xs ?q" for xs
    by (induction xs) auto
  have 1: "vtriple view (routed ?q ms rs b) (nl_RuleList H) (\<lambda>xs v. routed ?q ms rs True v \<and> count_list (nv_marks v) ?q \<le> length (filter (\<lambda>ru. ru = ?q) xs)) E"
    by (rule vt_reads [OF net_laws(3) [OF assms]]) (simp only: len, auto intro: routed_mono)
  have 2: "vtriple view (\<lambda>v. routed ?q ms rs True v \<and> ?q \<notin> set (nv_marks v)) (nl_RouteList H t)
      (\<lambda>xs v. routed ?q ms rs True v \<and> ?q \<notin> set (nv_marks v) \<and> filter (\<lambda>r. rt_table r = snd ?q) (nv_routes v) = xs) E"
    by (rule vt_reads [OF net_laws(6) [OF assms]]) simp
  show ?thesis
    unfolding TeardownReturnRoute_def
    by (rule vt_bnd [OF 1], rule vt_bnd [OF vt_del_marks [OF assms]], force, rule vt_bnd [OF 2 vt_del_routes [OF assms]])
qed

end
