(* ===== verification/SubBody.thy ===== *)
theory SubBody
  imports LinkText
begin

text \<open>
  The body of a subscription: \<open>decodeSubscriptionBody\<close>, \<open>splitLines\<close> and \<open>extractVless\<close> of
  \<open>internal/service/subscription.go\<close>, with the two base64 decoders of the standard library they try.
\<close>

section \<open>Base64\<close>

definition b64_val :: "char \<Rightarrow> nat option" where
  "b64_val c = (let n = of_char c :: nat in
     if 65 \<le> n \<and> n \<le> 90 then Some (n - 65) else if 97 \<le> n \<and> n \<le> 122 then Some (n - 71)
     else if 48 \<le> n \<and> n \<le> 57 then Some (n + 4) else if n = 43 then Some 62 else if n = 47 then Some 63 else None)"

text \<open>The decoders skip line breaks anywhere. \<open>RawStdEncoding\<close> takes no padding (\<open>=\<close> is no digit),
  \<open>StdEncoding\<close> requires it; both ignore the unused low bits of the last digit.\<close>

fun group_bytes :: "nat list \<Rightarrow> string" where
  "group_bytes [a, b] = [char_of (a * 4 + b div 16)]"
| "group_bytes [a, b, c] = [char_of (a * 4 + b div 16), char_of (b mod 16 * 16 + c div 4)]"
| "group_bytes [a, b, c, d] =
     [char_of (a * 4 + b div 16), char_of (b mod 16 * 16 + c div 4), char_of (c mod 4 * 64 + d)]"
| "group_bytes _ = []"

fun b64_vals :: "string \<Rightarrow> nat list option" where
  "b64_vals [] = Some []"
| "b64_vals (c # s) = (case b64_val c of None \<Rightarrow> None | Some v \<Rightarrow> map_option ((#) v) (b64_vals s))"

fun b64_raw :: "string \<Rightarrow> string option" where
  "b64_raw (a # b # c # d # s) = (case b64_vals [a, b, c, d] of None \<Rightarrow> None | Some vs \<Rightarrow> map_option ((@) (group_bytes vs)) (b64_raw s))"
| "b64_raw [] = Some []"
| "b64_raw [a] = None"
| "b64_raw s = map_option group_bytes (b64_vals s)"

fun b64_std :: "string \<Rightarrow> string option" where
  "b64_std (a # b # c # d # s) =
     (if c = CHR ''='' then (if d = CHR ''='' \<and> s = [] then map_option group_bytes (b64_vals [a, b]) else None)
      else if d = CHR ''='' then (if s = [] then map_option group_bytes (b64_vals [a, b, c]) else None)
      else case b64_vals [a, b, c, d] of None \<Rightarrow> None | Some vs \<Rightarrow> map_option ((@) (group_bytes vs)) (b64_std s))"
| "b64_std [] = Some []"
| "b64_std _ = None"

definition no_breaks :: "string \<Rightarrow> string" where
  "no_breaks s = filter (\<lambda>c. c \<noteq> CHR 0x0A \<and> c \<noteq> CHR 0x0D) s"

definition RawStdEncoding_DecodeString :: "string \<Rightarrow> string option" where
  "RawStdEncoding_DecodeString s = b64_raw (no_breaks s)"

definition StdEncoding_DecodeString :: "string \<Rightarrow> string option" where
  "StdEncoding_DecodeString s = b64_std (no_breaks s)"

section \<open>The lines\<close>

definition splitLines :: "string \<Rightarrow> string list" where
  "splitLines s = split_on (CHR 0x0A) (replace_all s [CHR 0x0D, CHR 0x0A] [CHR 0x0A])"

fun extractVless :: "string list \<Rightarrow> string list" where
  "extractVless [] = []"
| "extractVless (ln # lns) =
    (let l = trim_space ln
     in if has_prefix (to_lower l) ''vless://'' then l # extractVless lns else extractVless lns)"

definition decodeSubscriptionBody :: "string \<Rightarrow> go_error + string list" where
  "decodeSubscriptionBody body =
    (let text = trim_space body;
         cands = [text]
           @ (case RawStdEncoding_DecodeString text of None \<Rightarrow> [] | Some t \<Rightarrow> [t])
           @ (case StdEncoding_DecodeString text of None \<Rightarrow> [] | Some t \<Rightarrow> [t])
     in case find (\<lambda>v. v \<noteq> []) (map (\<lambda>c. extractVless (splitLines c)) cands) of
          Some v \<Rightarrow> Inr v
        | None \<Rightarrow> Inl (Opaque ''no vless lines''))"

section \<open>Encoding, for the specification\<close>

definition b64_char :: "nat \<Rightarrow> char" where
  "b64_char v = (if v < 26 then char_of (v + 65) else if v < 52 then char_of (v + 71)
     else if v < 62 then char_of (v - 4) else if v = 62 then CHR ''+'' else CHR ''/'')"

definition byte_val :: "char \<Rightarrow> nat" where "byte_val c = of_char c"

fun b64_encode :: "string \<Rightarrow> string \<Rightarrow> string" where
  "b64_encode pad (a # b # c # s) =
     [b64_char (byte_val a div 4), b64_char (byte_val a mod 4 * 16 + byte_val b div 16),
      b64_char (byte_val b mod 16 * 4 + byte_val c div 64), b64_char (byte_val c mod 64)] @ b64_encode pad s"
| "b64_encode pad [a, b] =
     [b64_char (byte_val a div 4), b64_char (byte_val a mod 4 * 16 + byte_val b div 16), b64_char (byte_val b mod 16 * 4)] @ pad"
| "b64_encode pad [a] = [b64_char (byte_val a div 4), b64_char (byte_val a mod 4 * 16)] @ pad @ pad"
| "b64_encode pad [] = []"

lemma byte_val_less [simp]: "byte_val c < 256"
  by (simp add: byte_val_def)

lemma char_of_byte_val [simp]: "char_of (byte_val c) = c"
  by (simp add: byte_val_def)

lemma b64_char_val [simp]: "v < 64 \<Longrightarrow> b64_val (b64_char v) = Some v"
proof -
  assume v: "v < 64"
  consider "v < 26" | "26 \<le> v" "v < 52" | "52 \<le> v" "v < 62" | "v = 62" | "v = 63" using v by linarith
  then show ?thesis
  proof cases
    case 3
    then obtain w where "v = w + 4" "48 \<le> w" "w \<le> 57" using that [of "v - 4"] by simp
    then show ?thesis by (simp add: b64_char_def b64_val_def Let_def)
  qed (simp_all add: b64_char_def b64_val_def Let_def)
qed

lemma b64_val_plain: "b64_val c \<noteq> None \<Longrightarrow> plain c"
  by (auto simp: b64_val_def plain_def byte_def Let_def split: if_splits)

lemma b64_val_marks: "b64_val (CHR '':'') = None" "b64_val (CHR ''='') = None"
  by (simp_all add: b64_val_def)

lemma b64_char [simp]:
  assumes "v < 64" shows "plain (b64_char v)" "b64_char v \<noteq> CHR '':''" "b64_char v \<noteq> CHR ''=''"
  using b64_char_val [OF assms] b64_val_plain [of "b64_char v"] b64_val_marks by auto

lemma sextets [simp]:
  "byte_val a div 4 < 64" "byte_val a mod 4 * 16 + byte_val b div 16 < 64" "byte_val a mod 4 * 16 < 64"
  "byte_val b mod 16 * 4 + byte_val c div 64 < 64" "byte_val b mod 16 * 4 < 64" "byte_val c mod 64 < 64"
proof -
  note l = byte_val_less [of a] byte_val_less [of b] byte_val_less [of c]
  have "byte_val b div 16 < 16" "byte_val c div 64 < 4" "byte_val a div 4 < 64" using l by linarith+
  moreover have "byte_val a mod 4 < 4" "byte_val b mod 16 < 16" "byte_val c mod 64 < 64" by simp_all
  ultimately show "byte_val a div 4 < 64" "byte_val a mod 4 * 16 + byte_val b div 16 < 64" "byte_val a mod 4 * 16 < 64"
    "byte_val b mod 16 * 4 + byte_val c div 64 < 64" "byte_val b mod 16 * 4 < 64" "byte_val c mod 64 < 64" by linarith+
qed

lemma byte_parts [simp]:
  "byte_val b div 16 div 16 = 0" "byte_val b div 64 div 4 = 0"
  "byte_val b div 16 mod 16 = byte_val b div 16" "byte_val b div 64 mod 4 = byte_val b div 64"
proof -
  have l: "byte_val b div 16 < 16" "byte_val b div 64 < 4" using byte_val_less [of b] by linarith+
  show "byte_val b div 16 div 16 = 0" "byte_val b div 64 div 4 = 0"
    "byte_val b div 16 mod 16 = byte_val b div 16" "byte_val b div 64 mod 4 = byte_val b div 64"
    using l by (simp_all only: div_less mod_less)
qed

lemma b64_raw_encode: "b64_raw (b64_encode [] s) = Some s"
  by (induction "[] :: string" s rule: b64_encode.induct) simp_all

lemma b64_std_encode: "b64_std (b64_encode ''='' s) = Some s"
  by (induction "''=''" s rule: b64_encode.induct) simp_all

lemma b64_raw_pad: "b64_raw (b64_encode ''='' s) = None \<or> b64_raw (b64_encode ''='' s) = Some s"
proof (induction "''=''" s rule: b64_encode.induct)
  case (1 a b c s)
  then show ?case by auto
qed (simp_all add: b64_val_marks)

lemma b64_encode_chars:
  "c \<in> set (b64_encode pad s) \<Longrightarrow> (plain c \<and> c \<noteq> CHR '':'') \<or> c \<in> set pad"
  by (induction pad s rule: b64_encode.induct) auto

lemma lower_colon: "CHR '':'' \<in> set (to_lower s) \<Longrightarrow> CHR '':'' \<in> set s"
proof -
  have "lower_char c = CHR '':'' \<longleftrightarrow> c = CHR '':''" for c
  proof -
    have "\<forall>c. (lower_char c = CHR '':'') = (c = CHR '':'')" by code_simp
    then show ?thesis by blast
  qed
  then show "CHR '':'' \<in> set (to_lower s) \<Longrightarrow> CHR '':'' \<in> set s"
    by (induction s rule: to_lower.induct) (auto split: if_splits simp: eq_commute [of "CHR '':''"])
qed

lemma has_prefix_subset: "has_prefix s p \<Longrightarrow> set p \<subseteq> set s"
  unfolding has_prefix_def by (metis set_take_subset)

lemma no_colon_no_vless: "CHR '':'' \<notin> set (trim_space s) \<Longrightarrow> extractVless [s] = []"
  using lower_colon [of "trim_space s"] has_prefix_subset [of "to_lower (trim_space s)" "''vless://''"]
  by (auto simp: Let_def)

lemma replace_no: "CHR 0x0D \<notin> set s \<Longrightarrow> replace_all s [CHR 0x0D, CHR 0x0A] x = s"
proof -
  have "CHR 0x0D \<notin> set s \<Longrightarrow> replace_go [CHR 0x0D, CHR 0x0A] x 0 s = s"
    by (induction s) (auto simp: has_prefix_def)
  then show "CHR 0x0D \<notin> set s \<Longrightarrow> replace_all s [CHR 0x0D, CHR 0x0A] x = s" by (simp add: replace_all_def)
qed

section \<open>Properties\<close>

text \<open>A subscription served as base64 text, padded or not, yields exactly the vless lines of the text it
  encodes, in their order, trimmed.\<close>

theorem base64_body:
  assumes "pad = [] \<or> pad = ''=''" "extractVless (splitLines doc) \<noteq> []"
  shows "decodeSubscriptionBody (b64_encode pad doc) = Inr (extractVless (splitLines doc))"
proof -
  let ?e = "b64_encode pad doc"
  have pl: "plain (CHR ''='')" by code_simp
  have ch: "plain c \<and> c \<noteq> CHR '':''" if "c \<in> set ?e" for c
    using b64_encode_chars [OF that] assms(1) pl by auto
  then have t: "trim_space ?e = ?e" by (intro trim_plain) blast
  have br: "\<not> plain (CHR 0x0A)" "\<not> plain (CHR 0x0D)" by code_simp+
  with ch have n: "CHR 0x0A \<notin> set ?e" "CHR 0x0D \<notin> set ?e" by blast+
  then have nb: "no_breaks ?e = ?e" unfolding no_breaks_def by (intro filter_all_True) auto
  have "splitLines ?e = [?e]" using n by (simp add: splitLines_def replace_no split_on_no)
  moreover have "CHR '':'' \<notin> set (trim_space ?e)" using ch by (auto simp: t)
  ultimately have e: "extractVless (splitLines ?e) = []" using no_colon_no_vless by simp
  consider "b64_raw ?e = Some doc" | "b64_raw ?e = None" "b64_std ?e = Some doc"
    using assms(1) b64_raw_encode [of doc] b64_std_encode [of doc] b64_raw_pad [of doc] by auto
  then show ?thesis
  proof cases
    case 1
    then show ?thesis using e assms(2)
      by (simp add: decodeSubscriptionBody_def Let_def t RawStdEncoding_DecodeString_def nb)
  next
    case 2
    then show ?thesis using e assms(2)
      by (simp add: decodeSubscriptionBody_def Let_def t RawStdEncoding_DecodeString_def StdEncoding_DecodeString_def nb)
  qed
qed

theorem base64_body_witness:
  "decodeSubscriptionBody ''dmxlc3M6Ly91QGEKCiB2bGVzczovL3ZAYg=='' = Inr [''vless://u@a'', ''vless://v@b'']"
proof -
  let ?t = "''vless://u@a'' @ [CHR 0x0A, CHR 0x0A] @ '' vless://v@b''"
  have "b64_encode ''='' ?t = ''dmxlc3M6Ly91QGEKCiB2bGVzczovL3ZAYg==''" by code_simp
  moreover have "extractVless (splitLines ?t) = [''vless://u@a'', ''vless://v@b'']" by code_simp
  ultimately show ?thesis using base64_body [of "''=''" ?t] by simp
qed

end
