(* ===== verification/Crypto.thy ===== *)
theory Crypto
  imports SubBody
begin

text \<open>
  \<open>infrastructure/crypto/aes.go\<close>, which keeps the private keys and preshared keys encrypted in the database,
  and \<open>internal/wgkey\<close>. AES-GCM and Curve25519 are parameters: \<open>seal key nonce plaintext\<close>,
  \<open>open key nonce ciphertext\<close>, the clamping of a private key, the public key of a private key, and
  \<open>wgtypes.ParseKey\<close>. The base64 of the standard library is that of theory SubBody.
\<close>

record crypto_lib =
  cl_seal :: "string \<Rightarrow> string \<Rightarrow> string \<Rightarrow> string"
  cl_open :: "string \<Rightarrow> string \<Rightarrow> string \<Rightarrow> string option"
  cl_clamp :: "string \<Rightarrow> string"
  cl_public :: "string \<Rightarrow> string"
  cl_parse_key :: "string \<Rightarrow> string option"

text \<open>What is sealed can be opened with the same key and nonce.\<close>

definition aead_law :: "crypto_lib \<Rightarrow> bool" where
  "aead_law C \<longleftrightarrow> (\<forall>key nonce p. length key \<in> {16, 24, 32} \<longrightarrow> length nonce = 12 \<longrightarrow> cl_open C key nonce (cl_seal C key nonce p) = Some p)"

definition b64_StdEncode :: "string \<Rightarrow> string" where
  "b64_StdEncode s = b64_encode ''='' s"

definition nonce_size :: nat where "nonce_size = 12"

text \<open>\<open>aes.NewCipher\<close> takes keys of 16, 24 or 32 bytes. The draw is what \<open>io.ReadFull\<close> delivers for the nonce.\<close>

definition key_error :: go_error where "key_error = Opaque ''crypto/aes: invalid key size''"

definition EncryptGCM :: "crypto_lib \<Rightarrow> string \<Rightarrow> go_error + string \<Rightarrow> string \<Rightarrow> go_error + string" where
  "EncryptGCM C key draw plaintext = (if length key \<notin> {16, 24, 32} then Inl key_error
     else case draw of Inl e \<Rightarrow> Inl e
     | Inr r \<Rightarrow> (let nonce = take nonce_size r in Inr (b64_StdEncode (nonce @ cl_seal C key nonce plaintext))))"

definition DecryptGCM :: "crypto_lib \<Rightarrow> string \<Rightarrow> string \<Rightarrow> go_error + string" where
  "DecryptGCM C key enc = (case StdEncoding_DecodeString enc of
     None \<Rightarrow> Inl (Opaque ''illegal base64 data'')
   | Some raw \<Rightarrow>
     if length key \<notin> {16, 24, 32} then Inl key_error
     else if length raw < nonce_size then Inl (Opaque ''ciphertext short'')
     else case cl_open C key (take nonce_size raw) (drop nonce_size raw) of
       None \<Rightarrow> Inl (Opaque ''cipher: message authentication failed'')
     | Some p \<Rightarrow> Inr p)"

text \<open>wgkey: the private key is the clamped draw of 32 bytes.\<close>

definition GenerateKeypair :: "crypto_lib \<Rightarrow> go_error + string \<Rightarrow> go_error + string \<times> string" where
  "GenerateKeypair C draw = (case draw of Inl e \<Rightarrow> Inl e
     | Inr r \<Rightarrow> (let k = cl_clamp C (take 32 r) in Inr (b64_StdEncode k, b64_StdEncode (cl_public C k))))"

definition GeneratePSK :: "go_error + string \<Rightarrow> go_error + string" where
  "GeneratePSK draw = map_sum id (\<lambda>r. b64_StdEncode (take 32 r)) draw"

section \<open>Properties\<close>

lemma StdEncoding_encode: "StdEncoding_DecodeString (b64_StdEncode s) = Some s"
proof -
  have "c \<noteq> CHR 0x0A \<and> c \<noteq> CHR 0x0D" if "c \<in> set (b64_encode ''='' s)" for c
    using b64_encode_chars [OF that] by (auto simp: plain_def byte_def)
  then have "no_breaks (b64_encode ''='' s) = b64_encode ''='' s"
    unfolding no_breaks_def by (rule filter_all_True)
  then show ?thesis by (simp add: StdEncoding_DecodeString_def b64_StdEncode_def b64_std_encode)
qed

text \<open>What was encrypted for the database decrypts to the same bytes with the same key, for every key size the
  cipher takes and every nonce drawn; no value decrypts with a key of another size, and none whose bytes are
  fewer than a nonce.\<close>

theorem encrypt_decrypt:
  assumes "aead_law C" "length r \<ge> nonce_size" "EncryptGCM C key (Inr r) p = Inr enc"
  shows "DecryptGCM C key enc = Inr p
    \<and> (length key' \<notin> {16, 24, 32} \<longrightarrow> (\<forall>v q. DecryptGCM C key' v \<noteq> Inr q))
    \<and> (length raw < nonce_size \<longrightarrow> (\<forall>q. DecryptGCM C key (b64_StdEncode raw) \<noteq> Inr q))"
proof -
  have k: "length key \<in> {16, 24, 32}" and e: "enc = b64_StdEncode (take nonce_size r @ cl_seal C key (take nonce_size r) p)"
    using assms(3) by (auto simp: EncryptGCM_def Let_def split: if_splits)
  have n: "length (take nonce_size r) = 12" using assms(2) by (simp add: nonce_size_def)
  have "cl_open C key (take nonce_size r) (cl_seal C key (take nonce_size r) p) = Some p"
    using assms(1) k n unfolding aead_law_def by blast
  then have "DecryptGCM C key enc = Inr p" using k n by (simp add: DecryptGCM_def e StdEncoding_encode nonce_size_def)
  moreover have "DecryptGCM C key' v \<noteq> Inr q" if "length key' \<notin> {16, 24, 32}" for v q
    using that by (simp add: DecryptGCM_def split: option.split)
  moreover have "DecryptGCM C key (b64_StdEncode raw) \<noteq> Inr q" if "length raw < nonce_size" for q
    using that by (simp add: DecryptGCM_def StdEncoding_encode)
  ultimately show ?thesis by blast
qed

text \<open>A cipher that only marks the bytes, to show that the law can hold.\<close>

definition sample_crypto :: crypto_lib where
  "sample_crypto = \<lparr>cl_seal = (\<lambda>k n p. n @ p), cl_open = (\<lambda>k n c. if take 12 c = n then Some (drop 12 c) else None),
     cl_clamp = (\<lambda>k. k), cl_public = (\<lambda>k. k), cl_parse_key = StdEncoding_DecodeString\<rparr>"

lemma sample_crypto_law: "aead_law sample_crypto"
  by (auto simp: aead_law_def sample_crypto_def)

theorem encrypt_decrypt_witness:
  "DecryptGCM sample_crypto (replicate 16 CHR ''k'') (b64_StdEncode (replicate 24 CHR ''n'' @ ''secret'')) = Inr ''secret''"
proof (rule encrypt_decrypt [OF sample_crypto_law, THEN conjunct1])
  show "nonce_size \<le> length (replicate 12 CHR ''n'')" by (simp add: nonce_size_def)
  show "EncryptGCM sample_crypto (replicate 16 CHR ''k'') (Inr (replicate 12 CHR ''n'')) ''secret'' = Inr (b64_StdEncode (replicate 24 CHR ''n'' @ ''secret''))"
    by (simp add: EncryptGCM_def nonce_size_def sample_crypto_def numeral_eq_Suc)
qed

end
