(* ===== verification/SubscriptionRepo.thy ===== *)
theory SubscriptionRepo
  imports Db
begin

text \<open>
  \<open>internal/infrastructure/db/subscription_repo.go\<close>: subscriptions, their VLESS nodes, and the two
  pairs of operations that carry a tunnel's node bindings over a refresh (snapshot before the nodes are
  replaced, restore after).
\<close>

section \<open>Subscriptions\<close>

text \<open>\<open>Create\<close> stores the row with the column default for a zero refresh interval, but gives the caller
  back only the id and the time stamps.\<close>

definition sub_Create :: "subscription \<Rightarrow> ('a database_scheme, subscription) call" where
  "sub_Create s = exec (\<lambda>d.
     let i = t_seq (db_subs d) + 1;
         row = (\<lambda>k. \<lparr>sub_id = k, sub_name = sub_name s, sub_url = sub_url s,
                  sub_refresh = (if sub_refresh s = 0 then 3600 else sub_refresh s), sub_fetched = None,
                  sub_node_count = 0, sub_status = SubInactive, sub_error = [],
                  sub_created = db_now d, sub_updated = db_now d\<rparr>)
     in (s\<lparr>sub_id := i, sub_created := db_now d, sub_updated := db_now d\<rparr>,
         d\<lparr>db_subs := t_insert row (db_subs d)\<rparr>))"

definition sub_GetByID :: "int \<Rightarrow> ('a database_scheme, subscription) call" where
  "sub_GetByID i = bnd (query (\<lambda>d. t_find (\<lambda>r. sub_id r = i) (db_subs d)))
     (\<lambda>r. case r of None \<Rightarrow> fail ErrNotFound | Some s \<Rightarrow> ret s)"

definition sub_List :: "('a database_scheme, subscription list) call" where
  "sub_List = query (\<lambda>d. sort_key sub_id (t_select (\<lambda>_. True) (db_subs d)))"

text \<open>An update that matches no row is the error \<open>ErrNotFound\<close>; the same for deletes.\<close>

definition affected :: "('a database_scheme, int) call \<Rightarrow> ('a database_scheme, unit) call" where
  "affected m = bnd m (\<lambda>n. if n = 0 then fail ErrNotFound else ret ())"

definition sub_Update :: "subscription \<Rightarrow> ('a database_scheme, unit) call" where
  "sub_Update s = affected (exec (\<lambda>d.
     (t_count (\<lambda>r. sub_id r = sub_id s) (db_subs d),
      d\<lparr>db_subs := t_update (\<lambda>r. sub_id r = sub_id s)
          (\<lambda>r. r\<lparr>sub_name := sub_name s, sub_url := sub_url s, sub_refresh := sub_refresh s,
                 sub_fetched := sub_fetched s, sub_node_count := sub_node_count s,
                 sub_status := sub_status s, sub_error := sub_error s, sub_updated := db_now d\<rparr>)
          (db_subs d)\<rparr>)))"

definition sub_Delete :: "int \<Rightarrow> ('a database_scheme, unit) call" where
  "sub_Delete i = affected (exec (\<lambda>d.
     (t_count (\<lambda>r. sub_id r = i) (db_subs d), d\<lparr>db_subs := t_delete (\<lambda>r. sub_id r = i) (db_subs d)\<rparr>)))"

section \<open>Nodes\<close>

fun jsonOrEmpty :: "raw_json \<Rightarrow> raw_json" where
  "jsonOrEmpty RawEmpty = RawDoc (JObj [])"
| "jsonOrEmpty r = r"

definition node_row :: "vless_node \<Rightarrow> int \<Rightarrow> int \<Rightarrow> vless_node" where
  "node_row n now i = n\<lparr>vn_id := i, vn_transport := jsonOrEmpty (vn_transport n),
     vn_sec_config := jsonOrEmpty (vn_sec_config n),
     vn_encryption := (if vn_encryption n = [] then ''none'' else vn_encryption n),
     vn_network := (if vn_network n = [] then ''tcp'' else vn_network n),
     vn_security := (if vn_security n = [] then ''none'' else vn_security n),
     vn_created := now\<rparr>"

definition insert_node :: "vless_node \<Rightarrow> ('a database_scheme, vless_node) call" where
  "insert_node n = exec (\<lambda>d.
     (n\<lparr>vn_id := t_seq (db_nodes d) + 1\<rparr>, d\<lparr>db_nodes := t_insert (node_row n (db_now d)) (db_nodes d)\<rparr>))"

definition InsertNodes :: "vless_node list \<Rightarrow> ('a database_scheme, vless_node list) call" where
  "InsertNodes ns = tx (map_each insert_node ns)"

definition ListNodes :: "int \<Rightarrow> ('a database_scheme, vless_node list) call" where
  "ListNodes sid = query (\<lambda>d. sort_key vn_id (t_select (\<lambda>n. vn_sub n = sid) (db_nodes d)))"

definition ListAllNodes :: "('a database_scheme, vless_node list) call" where
  "ListAllNodes = query (\<lambda>d. sort_key vn_id (t_select (\<lambda>_. True) (db_nodes d)))"

definition GetNode :: "int \<Rightarrow> ('a database_scheme, vless_node) call" where
  "GetNode i = bnd (query (\<lambda>d. t_find (\<lambda>n. vn_id n = i) (db_nodes d)))
     (\<lambda>r. case r of None \<Rightarrow> fail ErrNotFound | Some n \<Rightarrow> ret n)"

definition FindTunnelIDsUsingNode :: "int \<Rightarrow> ('a database_scheme, int list) call" where
  "FindTunnelIDsUsingNode i = query (\<lambda>d. map wi_id (t_select (\<lambda>w. wi_node w = Some i) (db_ifaces d)))"

definition UpdateNode :: "vless_node \<Rightarrow> ('a database_scheme, unit) call" where
  "UpdateNode n = affected (exec (\<lambda>d.
     (t_count (\<lambda>r. vn_id r = vn_id n) (db_nodes d),
      d\<lparr>db_nodes := t_update (\<lambda>r. vn_id r = vn_id n)
          (\<lambda>r. n\<lparr>vn_id := vn_id r, vn_created := vn_created r, vn_transport := jsonOrEmpty (vn_transport n),
                 vn_sec_config := jsonOrEmpty (vn_sec_config n)\<rparr>)
          (db_nodes d)\<rparr>)))"

definition DeleteNode :: "int \<Rightarrow> ('a database_scheme, unit) call" where
  "DeleteNode i = affected (exec (\<lambda>d.
     (t_count (\<lambda>r. vn_id r = i) (db_nodes d), d\<lparr>db_nodes := t_delete (\<lambda>r. vn_id r = i) (db_nodes d)\<rparr>)))"

section \<open>Replacing the nodes of a subscription\<close>

definition node_of_sub :: "'a database_scheme \<Rightarrow> int \<Rightarrow> int \<Rightarrow> bool" where
  "node_of_sub d sid i \<longleftrightarrow> (\<exists>n\<in>set (t_rows (db_nodes d)). vn_id n = i \<and> vn_sub n = sid)"

definition active_of_sub :: "'a database_scheme \<Rightarrow> int \<Rightarrow> iface_row \<Rightarrow> bool" where
  "active_of_sub d sid w = (case wi_node w of None \<Rightarrow> False | Some i \<Rightarrow> node_of_sub d sid i)"

definition clear_active_of_sub :: "int \<Rightarrow> 'a database_scheme \<Rightarrow> 'a database_scheme" where
  "clear_active_of_sub sid d =
     d\<lparr>db_ifaces := t_update (active_of_sub d sid) (\<lambda>w. w\<lparr>wi_node := None\<rparr>) (db_ifaces d)\<rparr>"

definition delete_tnodes_of_sub :: "int \<Rightarrow> 'a database_scheme \<Rightarrow> 'a database_scheme" where
  "delete_tnodes_of_sub sid d =
     d\<lparr>db_tnodes := t_delete (\<lambda>r. node_of_sub d sid (tn_node r)) (db_tnodes d)\<rparr>"

definition delete_nodes_of_sub :: "int \<Rightarrow> 'a database_scheme \<Rightarrow> 'a database_scheme" where
  "delete_nodes_of_sub sid d = d\<lparr>db_nodes := t_delete (\<lambda>n. vn_sub n = sid) (db_nodes d)\<rparr>"

definition DeleteNodes :: "int \<Rightarrow> ('a database_scheme, unit) call" where
  "DeleteNodes sid = tx
     (bnd (exec (\<lambda>d. ((), clear_active_of_sub sid d))) (\<lambda>_.
      bnd (exec (\<lambda>d. ((), delete_tnodes_of_sub sid d))) (\<lambda>_.
      exec (\<lambda>d. ((), delete_nodes_of_sub sid d)))))"

definition active_bindings :: "int \<Rightarrow> 'a database_scheme \<Rightarrow> active_binding list" where
  "active_bindings sid d =
     [\<lparr>ab_iface = wi_id w, ab_raw = trim_space (vn_raw n)\<rparr>.
        w \<leftarrow> t_rows (db_ifaces d), wi_sub w = Some sid,
        n \<leftarrow> t_rows (db_nodes d), wi_node w = Some (vn_id n)]"

definition SnapshotActiveNodesForSubscription :: "int \<Rightarrow> ('a database_scheme, active_binding list) call" where
  "SnapshotActiveNodesForSubscription sid = query (active_bindings sid)"

definition tunnel_bindings :: "int \<Rightarrow> 'a database_scheme \<Rightarrow> tunnel_binding list" where
  "tunnel_bindings sid d =
     [\<lparr>tb_iface = tn_iface r, tb_raw = trim_space (vn_raw n), tb_pos = tn_pos r\<rparr>.
        r \<leftarrow> t_rows (db_tnodes d), n \<leftarrow> t_rows (db_nodes d), vn_id n = tn_node r \<and> vn_sub n = sid]"

definition SnapshotTunnelNodesForSubscription :: "int \<Rightarrow> ('a database_scheme, tunnel_binding list) call" where
  "SnapshotTunnelNodesForSubscription sid = query (tunnel_bindings sid)"

text \<open>The map \<open>firstByURI\<close> both restore operations build: the id of the first new node with that trimmed
  URI, 0 (the zero value of a missing key) if there is none.\<close>

fun first_by_uri :: "vless_node list \<Rightarrow> string \<Rightarrow> int" where
  "first_by_uri [] k = 0"
| "first_by_uri (n # ns) k =
     (if vn_id n \<noteq> 0 \<and> trim_space (vn_raw n) \<noteq> [] \<and> trim_space (vn_raw n) = k then vn_id n
      else first_by_uri ns k)"

definition add_tnode :: "int \<Rightarrow> int \<Rightarrow> int \<Rightarrow> 'a database_scheme \<Rightarrow> 'a database_scheme" where
  "add_tnode iface node pos d = d\<lparr>db_tnodes := t_insert
     (\<lambda>i. \<lparr>tn_id = i, tn_iface = iface, tn_node = node, tn_pos = pos, tn_created = db_now d\<rparr>) (db_tnodes d)\<rparr>"

definition insert_tnode :: "int \<Rightarrow> int \<Rightarrow> int \<Rightarrow> ('a database_scheme, unit) call" where
  "insert_tnode iface node pos = exec (\<lambda>d. ((), add_tnode iface node pos d))"

definition restore_one :: "vless_node list \<Rightarrow> tunnel_binding \<Rightarrow> ('a database_scheme, unit) call" where
  "restore_one ns b =
     (let newID = first_by_uri ns (trim_space (tb_raw b))
      in if newID = 0 then ret () else insert_tnode (tb_iface b) newID (tb_pos b))"

definition RestoreTunnelNodesAfterRefresh ::
    "int \<Rightarrow> tunnel_binding list \<Rightarrow> vless_node list \<Rightarrow> ('a database_scheme, unit) call" where
  "RestoreTunnelNodesAfterRefresh sid bs ns =
     (if bs = [] \<or> ns = [] then ret () else tx (for_each (restore_one ns) bs))"

definition set_active :: "int \<Rightarrow> int \<Rightarrow> int \<Rightarrow> 'a database_scheme \<Rightarrow> 'a database_scheme" where
  "set_active sid iface node d =
     d\<lparr>db_ifaces := t_update (\<lambda>w. wi_id w = iface \<and> wi_sub w = Some sid)
         (\<lambda>w. w\<lparr>wi_node := Some node, wi_updated := db_now d\<rparr>) (db_ifaces d)\<rparr>"

definition remap_one :: "int \<Rightarrow> vless_node list \<Rightarrow> active_binding \<Rightarrow> ('a database_scheme, unit) call" where
  "remap_one sid ns b =
     (let newID = first_by_uri ns (trim_space (ab_raw b))
      in if newID = 0 then ret () else exec (\<lambda>d. ((), set_active sid (ab_iface b) newID d)))"

definition RemapActiveNodesAfterRefresh ::
    "int \<Rightarrow> active_binding list \<Rightarrow> vless_node list \<Rightarrow> ('a database_scheme, unit) call" where
  "RemapActiveNodesAfterRefresh sid bs ns =
     (if bs = [] \<or> ns = [] then ret () else for_each (remap_one sid ns) bs)"

section \<open>The operations keep the schema\<close>

lemma preserves_affected [preserves_intro]: "preserves I m \<Longrightarrow> preserves I (affected m)"
  unfolding affected_def by (intro preserves_intro) auto

lemma sub_ops_schema [preserves_intro]:
  "preserves schema_ok (sub_Create s)" "preserves schema_ok (sub_GetByID i)"
  "preserves schema_ok sub_List" "preserves schema_ok (sub_Update s)" "preserves schema_ok (sub_Delete i)"
  unfolding sub_Create_def sub_GetByID_def sub_List_def sub_Update_def sub_Delete_def
  by (auto simp: Let_def intro!: preserves_intro schema_intros)

lemma insert_node_schema [preserves_intro]: "preserves schema_ok (insert_node n)"
  unfolding insert_node_def by (rule preserves_exec_schema) (simp add: node_row_def ids_ok_upd table_ok_insert)

lemma UpdateNode_schema [preserves_intro]: "preserves schema_ok (UpdateNode n)"
  unfolding UpdateNode_def
  by (rule preserves_affected, rule preserves_exec_schema) (simp add: ids_ok_upd table_ok_update)

lemma DeleteNode_schema [preserves_intro]: "preserves schema_ok (DeleteNode i)"
  unfolding DeleteNode_def
  by (rule preserves_affected, rule preserves_exec_schema) (simp add: ids_ok_upd table_ok_delete)

lemma GetNode_schema [preserves_intro]: "preserves schema_ok (GetNode i)"
  unfolding GetNode_def by (intro preserves_intro)

lemma node_queries_schema [preserves_intro]:
  "preserves schema_ok (ListNodes i)" "preserves schema_ok ListAllNodes"
  "preserves schema_ok (FindTunnelIDsUsingNode i)"
  unfolding ListNodes_def ListAllNodes_def FindTunnelIDsUsingNode_def by (intro preserves_intro)+

lemma refresh_ops_schema [preserves_intro]:
  "preserves schema_ok (InsertNodes ns)" "preserves schema_ok (DeleteNodes i)"
  "preserves schema_ok (SnapshotActiveNodesForSubscription i)"
  "preserves schema_ok (SnapshotTunnelNodesForSubscription i)"
  "preserves schema_ok (insert_tnode a b c)"
  unfolding InsertNodes_def DeleteNodes_def SnapshotActiveNodesForSubscription_def
    SnapshotTunnelNodesForSubscription_def insert_tnode_def
  by (auto simp: clear_active_of_sub_def delete_tnodes_of_sub_def delete_nodes_of_sub_def add_tnode_def
      intro!: preserves_intro schema_intros)

lemma restore_ops_schema [preserves_intro]:
  "preserves schema_ok (restore_one ns b)" "preserves schema_ok (remap_one i ns a)"
  unfolding restore_one_def remap_one_def Let_def
  by (auto simp: set_active_def intro!: preserves_intro schema_intros)

lemma rebind_ops_schema [preserves_intro]:
  "preserves schema_ok (RestoreTunnelNodesAfterRefresh i ts ns)"
  "preserves schema_ok (RemapActiveNodesAfterRefresh i bs ns)"
  unfolding RestoreTunnelNodesAfterRefresh_def RemapActiveNodesAfterRefresh_def
  by (intro preserves_intro)+

section \<open>Wiping the nodes of a subscription never trips over a foreign key\<close>

definition wipe_nodes :: "int \<Rightarrow> 'a database_scheme \<Rightarrow> 'a database_scheme" where
  "wipe_nodes sid d = delete_nodes_of_sub sid (delete_tnodes_of_sub sid (clear_active_of_sub sid d))"

lemma node_of_sub_clock [simp]: "node_of_sub (d\<lparr>db_clock := n\<rparr>) = node_of_sub d"
  by (simp add: fun_eq_iff node_of_sub_def)

lemma active_of_sub_clock [simp]: "active_of_sub (d\<lparr>db_clock := n\<rparr>) = active_of_sub d"
  by (simp add: fun_eq_iff active_of_sub_def split: option.split)

lemma wipe_parts_clock [simp]:
  "clear_active_of_sub sid (tick d) = tick (clear_active_of_sub sid d)"
  "delete_tnodes_of_sub sid (tick d) = tick (delete_tnodes_of_sub sid d)"
  "delete_nodes_of_sub sid (tick d) = tick (delete_nodes_of_sub sid d)"
  by (simp_all add: clear_active_of_sub_def delete_tnodes_of_sub_def delete_nodes_of_sub_def tick_def)

lemma wipe_parts_fault [simp]:
  "no_fault (clear_active_of_sub sid d) = no_fault d"
  "no_fault (delete_tnodes_of_sub sid d) = no_fault d"
  "no_fault (delete_nodes_of_sub sid d) = no_fault d"
  by (simp_all add: clear_active_of_sub_def delete_tnodes_of_sub_def delete_nodes_of_sub_def no_fault_def)

lemma clear_active_schema:
  assumes "schema_ok d" shows "schema_ok (clear_active_of_sub sid d)"
proof -
  let ?t = "t_update (active_of_sub d sid) (\<lambda>w. w\<lparr>wi_node := None\<rparr>) (db_ifaces d)"
  have k: "map wi_id (t_rows ?t) = map wi_id (t_rows (db_ifaces d))"
    "map wi_name (t_rows ?t) = map wi_name (t_rows (db_ifaces d))"
    "map wi_port (t_rows ?t) = map wi_port (t_rows (db_ifaces d))"
    by (rule t_update_keys(1), simp)+
  have r: "\<forall>w\<in>set (t_rows ?t). ref_ok sub_id (db_subs d) (wi_sub w) \<and> ref_ok vn_id (db_nodes d) (wi_node w)"
  proof
    fix w assume "w \<in> set (t_rows ?t)"
    then obtain q where q: "q \<in> set (t_rows (db_ifaces d))"
        "w = (if active_of_sub d sid q then q\<lparr>wi_node := None\<rparr> else q)"
      by (auto simp: t_update_def)
    with assms have "ref_ok sub_id (db_subs d) (wi_sub q) \<and> ref_ok vn_id (db_nodes d) (wi_node q)"
      by (simp add: schema_ok_def iface_refs_ok_def)
    with q(2) show "ref_ok sub_id (db_subs d) (wi_sub w) \<and> ref_ok vn_id (db_nodes d) (wi_node w)"
      by simp
  qed
  have "unique_ok (clear_active_of_sub sid d)" using assms k
    by (simp add: schema_ok_def unique_ok_def clear_active_of_sub_def)
  moreover have "iface_refs_ok (clear_active_of_sub sid d)" using r
    by (simp add: iface_refs_ok_def clear_active_of_sub_def)
  moreover have "ids_ok (clear_active_of_sub sid d)" using assms
    by (simp add: schema_ok_def clear_active_of_sub_def ids_ok_upd table_ok_update)
  moreover have "peer_refs_ok (clear_active_of_sub sid d)" "tnode_refs_ok (clear_active_of_sub sid d)"
    using assms by (simp_all add: schema_ok_def clear_active_of_sub_def peer_refs_ok_def tnode_refs_ok_def)
  ultimately show ?thesis by (simp add: schema_ok_def)
qed

lemma clear_active_none:
  "w \<in> set (t_rows (db_ifaces (clear_active_of_sub sid d))) \<Longrightarrow> wi_node w = Some i \<Longrightarrow> \<not> node_of_sub d sid i"
  by (auto simp: clear_active_of_sub_def active_of_sub_def t_update_def split: if_splits)

lemma delete_tnodes_schema: "schema_ok d \<Longrightarrow> schema_ok (delete_tnodes_of_sub sid d)"
  by (auto simp: schema_defs delete_tnodes_of_sub_def t_delete_def table_ok_def sorted_wrt_map sorted_wrt_filter)

lemma not_node_of_sub_kept:
  "has_id vn_id (db_nodes d) i \<Longrightarrow> \<not> node_of_sub d sid i \<Longrightarrow>
   has_id vn_id (t_delete (\<lambda>n. vn_sub n = sid) (db_nodes d)) i"
  by (auto simp: has_id_def t_delete_def node_of_sub_def)

lemma delete_nodes_schema:
  assumes "schema_ok d"
    and "\<And>w i. w \<in> set (t_rows (db_ifaces d)) \<Longrightarrow> wi_node w = Some i \<Longrightarrow> \<not> node_of_sub d sid i"
    and "\<And>r. r \<in> set (t_rows (db_tnodes d)) \<Longrightarrow> \<not> node_of_sub d sid (tn_node r)"
  shows "schema_ok (delete_nodes_of_sub sid d)"
proof -
  have "iface_refs_ok (delete_nodes_of_sub sid d)"
    using assms(1,2) not_node_of_sub_kept
    by (fastforce simp: schema_ok_def iface_refs_ok_def delete_nodes_of_sub_def ref_ok_def split: option.splits)
  moreover have "tnode_refs_ok (delete_nodes_of_sub sid d)"
    using assms(1,3) not_node_of_sub_kept
    by (fastforce simp: schema_ok_def tnode_refs_ok_def delete_nodes_of_sub_def)
  ultimately show ?thesis using assms(1)
    by (simp add: schema_ok_def delete_nodes_of_sub_def peer_refs_ok_def unique_ok_def
        ids_ok_upd table_ok_delete)
qed

lemma wipe_steps_schema:
  assumes "schema_ok d"
  shows "schema_ok (clear_active_of_sub sid d)"
    "schema_ok (delete_tnodes_of_sub sid (clear_active_of_sub sid d))"
    "schema_ok (wipe_nodes sid d)"
proof -
  show 1: "schema_ok (clear_active_of_sub sid d)" by (rule clear_active_schema [OF assms])
  show 2: "schema_ok (delete_tnodes_of_sub sid (clear_active_of_sub sid d))"
    by (rule delete_tnodes_schema [OF 1])
  have n: "node_of_sub (delete_tnodes_of_sub sid (clear_active_of_sub sid d)) = node_of_sub d"
    "node_of_sub (clear_active_of_sub sid d) = node_of_sub d"
    by (simp_all add: fun_eq_iff node_of_sub_def delete_tnodes_of_sub_def clear_active_of_sub_def)
  show "schema_ok (wipe_nodes sid d)" unfolding wipe_nodes_def
  proof (rule delete_nodes_schema [OF 2], unfold n)
    fix w i assume "w \<in> set (t_rows (db_ifaces (delete_tnodes_of_sub sid (clear_active_of_sub sid d))))"
      "wi_node w = Some i"
    then show "\<not> node_of_sub d sid i"
      using clear_active_none [of w sid d i] by (simp add: delete_tnodes_of_sub_def)
  next
    fix r assume "r \<in> set (t_rows (db_tnodes (delete_tnodes_of_sub sid (clear_active_of_sub sid d))))"
    then show "\<not> node_of_sub d sid (tn_node r)"
      using n(2) by (auto simp: delete_tnodes_of_sub_def t_delete_def)
  qed
qed

lemma DeleteNodes_run:
  assumes "schema_ok d" "no_fault d"
  shows "DeleteNodes sid d = (Inr (), (wipe_nodes sid d)\<lparr>db_clock := db_clock d + 4\<rparr>)"
proof -
  let ?a = "clear_active_of_sub sid d" and ?b = "delete_tnodes_of_sub sid (clear_active_of_sub sid d)"
  have 1: "exec (\<lambda>d. ((), clear_active_of_sub sid d)) d = (Inr (), tick ?a)"
    using assms wipe_steps_schema(1) [OF assms(1)] by (simp add: schema_dml)
  have 2: "exec (\<lambda>d. ((), delete_tnodes_of_sub sid d)) (tick ?a) = (Inr (), tick (tick ?b))"
    using assms wipe_steps_schema(2) [OF assms(1)] by (simp add: schema_dml)
  have 3: "exec (\<lambda>d. ((), delete_nodes_of_sub sid d)) (tick (tick ?b)) = (Inr (), tick (tick (tick (wipe_nodes sid d))))"
    using assms wipe_steps_schema(3) [OF assms(1)] by (simp add: schema_dml wipe_nodes_def)
  have "no_fault (wipe_nodes sid d)" using assms(2) by (simp add: wipe_nodes_def)
  then have f: "db_fault (wipe_nodes sid d) k = None" for k by (simp add: no_fault_def)
  have "db_clock (wipe_nodes sid d) = db_clock d"
    by (simp add: wipe_nodes_def delete_nodes_of_sub_def delete_tnodes_of_sub_def clear_active_of_sub_def)
  moreover have "db_fault d k = None" for k using assms(2) by (simp add: no_fault_def)
  ultimately show ?thesis using f
    by (simp add: DeleteNodes_def tx_def bnd_def 1 2 3 del: no_fault_exec) (simp add: tick_def)
qed

lemma add_tnode_schema:
  assumes "schema_ok d" "has_id wi_id (db_ifaces d) i" "has_id vn_id (db_nodes d) n"
  shows "schema_ok (add_tnode i n p d)"
proof -
  have "ids_ok (add_tnode i n p d)"
    using assms(1) by (simp add: add_tnode_def schema_ok_def ids_ok_upd table_ok_insert)
  moreover have "tnode_refs_ok (add_tnode i n p d)"
    using assms by (auto simp: add_tnode_def schema_ok_def tnode_refs_ok_def t_insert_def)
  ultimately show ?thesis using assms(1)
    by (simp add: add_tnode_def schema_ok_def iface_refs_ok_def peer_refs_ok_def unique_ok_def)
qed

lemma add_tnode_sel [simp]:
  "db_ifaces (add_tnode i n p d) = db_ifaces d" "db_nodes (add_tnode i n p d) = db_nodes d"
  "db_subs (add_tnode i n p d) = db_subs d" "db_peers (add_tnode i n p d) = db_peers d"
  "db_fault (add_tnode i n p d) = db_fault d" "db_now (add_tnode i n p d) = db_now d"
  "db_clock (add_tnode i n p d) = db_clock d" "no_fault (add_tnode i n p d) = no_fault d"
  "add_tnode i n p (ticks k d) = ticks k (add_tnode i n p d)"
  by (simp_all add: add_tnode_def no_fault_def ticks_def)

lemma insert_tnode_run:
  assumes "schema_ok d" "no_fault d" "has_id wi_id (db_ifaces d) i" "has_id vn_id (db_nodes d) n"
  shows "insert_tnode i n p d = (Inr (), ticks 1 (add_tnode i n p d))"
  using assms add_tnode_schema [OF assms(1,3,4), of p]
  by (simp add: insert_tnode_def exec_run tick_ticks del: no_fault_exec)

text \<open>Without the node, or the tunnel, the insert is refused.\<close>

lemma insert_tnode_refused:
  assumes "schema_ok d" "no_fault d" "\<not> (has_id wi_id (db_ifaces d) i \<and> has_id vn_id (db_nodes d) n)"
  shows "insert_tnode i n p d = (Inl fk_error, ticks 1 d)"
proof -
  have "unique_ok (add_tnode i n p (tick d))" using assms(1)
    by (simp add: add_tnode_def schema_ok_def unique_ok_def)
  moreover have "\<not> refs_ok (add_tnode i n p (tick d))" using assms(3)
    by (auto simp: add_tnode_def refs_ok_def tnode_refs_ok_def t_insert_def)
  ultimately show ?thesis using assms(2) by (simp add: insert_tnode_def dml_def tick_ticks)
qed

lemma wipe_nodes_sel:
  "db_subs (wipe_nodes sid d) = db_subs d"
  "db_peers (wipe_nodes sid d) = db_peers d"
  "db_nodes (wipe_nodes sid d) = t_delete (\<lambda>n. vn_sub n = sid) (db_nodes d)"
  "db_tnodes (wipe_nodes sid d) = t_delete (\<lambda>r. node_of_sub d sid (tn_node r)) (db_tnodes d)"
  "db_ifaces (wipe_nodes sid d) = t_update (active_of_sub d sid) (\<lambda>w. w\<lparr>wi_node := None\<rparr>) (db_ifaces d)"
  "db_fault (wipe_nodes sid d) = db_fault d" "db_now (wipe_nodes sid d) = db_now d"
  by (simp_all add: wipe_nodes_def delete_nodes_of_sub_def delete_tnodes_of_sub_def
      clear_active_of_sub_def node_of_sub_def)

section \<open>Properties\<close>

definition sample_node :: "int \<Rightarrow> int \<Rightarrow> string \<Rightarrow> vless_node" where
  "sample_node i sid raw = \<lparr>vn_id = i, vn_sub = sid, vn_display = ''n'', vn_uuid = ''u'',
     vn_address = ''a'', vn_port = 443, vn_flow = [], vn_encryption = ''none'', vn_packet = [],
     vn_network = ''tcp'', vn_transport = RawDoc (JObj []), vn_security = ''none'',
     vn_sec_config = RawDoc (JObj []), vn_raw = raw, vn_created = 0\<rparr>"

definition sample_iface :: "int \<Rightarrow> string \<Rightarrow> int \<Rightarrow> int option \<Rightarrow> int option \<Rightarrow> iface_row" where
  "sample_iface i name port sub node = \<lparr>wi_id = i, wi_name = name, wi_tun = [], wi_pubkey = ''k'',
     wi_port = port, wi_address = ''10.0.0.1/24'', wi_dns = ''10.0.0.1'', wi_mtu = 1420, wi_mss = 1280,
     wi_sub = sub, wi_node = node, wi_xray_port = 0, wi_fwmark = 0, wi_status = WgStopped,
     wi_error = [], wi_uptime = None, wi_strategy = ''round_robin'', wi_created = 0, wi_updated = 0,
     wi_priv = ''p''\<rparr>"

definition sample_sub :: "int \<Rightarrow> subscription" where
  "sample_sub i = \<lparr>sub_id = i, sub_name = ''s'', sub_url = ''https://s'', sub_refresh = 3600,
     sub_fetched = None, sub_node_count = 0, sub_status = SubActive, sub_error = [],
     sub_created = 0, sub_updated = 0\<rparr>"

text \<open>A database with two subscriptions, a node of each, and a tunnel that uses both nodes.\<close>

definition sample_db :: database where
  "sample_db = empty_database\<lparr>
     db_subs := \<lparr>t_rows = [sample_sub 1, sample_sub 2], t_seq = 2\<rparr>,
     db_nodes := \<lparr>t_rows = [sample_node 1 1 ''vless://a'', sample_node 2 2 ''vless://b''], t_seq = 2\<rparr>,
     db_ifaces := \<lparr>t_rows = [sample_iface 1 ''wg1'' 51820 (Some 1) (Some 1)], t_seq = 1\<rparr>,
     db_tnodes := \<lparr>t_rows = [\<lparr>tn_id = 1, tn_iface = 1, tn_node = 1, tn_pos = 0, tn_created = 0\<rparr>,
                            \<lparr>tn_id = 2, tn_iface = 1, tn_node = 2, tn_pos = 1, tn_created = 0\<rparr>], t_seq = 2\<rparr>\<rparr>"

lemmas sample_defs = sample_db_def sample_sub_def sample_node_def sample_iface_def empty_database_def
  empty_table_def

lemma sample_db_ok: "schema_ok sample_db" "no_fault sample_db"
  by (simp_all add: sample_defs schema_defs no_fault_def table_ok_def has_id_def)

text \<open>C3: wiping the nodes of a subscription (\<open>DeleteNodes\<close>) never fails on a consistent database when
  no statement is interrupted, although foreign keys point at the deleted rows: it removes exactly the
  nodes of that subscription, exactly the junction rows that use one of them, and the active node of
  exactly the tunnels whose active node was one of them; every other row stays as it was, and the
  schema's constraints still hold.\<close>

theorem DeleteNodes_exact:
  assumes "schema_ok d" "no_fault d"
  shows "\<exists>t. DeleteNodes sid d = (Inr (), t) \<and> schema_ok t
     \<and> t_rows (db_nodes t) = filter (\<lambda>n. vn_sub n \<noteq> sid) (t_rows (db_nodes d))
     \<and> t_rows (db_tnodes t) = filter (\<lambda>r. \<not> node_of_sub d sid (tn_node r)) (t_rows (db_tnodes d))
     \<and> t_rows (db_ifaces t) = map (\<lambda>w. if active_of_sub d sid w then w\<lparr>wi_node := None\<rparr> else w) (t_rows (db_ifaces d))
     \<and> db_subs t = db_subs d \<and> db_peers t = db_peers d"
  by (intro exI conjI, rule DeleteNodes_run [OF assms])
     (simp_all add: wipe_steps_schema(3) [OF assms(1)] wipe_nodes_sel t_delete_def t_update_def)

theorem DeleteNodes_exact_witness:
  "\<exists>t. DeleteNodes 1 sample_db = (Inr (), t) \<and> map vn_id (t_rows (db_nodes t)) = [2]
     \<and> map tn_node (t_rows (db_tnodes t)) = [2] \<and> map wi_node (t_rows (db_ifaces t)) = [None]"
proof -
  obtain t where "DeleteNodes 1 sample_db = (Inr (), t)"
    and n: "t_rows (db_nodes t) = filter (\<lambda>n. vn_sub n \<noteq> 1) (t_rows (db_nodes sample_db))"
    and r: "t_rows (db_tnodes t) = filter (\<lambda>r. \<not> node_of_sub sample_db 1 (tn_node r)) (t_rows (db_tnodes sample_db))"
    and w: "t_rows (db_ifaces t) = map (\<lambda>w. if active_of_sub sample_db 1 w then w\<lparr>wi_node := None\<rparr> else w)
        (t_rows (db_ifaces sample_db))"
    using DeleteNodes_exact [OF sample_db_ok, of 1] by blast
  moreover have "map vn_id (t_rows (db_nodes t)) = [2]" "map tn_node (t_rows (db_tnodes t)) = [2]"
    "map wi_node (t_rows (db_ifaces t)) = [None]"
    unfolding n r w by code_simp+
  ultimately show ?thesis by (intro exI [of _ t] conjI)
qed

end
