(* ===== verification/TunnelRepo.thy ===== *)
theory TunnelRepo
  imports SubscriptionRepo
begin

text \<open>
  \<open>tunnel_repo.go\<close> and \<open>tunnel_node_repo.go\<close>: the tunnels (WireGuard interfaces) and the junction table
  that gives each its ordered list of nodes; and the backfill that \<open>AutoMigrate\<close> (\<open>models.go\<close>) runs at
  every start of the process.
\<close>

section \<open>Tunnels\<close>

text \<open>\<open>Create\<close> leaves the balancing strategy to the column's default, whatever the caller's record says.\<close>

definition iface_to_row :: "wg_interface \<Rightarrow> string \<Rightarrow> int \<Rightarrow> int \<Rightarrow> iface_row" where
  "iface_to_row w priv now i = \<lparr>wi_id = i, wi_name = wi_name w, wi_tun = wi_tun w, wi_pubkey = wi_pubkey w,
     wi_port = wi_port w, wi_address = wi_address w,
     wi_dns = (if wi_dns w = [] then ''1.1.1.1,8.8.8.8'' else wi_dns w),
     wi_mtu = (if wi_mtu w = 0 then 1420 else wi_mtu w),
     wi_mss = (if wi_mss w = 0 then 1280 else wi_mss w),
     wi_sub = wi_sub w, wi_node = wi_node w, wi_xray_port = wi_xray_port w, wi_fwmark = wi_fwmark w,
     wi_status = wi_status w, wi_error = [], wi_uptime = None, wi_strategy = BalancingRoundRobin,
     wi_created = now, wi_updated = now, wi_priv = priv\<rparr>"

definition ifaceRow :: "iface_row \<Rightarrow> wg_interface" where
  "ifaceRow r = wg_interface.truncate r"

definition tun_Create :: "wg_interface \<Rightarrow> string \<Rightarrow> ('a database_scheme, wg_interface) call" where
  "tun_Create w priv = exec (\<lambda>d.
     (w\<lparr>wi_id := t_seq (db_ifaces d) + 1, wi_created := db_now d, wi_updated := db_now d\<rparr>,
      d\<lparr>db_ifaces := t_insert (iface_to_row w priv (db_now d)) (db_ifaces d)\<rparr>))"

definition tun_GetByID :: "int \<Rightarrow> ('a database_scheme, wg_interface \<times> string) call" where
  "tun_GetByID i = bnd (query (\<lambda>d. t_find (\<lambda>r. wi_id r = i) (db_ifaces d)))
     (\<lambda>r. case r of None \<Rightarrow> fail ErrNotFound | Some w \<Rightarrow> ret (ifaceRow w, wi_priv w))"

definition tun_List :: "('a database_scheme, wg_interface list) call" where
  "tun_List = query (\<lambda>d. map ifaceRow (sort_key wi_id (t_select (\<lambda>_. True) (db_ifaces d))))"

text \<open>A nil active node is not written: the stored binding stays.\<close>

definition merge_iface :: "wg_interface \<Rightarrow> int \<Rightarrow> iface_row \<Rightarrow> iface_row" where
  "merge_iface w now r = r\<lparr>wi_name := wi_name w, wi_port := wi_port w, wi_address := wi_address w,
     wi_dns := wi_dns w, wi_mtu := wi_mtu w, wi_mss := wi_mss w, wi_sub := wi_sub w,
     wi_xray_port := wi_xray_port w, wi_fwmark := wi_fwmark w, wi_tun := wi_tun w,
     wi_status := wi_status w, wi_error := wi_error w, wi_uptime := wi_uptime w,
     wi_strategy := wi_strategy w,
     wi_node := (case wi_node w of None \<Rightarrow> wi_node r | Some n \<Rightarrow> Some n), wi_updated := now\<rparr>"

definition tun_Update :: "wg_interface \<Rightarrow> ('a database_scheme, unit) call" where
  "tun_Update w = affected (exec (\<lambda>d.
     (t_count (\<lambda>r. wi_id r = wi_id w) (db_ifaces d),
      d\<lparr>db_ifaces := t_update (\<lambda>r. wi_id r = wi_id w) (merge_iface w (db_now d)) (db_ifaces d)\<rparr>)))"

definition update_iface :: "int \<Rightarrow> (iface_row \<Rightarrow> iface_row) \<Rightarrow> ('a database_scheme, unit) call" where
  "update_iface i f = exec (\<lambda>d.
     ((), d\<lparr>db_ifaces := t_update (\<lambda>r. wi_id r = i) (\<lambda>r. (f r)\<lparr>wi_updated := db_now d\<rparr>) (db_ifaces d)\<rparr>))"

definition ClearActiveNodeID :: "int \<Rightarrow> ('a database_scheme, unit) call" where
  "ClearActiveNodeID i = update_iface i (\<lambda>r. r\<lparr>wi_node := None\<rparr>)"

definition UpdateStatus :: "int \<Rightarrow> wg_status \<Rightarrow> string \<Rightarrow> ('a database_scheme, unit) call" where
  "UpdateStatus i st msg = update_iface i (\<lambda>r. r\<lparr>wi_status := st, wi_error := msg\<rparr>)"

definition UpdateRuntimeFields :: "int \<Rightarrow> string \<Rightarrow> int \<Rightarrow> int \<Rightarrow> ('a database_scheme, unit) call" where
  "UpdateRuntimeFields i tun xport fwmark =
     update_iface i (\<lambda>r. r\<lparr>wi_tun := tun, wi_xray_port := xport, wi_fwmark := fwmark\<rparr>)"

definition ListRunningIDs :: "('a database_scheme, int list) call" where
  "ListRunningIDs = query (\<lambda>d. map wi_id (t_select (\<lambda>r. wi_status r = WgRunning) (db_ifaces d)))"

definition CountPeers :: "int \<Rightarrow> ('a database_scheme, int) call" where
  "CountPeers i = query (\<lambda>d. t_count (\<lambda>p. wp_iface p = i) (db_peers d))"

section \<open>The delete cascade\<close>

definition peer_ids_of :: "int \<Rightarrow> 'a database_scheme \<Rightarrow> int list" where
  "peer_ids_of i d = map wp_id (t_select (\<lambda>p. wp_iface p = i) (db_peers d))"

definition del_stats :: "(stat_snapshot \<Rightarrow> bool) \<Rightarrow> 'a database_scheme \<Rightarrow> 'a database_scheme" where
  "del_stats P d = d\<lparr>db_stats := t_delete P (db_stats d)\<rparr>"

definition del_peers_of :: "int \<Rightarrow> 'a database_scheme \<Rightarrow> 'a database_scheme" where
  "del_peers_of i d = d\<lparr>db_peers := t_delete (\<lambda>p. wp_iface p = i) (db_peers d)\<rparr>"

definition del_tnodes_of :: "int \<Rightarrow> 'a database_scheme \<Rightarrow> 'a database_scheme" where
  "del_tnodes_of i d = d\<lparr>db_tnodes := t_delete (\<lambda>r. tn_iface r = i) (db_tnodes d)\<rparr>"

definition del_iface :: "int \<Rightarrow> 'a database_scheme \<Rightarrow> 'a database_scheme" where
  "del_iface i d = d\<lparr>db_ifaces := t_delete (\<lambda>r. wi_id r = i) (db_ifaces d)\<rparr>"

definition tun_Delete :: "int \<Rightarrow> ('a database_scheme, unit) call" where
  "tun_Delete i = tx
     (bnd (query (peer_ids_of i)) (\<lambda>ps.
      bnd (if ps \<noteq> [] then exec (\<lambda>d. ((), del_stats (\<lambda>s. \<exists>p\<in>set ps. ss_peer s = Some p) d)) else ret ()) (\<lambda>_.
      bnd (exec (\<lambda>d. ((), del_stats (\<lambda>s. ss_iface s = Some i) d))) (\<lambda>_.
      bnd (exec (\<lambda>d. ((), del_peers_of i d))) (\<lambda>_.
      bnd (exec (\<lambda>d. ((), del_tnodes_of i d))) (\<lambda>_.
      affected (exec (\<lambda>d. (t_count (\<lambda>r. wi_id r = i) (db_ifaces d), del_iface i d)))))))))"

section \<open>The nodes of a tunnel (tunnel_node_repo.go)\<close>

fun insert_positions :: "int \<Rightarrow> int \<Rightarrow> int list \<Rightarrow> ('a database_scheme, unit) call" where
  "insert_positions tid k [] = ret ()"
| "insert_positions tid k (n # ns) = bnd (insert_tnode tid n k) (\<lambda>_. insert_positions tid (k + 1) ns)"

definition SetNodes :: "int \<Rightarrow> int list \<Rightarrow> ('a database_scheme, unit) call" where
  "SetNodes tid ns = tx
     (bnd (exec (\<lambda>d. ((), del_tnodes_of tid d))) (\<lambda>_. insert_positions tid 0 ns))"

definition node_list :: "int \<Rightarrow> 'a database_scheme \<Rightarrow> vless_node list" where
  "node_list tid d = List.map_filter (\<lambda>r. t_find (\<lambda>n. vn_id n = tn_node r) (db_nodes d))
     (sort_key tn_pos (t_select (\<lambda>r. tn_iface r = tid) (db_tnodes d)))"

text \<open>The rows and, by a second statement (\<open>Preload\<close>), their nodes.\<close>

definition tun_ListNodes :: "int \<Rightarrow> ('a database_scheme, vless_node list) call" where
  "tun_ListNodes tid = bnd (query (\<lambda>d. t_select (\<lambda>r. tn_iface r = tid) (db_tnodes d)))
     (\<lambda>rs. if rs = [] then ret [] else query (node_list tid))"

section \<open>The backfill of AutoMigrate (models.go)\<close>

text \<open>\<open>INSERT OR IGNORE INTO tunnel_nodes ... SELECT id, active_node_id, 0 FROM wg_interfaces WHERE
  active_node_id IS NOT NULL\<close>: OR IGNORE skips a row that would violate a unique index, and
  tunnel_nodes has none beside its automatic id.\<close>

definition backfill_one :: "iface_row \<Rightarrow> 'a database_scheme \<Rightarrow> 'a database_scheme" where
  "backfill_one w d = (case wi_node w of None \<Rightarrow> d | Some n \<Rightarrow> add_tnode (wi_id w) n 0 d)"

definition backfill_tnodes :: "'a database_scheme \<Rightarrow> 'a database_scheme" where
  "backfill_tnodes d = fold backfill_one (t_rows (db_ifaces d)) d"

definition migrate_tnodes :: "('a database_scheme, unit) call" where
  "migrate_tnodes = exec (\<lambda>d. ((), backfill_tnodes d))"

section \<open>The operations keep the schema\<close>

lemma merge_iface_id [simp]: "wi_id (merge_iface w n r) = wi_id r"
  by (simp add: merge_iface_def)

lemma tun_Create_schema [preserves_intro]: "preserves schema_ok (tun_Create w p)"
  unfolding tun_Create_def
  by (rule preserves_exec_schema) (simp add: ids_ok_upd table_ok_insert iface_to_row_def)

lemma tun_Update_schema [preserves_intro]: "preserves schema_ok (tun_Update w)"
  unfolding tun_Update_def
  by (rule preserves_affected, rule preserves_exec_schema) (simp add: ids_ok_upd table_ok_update)

lemma update_iface_schema:
  "(\<And>r. wi_id (f r) = wi_id r) \<Longrightarrow> preserves schema_ok (update_iface i f)"
  unfolding update_iface_def by (rule preserves_exec_schema) (simp add: ids_ok_upd table_ok_update)

lemma field_updates_schema [preserves_intro]:
  "preserves schema_ok (ClearActiveNodeID i)" "preserves schema_ok (UpdateStatus i st m)"
  "preserves schema_ok (UpdateRuntimeFields i t x f)"
  unfolding ClearActiveNodeID_def UpdateStatus_def UpdateRuntimeFields_def
  by (rule update_iface_schema, simp)+

lemma tun_queries_schema [preserves_intro]:
  "preserves schema_ok tun_List" "preserves schema_ok ListRunningIDs" "preserves schema_ok (CountPeers i)"
  unfolding tun_List_def ListRunningIDs_def CountPeers_def by (intro preserves_intro)+

lemma tun_GetByID_schema [preserves_intro]: "preserves schema_ok (tun_GetByID i)"
  unfolding tun_GetByID_def by (intro preserves_intro)

lemma del_ids_ok:
  "ids_ok d \<Longrightarrow> ids_ok (del_stats P d)" "ids_ok d \<Longrightarrow> ids_ok (del_peers_of i d)"
  "ids_ok d \<Longrightarrow> ids_ok (del_tnodes_of i d)" "ids_ok d \<Longrightarrow> ids_ok (del_iface i d)"
  by (simp_all add: del_stats_def del_peers_of_def del_tnodes_of_def del_iface_def ids_ok_upd table_ok_delete)

lemma del_steps_schema [preserves_intro]:
  "preserves schema_ok (exec (\<lambda>d. ((), del_stats P d)))" "preserves schema_ok (exec (\<lambda>d. ((), del_peers_of i d)))"
  "preserves schema_ok (exec (\<lambda>d. ((), del_tnodes_of i d)))" "preserves schema_ok (exec (\<lambda>d. (g d, del_iface i d)))"
  by (rule preserves_exec_schema, simp add: del_ids_ok)+

lemma tun_Delete_schema [preserves_intro]: "preserves schema_ok (tun_Delete i)"
  unfolding tun_Delete_def by (intro preserves_intro)

lemma insert_positions_schema [preserves_intro]: "preserves schema_ok (insert_positions tid k ns)"
  by (induction ns arbitrary: k) (auto intro!: preserves_bnd preserves_ret refresh_ops_schema)

lemma SetNodes_schema [preserves_intro]: "preserves schema_ok (SetNodes tid ns)"
  unfolding SetNodes_def by (intro preserves_intro)

lemma tun_ListNodes_schema [preserves_intro]: "preserves schema_ok (tun_ListNodes tid)"
  unfolding tun_ListNodes_def by (intro preserves_intro)

section \<open>Setting and reading the nodes of a tunnel\<close>

fun add_positions :: "int \<Rightarrow> int \<Rightarrow> int list \<Rightarrow> 'a database_scheme \<Rightarrow> 'a database_scheme" where
  "add_positions tid k [] d = d"
| "add_positions tid k (n # ns) d = add_positions tid (k + 1) ns (add_tnode tid n k d)"

lemma add_positions_sel [simp]:
  "db_ifaces (add_positions tid k ns d) = db_ifaces d" "db_nodes (add_positions tid k ns d) = db_nodes d"
  "db_fault (add_positions tid k ns d) = db_fault d"
  by (induction ns arbitrary: k d) simp_all

lemma add_positions_ticks [simp]: "add_positions tid k ns (ticks j d) = ticks j (add_positions tid k ns d)"
  by (induction ns arbitrary: k d) simp_all

lemma add_positions_rows:
  "\<exists>rs. t_rows (db_tnodes (add_positions tid k ns d)) = t_rows (db_tnodes d) @ rs
     \<and> map tn_node rs = ns \<and> map tn_pos rs = map (\<lambda>j. k + int j) [0..<length ns] \<and> (\<forall>r\<in>set rs. tn_iface r = tid)"
proof (induction ns arbitrary: k d)
  case Nil
  show ?case by (rule exI [of _ "[]"]) simp
next
  case (Cons n ns)
  let ?r = "\<lparr>tn_id = t_seq (db_tnodes d) + 1, tn_iface = tid, tn_node = n, tn_pos = k, tn_created = db_now d\<rparr>"
  obtain rs where rs: "t_rows (db_tnodes (add_positions tid (k + 1) ns (add_tnode tid n k d)))
      = t_rows (db_tnodes (add_tnode tid n k d)) @ rs" "map tn_node rs = ns"
      "map tn_pos rs = map (\<lambda>j. k + 1 + int j) [0..<length ns]" "\<forall>r\<in>set rs. tn_iface r = tid"
    using Cons.IH by blast
  have "map (\<lambda>j. k + int j) [0..<length (n # ns)] = k # map (\<lambda>j. k + 1 + int j) [0..<length ns]"
    by (rule nth_equalityI) (auto simp: nth_Cons' simp del: upt_Suc)
  with rs show ?case
    by (intro exI [of _ "?r # rs"]) (simp add: add_tnode_def t_insert_def)
qed

lemma insert_positions_run:
  assumes "schema_ok d" "no_fault d" "has_id wi_id (db_ifaces d) tid" "\<forall>n\<in>set ns. has_id vn_id (db_nodes d) n"
  shows "insert_positions tid k ns d = (Inr (), ticks (length ns) (add_positions tid k ns d))
     \<and> schema_ok (add_positions tid k ns d)"
  using assms
proof (induction ns arbitrary: k d)
  case Nil
  then show ?case by (simp add: ret_def)
next
  case (Cons n ns)
  let ?d = "ticks 1 (add_tnode tid n k d)"
  have 1: "insert_tnode tid n k d = (Inr (), ?d)" using Cons.prems by (intro insert_tnode_run) auto
  have "schema_ok ?d" using Cons.prems by (simp add: add_tnode_schema)
  then have "insert_positions tid (k + 1) ns ?d = (Inr (), ticks (length ns) (add_positions tid (k + 1) ns ?d))
     \<and> schema_ok (add_positions tid (k + 1) ns ?d)"
    using Cons.prems by (intro Cons.IH) simp_all
  with 1 show ?case by (simp add: bnd_Inr)
qed

lemma insert_positions_refused:
  assumes "schema_ok d" "no_fault d" "\<not> (has_id wi_id (db_ifaces d) tid \<and> (\<forall>n\<in>set ns. has_id vn_id (db_nodes d) n))"
    and "ns \<noteq> []"
  shows "\<exists>t. insert_positions tid k ns d = (Inl fk_error, t)"
  using assms
proof (induction ns arbitrary: k d)
  case Nil
  then show ?case by simp
next
  case (Cons n ns)
  show ?case
  proof (cases "has_id wi_id (db_ifaces d) tid \<and> has_id vn_id (db_nodes d) n")
    case False
    with Cons.prems insert_tnode_refused [of d tid n k] show ?thesis by (simp add: bnd_Inl)
  next
    case True
    let ?d = "ticks 1 (add_tnode tid n k d)"
    have 1: "insert_tnode tid n k d = (Inr (), ?d)" using Cons.prems True by (intro insert_tnode_run) auto
    have "ns \<noteq> []" "schema_ok ?d" using Cons.prems True by (auto simp: add_tnode_schema)
    then have "\<exists>t. insert_positions tid (k + 1) ns ?d = (Inl fk_error, t)"
      using Cons.prems True by (intro Cons.IH) simp_all
    with 1 show ?thesis by (simp add: bnd_Inr)
  qed
qed

lemma del_tnodes_schema: "schema_ok d \<Longrightarrow> schema_ok (del_tnodes_of i d)"
  by (auto simp: schema_ok_def del_tnodes_of_def iface_refs_ok_def peer_refs_ok_def tnode_refs_ok_def
      unique_ok_def t_delete_def intro!: ids_ok_upd table_ok_delete [unfolded t_delete_def])

lemma del_tnodes_sel [simp]:
  "db_ifaces (del_tnodes_of i d) = db_ifaces d" "db_nodes (del_tnodes_of i d) = db_nodes d"
  "db_fault (del_tnodes_of i d) = db_fault d" "no_fault (del_tnodes_of i d) = no_fault d"
  "del_tnodes_of i (ticks k d) = ticks k (del_tnodes_of i d)"
  by (simp_all add: del_tnodes_of_def no_fault_def ticks_def)

lemma del_tnodes_run:
  "schema_ok d \<Longrightarrow> no_fault d \<Longrightarrow> exec (\<lambda>d. ((), del_tnodes_of i d)) d = (Inr (), ticks 1 (del_tnodes_of i d))"
  by (simp add: exec_run tick_ticks del_tnodes_schema del: no_fault_exec)

definition SetNodes_result :: "int \<Rightarrow> int list \<Rightarrow> 'a database_scheme \<Rightarrow> 'a database_scheme" where
  "SetNodes_result tid ns d = ticks (length ns + 2) (add_positions tid 0 ns (del_tnodes_of tid d))"

lemma SetNodes_run:
  assumes "schema_ok d" "no_fault d" "has_id wi_id (db_ifaces d) tid" "\<forall>n\<in>set ns. has_id vn_id (db_nodes d) n"
  shows "SetNodes tid ns d = (Inr (), SetNodes_result tid ns d) \<and> schema_ok (SetNodes_result tid ns d)"
proof -
  let ?d = "ticks 1 (del_tnodes_of tid d)"
  have s: "schema_ok ?d" using assms by (simp add: del_tnodes_schema)
  have 1: "exec (\<lambda>d. ((), del_tnodes_of tid d)) d = (Inr (), ?d)"
    by (rule del_tnodes_run [OF assms(1,2)])
  have 2: "insert_positions tid 0 ns ?d = (Inr (), ticks (length ns) (add_positions tid 0 ns ?d))
     \<and> schema_ok (add_positions tid 0 ns ?d)"
    using assms s by (intro insert_positions_run) simp_all
  have "bnd (exec (\<lambda>d. ((), del_tnodes_of tid d))) (\<lambda>_. insert_positions tid 0 ns) d
      = (Inr (), ticks (Suc (length ns)) (add_positions tid 0 ns (del_tnodes_of tid d)))"
    using 2 by (simp only: bnd_Inr [of "exec (\<lambda>d. ((), del_tnodes_of tid d))", OF 1]) simp
  then have "SetNodes tid ns d = (Inr (), tick (ticks (Suc (length ns)) (add_positions tid 0 ns (del_tnodes_of tid d))))"
    unfolding SetNodes_def using assms(2) by (intro tx_run) simp_all
  with 2 show ?thesis by (simp add: SetNodes_result_def)
qed

lemma SetNodes_rows:
  "\<exists>rs. t_rows (db_tnodes (SetNodes_result tid ns d))
       = filter (\<lambda>r. tn_iface r \<noteq> tid) (t_rows (db_tnodes d)) @ rs
     \<and> map tn_node rs = ns \<and> map tn_pos rs = map int [0..<length ns] \<and> (\<forall>r\<in>set rs. tn_iface r = tid)"
  using add_positions_rows [of tid 0 ns "del_tnodes_of tid d"]
  by (simp add: SetNodes_result_def del_tnodes_of_def t_delete_def)

lemma SetNodes_result_sel [simp]:
  "db_ifaces (SetNodes_result tid ns d) = db_ifaces d" "db_nodes (SetNodes_result tid ns d) = db_nodes d"
  "no_fault (SetNodes_result tid ns d) = no_fault d"
  by (simp_all add: SetNodes_result_def no_fault_def)

lemma map_filter_find_nodes:
  assumes "table_ok vn_id (db_nodes d)" "\<forall>r\<in>set rs. has_id vn_id (db_nodes d) (tn_node r)"
  shows "map vn_id (List.map_filter (\<lambda>r. t_find (\<lambda>n. vn_id n = tn_node r) (db_nodes d)) rs) = map tn_node rs"
  using assms(2)
proof (induction rs)
  case (Cons r rs)
  then obtain n where "n \<in> set (t_rows (db_nodes d))" "vn_id n = tn_node r" by (auto simp: has_id_def)
  with t_find_id [OF assms(1), of n] Cons show ?case by (simp add: map_filter_simps)
qed (simp add: map_filter_simps)

lemma node_list_SetNodes:
  assumes "schema_ok d" "\<forall>n\<in>set ns. has_id vn_id (db_nodes d) n"
  shows "map vn_id (node_list tid (SetNodes_result tid ns d)) = ns"
    and "other \<noteq> tid \<Longrightarrow> node_list other (SetNodes_result tid ns d) = node_list other d"
proof -
  obtain rs where rs: "t_rows (db_tnodes (SetNodes_result tid ns d))
      = filter (\<lambda>r. tn_iface r \<noteq> tid) (t_rows (db_tnodes d)) @ rs" "map tn_node rs = ns"
      "map tn_pos rs = map int [0..<length ns]" "\<forall>r\<in>set rs. tn_iface r = tid"
    using SetNodes_rows by blast
  have "t_select (\<lambda>r. tn_iface r = tid) (db_tnodes (SetNodes_result tid ns d)) = rs"
    using rs by (simp add: t_select_def filter_all_True)
  moreover have "sorted (map tn_pos rs)" unfolding rs(3) by (simp add: sorted_iff_nth_mono)
  ultimately have "node_list tid (SetNodes_result tid ns d)
      = List.map_filter (\<lambda>r. t_find (\<lambda>n. vn_id n = tn_node r) (db_nodes d)) rs"
    by (simp add: node_list_def sort_key_id_if_sorted)
  moreover have "\<forall>r\<in>set rs. has_id vn_id (db_nodes d) (tn_node r)" using assms(2) rs(2) by auto
  ultimately show "map vn_id (node_list tid (SetNodes_result tid ns d)) = ns"
    using assms(1) rs(2) by (simp add: map_filter_find_nodes schema_ok_def)
next
  assume "other \<noteq> tid"
  moreover obtain rs where rs: "t_rows (db_tnodes (SetNodes_result tid ns d))
      = filter (\<lambda>r. tn_iface r \<noteq> tid) (t_rows (db_tnodes d)) @ rs" "\<forall>r\<in>set rs. tn_iface r = tid"
    using SetNodes_rows by blast
  ultimately have "t_select (\<lambda>r. tn_iface r = other) (db_tnodes (SetNodes_result tid ns d))
      = t_select (\<lambda>r. tn_iface r = other) (db_tnodes d)"
    by (auto simp: t_select_def filter_empty_conv intro!: filter_cong)
  then show "node_list other (SetNodes_result tid ns d) = node_list other d"
    by (simp add: node_list_def)
qed

lemma tun_ListNodes_run:
  assumes "no_fault d"
  shows "fst (tun_ListNodes tid d) = Inr (node_list tid d)"
proof -
  have "node_list tid (ticks k d) = node_list tid d" for k by (simp add: node_list_def)
  with assms show ?thesis
    by (auto simp: tun_ListNodes_def bnd_def ret_def tick_ticks node_list_def map_filter_simps)
qed

section \<open>The delete cascade runs through\<close>

lemma del_stats_schema: "schema_ok d \<Longrightarrow> schema_ok (del_stats P d)"
  by (simp add: schema_ok_def del_stats_def iface_refs_ok_def peer_refs_ok_def tnode_refs_ok_def
      unique_ok_def ids_ok_upd table_ok_delete)

lemma del_peers_schema: "schema_ok d \<Longrightarrow> schema_ok (del_peers_of i d)"
  by (auto simp: schema_ok_def del_peers_of_def iface_refs_ok_def peer_refs_ok_def tnode_refs_ok_def
      unique_ok_def t_delete_def intro!: ids_ok_upd table_ok_delete [unfolded t_delete_def])

lemma kept_iface: "has_id wi_id (db_ifaces d) j \<Longrightarrow> j \<noteq> i \<Longrightarrow> has_id wi_id (t_delete (\<lambda>r. wi_id r = i) (db_ifaces d)) j"
  by (auto simp: has_id_def t_delete_def)

lemma del_iface_schema:
  assumes "schema_ok d" "\<forall>p\<in>set (t_rows (db_peers d)). wp_iface p \<noteq> i"
    "\<forall>r\<in>set (t_rows (db_tnodes d)). tn_iface r \<noteq> i"
  shows "schema_ok (del_iface i d)"
proof -
  have "peer_refs_ok (del_iface i d)" "tnode_refs_ok (del_iface i d)"
    using assms kept_iface [of d _ i]
    by (simp_all add: schema_ok_def del_iface_def peer_refs_ok_def tnode_refs_ok_def)
  moreover have "iface_refs_ok (del_iface i d)" "unique_ok (del_iface i d)" "ids_ok (del_iface i d)"
    using assms(1) by (simp_all add: schema_ok_def del_ids_ok)
      (simp_all add: del_iface_def iface_refs_ok_def unique_ok_def t_delete_def distinct_map_filter)
  ultimately show ?thesis by (simp add: schema_ok_def)
qed

lemma del_steps_sel [simp]:
  "no_fault (del_stats P d) = no_fault d" "no_fault (del_peers_of i d) = no_fault d"
  "no_fault (del_iface i d) = no_fault d"
  "del_stats P (ticks k d) = ticks k (del_stats P d)" "del_peers_of i (ticks k d) = ticks k (del_peers_of i d)"
  "del_iface i (ticks k d) = ticks k (del_iface i d)"
  by (simp_all add: del_stats_def del_peers_of_def del_iface_def no_fault_def ticks_def)

definition purge_tunnel :: "int \<Rightarrow> 'a database_scheme \<Rightarrow> 'a database_scheme" where
  "purge_tunnel i d = del_tnodes_of i (del_peers_of i (del_stats (\<lambda>s. ss_iface s = Some i)
     (if peer_ids_of i d \<noteq> [] then del_stats (\<lambda>s. \<exists>p\<in>set (peer_ids_of i d). ss_peer s = Some p) d else d)))"

lemma purge_tunnel_sel [simp]:
  "db_ifaces (purge_tunnel i d) = db_ifaces d" "db_nodes (purge_tunnel i d) = db_nodes d"
  "db_subs (purge_tunnel i d) = db_subs d" "db_fault (purge_tunnel i d) = db_fault d"
  "db_peers (purge_tunnel i d) = t_delete (\<lambda>p. wp_iface p = i) (db_peers d)"
  "db_tnodes (purge_tunnel i d) = t_delete (\<lambda>r. tn_iface r = i) (db_tnodes d)"
  by (simp_all add: purge_tunnel_def del_stats_def del_peers_of_def del_tnodes_of_def)

lemma purge_tunnel_stats:
  "t_rows (db_stats (purge_tunnel i d))
     = filter (\<lambda>s. ss_iface s \<noteq> Some i \<and> (\<forall>p\<in>set (peer_ids_of i d). ss_peer s \<noteq> Some p)) (t_rows (db_stats d))"
  by (auto simp: purge_tunnel_def del_stats_def del_peers_of_def del_tnodes_of_def t_delete_def intro!: filter_cong)

lemma purge_tunnel_schema: "schema_ok d \<Longrightarrow> schema_ok (purge_tunnel i d)"
  by (simp add: purge_tunnel_def del_tnodes_schema del_peers_schema del_stats_schema)

lemma del_clock [simp]:
  "db_clock (del_stats P d) = db_clock d" "db_clock (del_peers_of i d) = db_clock d"
  "db_clock (del_tnodes_of i d) = db_clock d" "db_clock (purge_tunnel i d) = db_clock d"
  by (simp_all add: purge_tunnel_def del_stats_def del_peers_of_def del_tnodes_of_def)

lemma del_peer_stats_run:
  assumes "schema_ok d" "no_fault d"
  shows "(if ps \<noteq> [] then exec (\<lambda>d. ((), del_stats (\<lambda>s. \<exists>p\<in>set ps. ss_peer s = Some p) d)) else ret ()) d
    = (Inr (), ticks (if ps \<noteq> [] then 1 else 0) (if ps \<noteq> [] then del_stats (\<lambda>s. \<exists>p\<in>set ps. ss_peer s = Some p) d else d))"
  using assms by (simp add: exec_step del_stats_schema ret_def del: no_fault_exec)

lemma affected_delete_run:
  assumes "no_fault d" "schema_ok (del_iface i d)"
  shows "affected (exec (\<lambda>d. (t_count (\<lambda>r. wi_id r = i) (db_ifaces d), del_iface i d))) d
    = (if has_id wi_id (db_ifaces d) i then Inr () else Inl ErrNotFound, ticks 1 (del_iface i d))"
  using assms by (simp add: affected_def bnd_def exec_step t_count_id fail_def ret_def del: no_fault_exec)

lemma tun_Delete_run:
  assumes "schema_ok d" "no_fault d"
  shows "\<exists>k. tun_Delete i d = (if has_id wi_id (db_ifaces d) i
      then (Inr (), ticks k (del_iface i (purge_tunnel i d))) else (Inl ErrNotFound, ticks k d))"
proof -
  let ?ps = "peer_ids_of i d" and ?c = "affected (exec (\<lambda>d. (t_count (\<lambda>r. wi_id r = i) (db_ifaces d), del_iface i d)))"
  let ?k = "5 + (if ?ps \<noteq> [] then 1 else 0)"
  let ?r = "if has_id wi_id (db_ifaces d) i then Inr () else Inl ErrNotFound"
  let ?body = "bnd (query (peer_ids_of i)) (\<lambda>ps.
      bnd (if ps \<noteq> [] then exec (\<lambda>d. ((), del_stats (\<lambda>s. \<exists>p\<in>set ps. ss_peer s = Some p) d)) else ret ()) (\<lambda>_.
      bnd (exec (\<lambda>d. ((), del_stats (\<lambda>s. ss_iface s = Some i) d))) (\<lambda>_.
      bnd (exec (\<lambda>d. ((), del_peers_of i d))) (\<lambda>_.
      bnd (exec (\<lambda>d. ((), del_tnodes_of i d))) (\<lambda>_. ?c)))))"
  have q: "query (peer_ids_of i) d = (Inr ?ps, ticks 1 d)"
    using assms(2) by (simp add: query_step peer_ids_of_def del: no_fault_query)
  have s: "schema_ok (del_iface i (purge_tunnel i d))"
    by (rule del_iface_schema [OF purge_tunnel_schema [OF assms(1)]]) (simp_all add: t_delete_def)
  have nf: "no_fault (purge_tunnel i d)" using assms(2) by (simp add: purge_tunnel_def)
  have "?body d = ?c (ticks (4 + (if ?ps \<noteq> [] then 1 else 0)) (purge_tunnel i d))"
    using assms by (simp add: bnd_Inr [of "query (peer_ids_of i)", OF q] bnd_Inr [of "if ?ps \<noteq> [] then _ else _", OF del_peer_stats_run]
        bnd_def [of "exec _"] exec_step del_stats_schema del_peers_schema del_tnodes_schema purge_tunnel_def
        numeral_eq_Suc del: no_fault_exec no_fault_query)
  also have "\<dots> = (?r, ticks ?k (del_iface i (purge_tunnel i d)))"
    using affected_delete_run [of "ticks (4 + (if ?ps \<noteq> [] then 1 else 0)) (purge_tunnel i d)" i] s nf by simp
  finally have b: "?body d = (?r, ticks ?k (del_iface i (purge_tunnel i d)))" .
  show ?thesis
  proof (cases "has_id wi_id (db_ifaces d) i")
    case True
    then have "tun_Delete i d = (Inr (), tick (ticks ?k (del_iface i (purge_tunnel i d))))"
      unfolding tun_Delete_def using b assms(2) by (intro tx_run) (simp_all add: del_iface_def)
    with True show ?thesis by auto
  next
    case False
    then have "tun_Delete i d = (Inl ErrNotFound, ticks ?k d)"
      unfolding tun_Delete_def using b by (intro tx_rollback [of _ _ _ _ "del_iface i (purge_tunnel i d)"])
        (simp_all add: del_iface_def)
    with False show ?thesis by auto
  qed
qed

section \<open>Properties\<close>

lemma del_iface_sel [simp]:
  "db_nodes (del_iface i d) = db_nodes d" "db_subs (del_iface i d) = db_subs d"
  "db_peers (del_iface i d) = db_peers d" "db_tnodes (del_iface i d) = db_tnodes d"
  "db_stats (del_iface i d) = db_stats d"
  "db_ifaces (del_iface i d) = t_delete (\<lambda>r. wi_id r = i) (db_ifaces d)"
  by (simp_all add: del_iface_def)

text \<open>C4: deleting a tunnel (\<open>TunnelRepo.Delete\<close>) never fails on a foreign key: on a consistent database
  it removes the tunnel with exactly its peers, its junction rows and the statistics of the tunnel and of
  its peers, and keeps the subscriptions and nodes; for an unknown id it answers \<open>ErrNotFound\<close> and the
  transaction changes nothing.\<close>

theorem tunnel_delete_cascades:
  assumes "schema_ok d" "no_fault d"
  shows "\<exists>k t. tun_Delete i d = (if has_id wi_id (db_ifaces d) i then (Inr (), t) else (Inl ErrNotFound, ticks k d))
     \<and> schema_ok t
     \<and> t_rows (db_ifaces t) = filter (\<lambda>w. wi_id w \<noteq> i) (t_rows (db_ifaces d))
     \<and> t_rows (db_peers t) = filter (\<lambda>p. wp_iface p \<noteq> i) (t_rows (db_peers d))
     \<and> t_rows (db_tnodes t) = filter (\<lambda>r. tn_iface r \<noteq> i) (t_rows (db_tnodes d))
     \<and> t_rows (db_stats t) = filter (\<lambda>s. ss_iface s \<noteq> Some i \<and> (\<forall>p\<in>set (peer_ids_of i d). ss_peer s \<noteq> Some p))
         (t_rows (db_stats d))
     \<and> db_subs t = db_subs d \<and> db_nodes t = db_nodes d"
proof -
  obtain k where k: "tun_Delete i d = (if has_id wi_id (db_ifaces d) i
      then (Inr (), ticks k (del_iface i (purge_tunnel i d))) else (Inl ErrNotFound, ticks k d))"
    using tun_Delete_run [OF assms] by blast
  have s: "schema_ok (del_iface i (purge_tunnel i d))"
    by (rule del_iface_schema [OF purge_tunnel_schema [OF assms(1)]]) (simp_all add: t_delete_def)
  show ?thesis
    by (rule exI [of _ k], rule exI [of _ "ticks k (del_iface i (purge_tunnel i d))"])
      (simp add: k s purge_tunnel_stats t_delete_def)
qed

theorem tunnel_delete_cascades_witness:
  "\<exists>t. tun_Delete 1 sample_db = (Inr (), t) \<and> t_rows (db_ifaces t) = [] \<and> t_rows (db_tnodes t) = []
     \<and> map vn_id (t_rows (db_nodes t)) = [1, 2]"
proof -
  have h: "has_id wi_id (db_ifaces sample_db) 1" by code_simp
  obtain k t where "tun_Delete 1 sample_db = (if has_id wi_id (db_ifaces sample_db) 1 then (Inr (), t) else (Inl ErrNotFound, ticks k sample_db))"
    and w: "t_rows (db_ifaces t) = filter (\<lambda>w. wi_id w \<noteq> 1) (t_rows (db_ifaces sample_db))"
    and r: "t_rows (db_tnodes t) = filter (\<lambda>r. tn_iface r \<noteq> 1) (t_rows (db_tnodes sample_db))"
    and n: "db_nodes t = db_nodes sample_db"
    using tunnel_delete_cascades [OF sample_db_ok, of 1] by metis
  moreover have "t_rows (db_ifaces t) = []" "t_rows (db_tnodes t) = []" "map vn_id (t_rows (db_nodes t)) = [1, 2]"
    unfolding w r n by (simp_all add: sample_defs)
  ultimately show ?thesis using h by (intro exI [of _ t]) simp
qed

text \<open>C5: assigning nodes to a tunnel and reading them back (\<open>SetNodes\<close>, \<open>ListNodes\<close>): the nodes come
  back in the order given, repetitions included, the lists of the other tunnels are untouched, and the
  schema's constraints hold.\<close>

theorem SetNodes_ListNodes:
  assumes "schema_ok d" "no_fault d" "has_id wi_id (db_ifaces d) tid" "\<forall>n\<in>set ns. has_id vn_id (db_nodes d) n"
  shows "\<exists>t l. SetNodes tid ns d = (Inr (), t) \<and> schema_ok t \<and> fst (tun_ListNodes tid t) = Inr l \<and> map vn_id l = ns
     \<and> set l \<subseteq> set (t_rows (db_nodes d))
     \<and> (\<forall>other. other \<noteq> tid \<longrightarrow> fst (tun_ListNodes other t) = fst (tun_ListNodes other d))"
proof (intro exI conjI)
  show "SetNodes tid ns d = (Inr (), SetNodes_result tid ns d)" "schema_ok (SetNodes_result tid ns d)"
    using SetNodes_run [OF assms] by simp_all
  show "fst (tun_ListNodes tid (SetNodes_result tid ns d)) = Inr (node_list tid (SetNodes_result tid ns d))"
    using assms(2) by (intro tun_ListNodes_run) simp
  show "map vn_id (node_list tid (SetNodes_result tid ns d)) = ns"
    by (rule node_list_SetNodes(1) [OF assms(1,4)])
  show "set (node_list tid (SetNodes_result tid ns d)) \<subseteq> set (t_rows (db_nodes d))"
    by (auto simp: node_list_def set_map_filter_Some t_find_def dest!: find_Some_set)
  show "\<forall>other. other \<noteq> tid \<longrightarrow> fst (tun_ListNodes other (SetNodes_result tid ns d)) = fst (tun_ListNodes other d)"
    using assms(2) node_list_SetNodes(2) [OF assms(1,4)] by (simp add: tun_ListNodes_run)
qed

theorem SetNodes_ListNodes_witness:
  "\<exists>t l. SetNodes 1 [2, 1, 2] sample_db = (Inr (), t) \<and> fst (tun_ListNodes 1 t) = Inr l \<and> map vn_id l = [2, 1, 2]"
proof -
  have "has_id wi_id (db_ifaces sample_db) 1" "\<forall>n\<in>set [2, 1, 2]. has_id vn_id (db_nodes sample_db) n"
    by code_simp+
  from SetNodes_ListNodes [OF sample_db_ok this] show ?thesis by metis
qed

text \<open>C6: an assignment that names an unknown node, or that is made for an unknown tunnel, is refused as a
  whole: the old list of the tunnel survives, although it was deleted first inside the transaction.\<close>

theorem SetNodes_all_or_nothing:
  assumes "schema_ok d" "no_fault d" "ns \<noteq> []"
    "\<not> (has_id wi_id (db_ifaces d) tid \<and> (\<forall>n\<in>set ns. has_id vn_id (db_nodes d) n))"
  shows "\<exists>k. SetNodes tid ns d = (Inl fk_error, d\<lparr>db_clock := k\<rparr>)"
proof -
  let ?d = "ticks 1 (del_tnodes_of tid d)"
  have 1: "exec (\<lambda>d. ((), del_tnodes_of tid d)) d = (Inr (), ?d)"
    by (rule del_tnodes_run [OF assms(1,2)])
  have "\<exists>t. insert_positions tid 0 ns ?d = (Inl fk_error, t)"
    using assms by (intro insert_positions_refused) (simp_all add: del_tnodes_schema)
  then obtain t where "bnd (exec (\<lambda>d. ((), del_tnodes_of tid d))) (\<lambda>_. insert_positions tid 0 ns) d = (Inl fk_error, t)"
    by (auto simp: bnd_Inr [of "exec (\<lambda>d. ((), del_tnodes_of tid d))", OF 1])
  then show ?thesis unfolding SetNodes_def by (auto simp: tx_fail)
qed

theorem SetNodes_all_or_nothing_witness:
  "\<exists>k. SetNodes 1 [2, 7] sample_db = (Inl fk_error, sample_db\<lparr>db_clock := k\<rparr>)"
proof -
  have "\<not> (has_id wi_id (db_ifaces sample_db) 1 \<and> (\<forall>n\<in>set [2, 7]. has_id vn_id (db_nodes sample_db) n))"
    by code_simp
  then show ?thesis by (intro SetNodes_all_or_nothing sample_db_ok) auto
qed

lemma backfill_one_sel [simp]:
  "db_ifaces (backfill_one w d) = db_ifaces d" "db_nodes (backfill_one w d) = db_nodes d"
  "no_fault (backfill_one w d) = no_fault d" "backfill_one w (ticks k d) = ticks k (backfill_one w d)"
  by (simp_all add: backfill_one_def split: option.split)

lemma backfill_fold_sel [simp]:
  "db_ifaces (fold backfill_one ws d) = db_ifaces d" "db_nodes (fold backfill_one ws d) = db_nodes d"
  "no_fault (fold backfill_one ws d) = no_fault d"
  "fold backfill_one ws (ticks k d) = ticks k (fold backfill_one ws d)"
  by (induction ws arbitrary: d) simp_all

lemma backfill_fold_schema:
  "schema_ok d \<Longrightarrow> (\<forall>w\<in>set ws. has_id wi_id (db_ifaces d) (wi_id w) \<and> ref_ok vn_id (db_nodes d) (wi_node w)) \<Longrightarrow>
   schema_ok (fold backfill_one ws d)"
proof (induction ws arbitrary: d)
  case (Cons w ws)
  have "schema_ok (backfill_one w d)"
    using Cons.prems by (auto simp: backfill_one_def ref_ok_def add_tnode_schema split: option.split)
  with Cons.prems have "schema_ok (fold backfill_one ws (backfill_one w d))"
    by (intro Cons.IH) simp_all
  then show ?case by simp
qed simp

lemma backfill_fold_count:
  "length (t_select (\<lambda>r. tn_iface r = i) (db_tnodes (fold backfill_one ws d)))
   = length (t_select (\<lambda>r. tn_iface r = i) (db_tnodes d)) + length (filter (\<lambda>w. wi_id w = i \<and> wi_node w \<noteq> None) ws)"
  by (induction ws arbitrary: d)
    (auto simp: backfill_one_def add_tnode_def t_select_def t_insert_def split: option.split)

lemma length_node_list:
  assumes "schema_ok d"
  shows "length (node_list i d) = length (t_select (\<lambda>r. tn_iface r = i) (db_tnodes d))"
proof -
  let ?rs = "sort_key tn_pos (t_select (\<lambda>r. tn_iface r = i) (db_tnodes d))"
  have "\<forall>r\<in>set ?rs. has_id vn_id (db_nodes d) (tn_node r)"
    using assms by (auto simp: schema_ok_def tnode_refs_ok_def t_select_def)
  then have "map vn_id (node_list i d) = map tn_node ?rs"
    using assms by (simp add: node_list_def map_filter_find_nodes schema_ok_def)
  then have "length (node_list i d) = length ?rs" by (metis length_map)
  then show ?thesis by simp
qed

text \<open>C8: the backfill that runs at every start of the process is not idempotent: each run appends one
  more junction row at position 0 for every tunnel that has an active node, so the list of nodes that the
  tunnel uses grows with every restart. (\<open>INSERT OR IGNORE\<close> would need a unique index to ignore
  anything.)\<close>

theorem backfill_duplicates:
  assumes "schema_ok d" "no_fault d" "w \<in> set (t_rows (db_ifaces d))" "wi_node w = Some n"
  shows "\<exists>t l l'. migrate_tnodes d = (Inr (), t) \<and> schema_ok t
     \<and> fst (tun_ListNodes (wi_id w) d) = Inr l \<and> fst (tun_ListNodes (wi_id w) t) = Inr l'
     \<and> length l' = Suc (length l)"
proof (intro exI conjI)
  let ?t = "backfill_tnodes d"
  have s: "schema_ok ?t" unfolding backfill_tnodes_def
    by (rule backfill_fold_schema [OF assms(1)])
      (use assms(1) in \<open>auto simp: schema_ok_def iface_refs_ok_def has_id_def\<close>)
  show "migrate_tnodes d = (Inr (), ticks 1 ?t)" using assms(2) s
    by (simp add: migrate_tnodes_def exec_step backfill_tnodes_def del: no_fault_exec)
  show "schema_ok (ticks 1 ?t)" using s by simp
  show "fst (tun_ListNodes (wi_id w) d) = Inr (node_list (wi_id w) d)"
    by (rule tun_ListNodes_run [OF assms(2)])
  show "fst (tun_ListNodes (wi_id w) (ticks 1 ?t)) = Inr (node_list (wi_id w) (ticks 1 ?t))"
    using assms(2) by (intro tun_ListNodes_run) (simp add: backfill_tnodes_def)
  have "distinct (map wi_id (t_rows (db_ifaces d)))"
    using assms(1) by (simp add: schema_ok_def table_ok_distinct)
  then have "length (filter (\<lambda>x. wi_id x = wi_id w \<and> wi_node x \<noteq> None) (t_rows (db_ifaces d))) = 1"
    using assms(3,4) by (intro length_filter_one) auto
  then show "length (node_list (wi_id w) (ticks 1 ?t)) = Suc (length (node_list (wi_id w) d))"
    using assms(1) s by (simp add: length_node_list backfill_tnodes_def backfill_fold_count)
qed

theorem backfill_duplicates_witness:
  "\<exists>t l l'. migrate_tnodes sample_db = (Inr (), t) \<and> schema_ok t \<and> fst (tun_ListNodes 1 sample_db) = Inr l
     \<and> fst (tun_ListNodes 1 t) = Inr l' \<and> length l' = Suc (length l)"
  using backfill_duplicates [OF sample_db_ok, of "sample_iface 1 ''wg1'' 51820 (Some 1) (Some 1)" 1]
  by (simp add: sample_db_def sample_iface_def)

end
