(* ===== verification/PeerRepo.thy ===== *)
theory PeerRepo
  imports TunnelRepo
begin

text \<open>
  \<open>infrastructure/db/peer_repo.go\<close>: the peers of a tunnel, and the accumulation of their traffic counters.
  Byte counts are unbounded here; the columns are 64-bit (nine exabytes).
\<close>

section \<open>Operations\<close>

definition peerRow :: "peer_row \<Rightarrow> wg_peer" where
  "peerRow r = wg_peer.truncate r"

definition new_peer_row :: "int \<Rightarrow> wg_peer \<Rightarrow> string option \<Rightarrow> string option \<Rightarrow> int \<Rightarrow> int \<Rightarrow> peer_row" where
  "new_peer_row ifaceID p priv psk now i =
    \<lparr>wp_id = i, wp_iface = ifaceID, wp_name = wp_name p, wp_pubkey = wp_pubkey p, wp_address = wp_address p,
     wp_allowed = (if wp_allowed p = [] then ''0.0.0.0/0'' else wp_allowed p),
     wp_keepalive = (if wp_keepalive p = 0 then 25 else wp_keepalive p), wp_handshake = None,
     wp_rx = 0, wp_tx = 0, wp_created = now, wp_updated = now,
     wp_priv = (case priv of None \<Rightarrow> [] | Some k \<Rightarrow> k), wp_psk = (case psk of None \<Rightarrow> [] | Some k \<Rightarrow> k),
     wp_seen_rx = 0, wp_seen_tx = 0\<rparr>"

text \<open>A zero keepalive and an empty AllowedIPs take the column defaults; the caller's struct gets the id, the
  tunnel and the time stamps back, not the defaults.\<close>

definition peer_Create :: "int \<Rightarrow> wg_peer \<Rightarrow> string option \<Rightarrow> string option \<Rightarrow> ('a database_scheme, wg_peer) call" where
  "peer_Create ifaceID p priv psk = exec (\<lambda>d.
     (p\<lparr>wp_id := t_seq (db_peers d) + 1, wp_iface := ifaceID, wp_created := db_now d, wp_updated := db_now d\<rparr>,
      d\<lparr>db_peers := t_insert (new_peer_row ifaceID p priv psk (db_now d)) (db_peers d)\<rparr>))"

definition peer_of :: "int \<Rightarrow> int \<Rightarrow> peer_row \<Rightarrow> bool" where
  "peer_of ifaceID peerID r \<longleftrightarrow> wp_iface r = ifaceID \<and> wp_id r = peerID"

definition peer_GetByID :: "int \<Rightarrow> int \<Rightarrow> ('a database_scheme, wg_peer \<times> string \<times> string) call" where
  "peer_GetByID ifaceID peerID = bnd (query (\<lambda>d. t_find (peer_of ifaceID peerID) (db_peers d)))
     (\<lambda>r. case r of None \<Rightarrow> fail ErrNotFound | Some p \<Rightarrow> ret (peerRow p, wp_priv p, wp_psk p))"

definition ListByInterface :: "int \<Rightarrow> ('a database_scheme, wg_peer list) call" where
  "ListByInterface ifaceID = query (\<lambda>d. map peerRow (sort_key wp_id (t_select (\<lambda>p. wp_iface p = ifaceID) (db_peers d))))"

text \<open>The rows in the order of the tunnel, then of the id; a second statement loads the tunnels.\<close>

definition ListAllWithTunnel :: "('a database_scheme, (wg_peer \<times> string) list) call" where
  "ListAllWithTunnel = bnd (query (\<lambda>d. sort_key wp_iface (sort_key wp_id (t_select (\<lambda>_. True) (db_peers d))))) (\<lambda>rows.
     if rows = [] then ret [] else
     query (\<lambda>d. map (\<lambda>p. (peerRow p, case t_find (\<lambda>w. wi_id w = wp_iface p) (db_ifaces d) of
                            None \<Rightarrow> [] | Some w \<Rightarrow> wi_name w)) rows))"

definition merge_peer :: "wg_peer \<Rightarrow> string option \<Rightarrow> string option \<Rightarrow> int \<Rightarrow> peer_row \<Rightarrow> peer_row" where
  "merge_peer p priv psk now r =
    r\<lparr>wp_name := wp_name p, wp_pubkey := wp_pubkey p, wp_address := wp_address p, wp_allowed := wp_allowed p,
      wp_keepalive := wp_keepalive p, wp_handshake := wp_handshake p, wp_rx := wp_rx p, wp_tx := wp_tx p,
      wp_updated := now, wp_priv := (case priv of None \<Rightarrow> wp_priv r | Some k \<Rightarrow> k),
      wp_psk := (case psk of None \<Rightarrow> wp_psk r | Some k \<Rightarrow> k)\<rparr>"

definition peer_Update :: "wg_peer \<Rightarrow> string option \<Rightarrow> string option \<Rightarrow> ('a database_scheme, unit) call" where
  "peer_Update p priv psk = affected (exec (\<lambda>d.
     (t_count (peer_of (wp_iface p) (wp_id p)) (db_peers d),
      d\<lparr>db_peers := t_update (peer_of (wp_iface p) (wp_id p)) (merge_peer p priv psk (db_now d)) (db_peers d)\<rparr>)))"

definition peer_Delete :: "int \<Rightarrow> int \<Rightarrow> ('a database_scheme, unit) call" where
  "peer_Delete ifaceID peerID = affected (exec (\<lambda>d.
     (t_count (peer_of ifaceID peerID) (db_peers d), d\<lparr>db_peers := t_delete (peer_of ifaceID peerID) (db_peers d)\<rparr>)))"

definition GetByPubKey :: "int \<Rightarrow> string \<Rightarrow> ('a database_scheme, wg_peer) call" where
  "GetByPubKey ifaceID pub = bnd (query (\<lambda>d. t_find (\<lambda>p. wp_iface p = ifaceID \<and> wp_pubkey p = pub) (db_peers d)))
     (\<lambda>r. case r of None \<Rightarrow> fail ErrNotFound | Some p \<Rightarrow> ret (peerRow p))"

definition raw_delta :: "int \<Rightarrow> int \<Rightarrow> int" where
  "raw_delta seen raw = (if raw \<ge> seen then raw - seen else raw)"

definition count_traffic :: "int option \<Rightarrow> int \<Rightarrow> int \<Rightarrow> int \<Rightarrow> peer_row \<Rightarrow> peer_row" where
  "count_traffic lastHS rx txb now r =
    r\<lparr>wp_handshake := lastHS, wp_rx := wp_rx r + raw_delta (wp_seen_rx r) rx,
      wp_tx := wp_tx r + raw_delta (wp_seen_tx r) txb, wp_updated := now, wp_seen_rx := rx, wp_seen_tx := txb\<rparr>"

definition UpdateTraffic :: "int \<Rightarrow> int option \<Rightarrow> int \<Rightarrow> int \<Rightarrow> ('a database_scheme, int \<times> int) call" where
  "UpdateTraffic peerID lastHS rxRaw txRaw =
    (let rx = max rxRaw 0; txb = max txRaw 0 in
     bnd (affected (exec (\<lambda>d. (t_count (\<lambda>r. wp_id r = peerID) (db_peers d),
            d\<lparr>db_peers := t_update (\<lambda>r. wp_id r = peerID) (count_traffic lastHS rx txb (db_now d)) (db_peers d)\<rparr>)))) (\<lambda>_.
     bnd (query (\<lambda>d. t_find (\<lambda>r. wp_id r = peerID) (db_peers d))) (\<lambda>r.
     case r of None \<Rightarrow> fail (Opaque ''record not found'') | Some p \<Rightarrow> ret (wp_rx p, wp_tx p))))"

section \<open>The operations keep the schema\<close>

lemma peer_row_ids [simp]:
  "wp_id (new_peer_row i p a b n k) = k" "wp_id (merge_peer p a b n r) = wp_id r"
  "wp_id (count_traffic h rx txb n r) = wp_id r"
  by (simp_all add: new_peer_row_def merge_peer_def count_traffic_def)

lemma peer_ops_schema [preserves_intro]:
  "preserves schema_ok (peer_Create i p a b)" "preserves schema_ok (peer_GetByID i j)"
  "preserves schema_ok (ListByInterface i)" "preserves schema_ok ListAllWithTunnel"
  "preserves schema_ok (peer_Update p a b)" "preserves schema_ok (peer_Delete i j)"
  "preserves schema_ok (GetByPubKey i k)" "preserves schema_ok (UpdateTraffic j h rx txb)"
  unfolding peer_Create_def peer_GetByID_def ListByInterface_def ListAllWithTunnel_def peer_Update_def
    peer_Delete_def GetByPubKey_def UpdateTraffic_def Let_def
  by (intro preserves_intro preserves_exec_schema; simp add: ids_ok_upd table_ok_intros)+

section \<open>Accumulated traffic\<close>

text \<open>What a peer really transferred, told from the cumulative counter of the device as it is read from time
  to time. A reading below the one before it means that the device restarted from zero: the
  readings fall into runs in which the counter only grows, and each run contributes its last reading.\<close>

fun run_ends :: "int \<Rightarrow> int list \<Rightarrow> int list" where
  "run_ends seen [] = [seen]"
| "run_ends seen (r # rs) = (if r \<ge> seen then run_ends r rs else seen # run_ends r rs)"

lemma sum_raw_deltas:
  "sum_list (map2 raw_delta (seen # raws) raws) = sum_list (run_ends seen raws) - seen"
  by (induction raws arbitrary: seen) (auto simp: raw_delta_def)

definition set_peers :: "peer_row table \<Rightarrow> 'a database_scheme \<Rightarrow> 'a database_scheme" where
  "set_peers t d = d\<lparr>db_peers := t\<rparr>"

lemma set_peers_sel [simp]:
  "db_peers (set_peers t d) = t" "db_now (set_peers t d) = db_now d" "no_fault (set_peers t d) = no_fault d"
  "db_clock (set_peers t d) = db_clock d" "set_peers t (ticks n d) = ticks n (set_peers t d)"
  "set_peers t (set_peers u d) = set_peers t d" "set_peers (db_peers d) d = d"
  by (simp_all add: set_peers_def no_fault_def ticks_def)

lemma set_peers_schema:
  assumes "schema_ok d" "table_ok wp_id t" "wp_iface ` set (t_rows t) \<subseteq> wp_iface ` set (t_rows (db_peers d))"
  shows "schema_ok (set_peers t d)"
  using assms
  by (auto simp: schema_ok_def set_peers_def ids_ok_def iface_refs_ok_def peer_refs_ok_def tnode_refs_ok_def
      unique_ok_def image_subset_iff simp del: ids_ok_parts; fastforce)

definition traffic_table :: "int \<Rightarrow> int option \<Rightarrow> int \<Rightarrow> int \<Rightarrow> int \<Rightarrow> peer_row table \<Rightarrow> peer_row table" where
  "traffic_table pid h rx txb now t = t_update (\<lambda>r. wp_id r = pid) (count_traffic h rx txb now) t"

lemma traffic_table_iface: "wp_iface ` set (t_rows (traffic_table pid h rx txb now t)) = wp_iface ` set (t_rows t)"
  unfolding traffic_table_def by (rule t_update_keys(2)) (simp add: count_traffic_def)

lemma traffic_table_find:
  "t_find (\<lambda>r. wp_id r = pid) (traffic_table pid h rx txb now t)
    = map_option (count_traffic h rx txb now) (t_find (\<lambda>r. wp_id r = pid) t)"
  "i \<noteq> pid \<Longrightarrow> t_find (\<lambda>r. wp_id r = i) (traffic_table pid h rx txb now t) = t_find (\<lambda>r. wp_id r = i) t"
proof -
  let ?g = "\<lambda>r. if wp_id r = pid then count_traffic h rx txb now r else r"
  have "find (\<lambda>r. wp_id r = pid) (map ?g xs) = map_option (count_traffic h rx txb now) (find (\<lambda>r. wp_id r = pid) xs)" for xs
    by (induction xs) auto
  then show "t_find (\<lambda>r. wp_id r = pid) (traffic_table pid h rx txb now t)
    = map_option (count_traffic h rx txb now) (t_find (\<lambda>r. wp_id r = pid) t)"
    by (simp add: traffic_table_def t_update_def t_find_def)
  have "i \<noteq> pid \<Longrightarrow> find (\<lambda>r. wp_id r = i) (map ?g xs) = find (\<lambda>r. wp_id r = i) xs" for xs
    by (induction xs) auto
  then show "i \<noteq> pid \<Longrightarrow> t_find (\<lambda>r. wp_id r = i) (traffic_table pid h rx txb now t) = t_find (\<lambda>r. wp_id r = i) t"
    by (simp add: traffic_table_def t_update_def t_find_def)
qed

lemma UpdateTraffic_run:
  assumes "schema_ok d" "no_fault d" "t_find (\<lambda>r. wp_id r = pid) (db_peers d) = Some p" "rx \<ge> 0" "txb \<ge> 0"
  shows "UpdateTraffic pid h rx txb d =
    (Inr (wp_rx p + raw_delta (wp_seen_rx p) rx, wp_tx p + raw_delta (wp_seen_tx p) txb),
     ticks 2 (set_peers (traffic_table pid h rx txb (db_now d) (db_peers d)) d))"
    and "schema_ok (set_peers (traffic_table pid h rx txb (db_now d) (db_peers d)) d)"
proof -
  let ?t = "traffic_table pid h rx txb (db_now d) (db_peers d)"
  show s: "schema_ok (set_peers ?t d)"
    using assms(1) traffic_table_iface
    by (intro set_peers_schema) (auto simp: schema_ok_def traffic_table_def table_ok_update)
  have e: "exec (\<lambda>d. (t_count (\<lambda>r. wp_id r = pid) (db_peers d),
      d\<lparr>db_peers := t_update (\<lambda>r. wp_id r = pid) (count_traffic h rx txb (db_now d)) (db_peers d)\<rparr>)) d
    = (Inr (t_count (\<lambda>r. wp_id r = pid) (db_peers d)), ticks 1 (set_peers ?t d))"
    using exec_step [of d "\<lambda>d. d\<lparr>db_peers := t_update (\<lambda>r. wp_id r = pid) (count_traffic h rx txb (db_now d)) (db_peers d)\<rparr>"
        "\<lambda>d. t_count (\<lambda>r. wp_id r = pid) (db_peers d)"] assms(2) s
    by (simp add: set_peers_def traffic_table_def ticks_def)
  have "t_count (\<lambda>r. wp_id r = pid) (db_peers d) \<noteq> 0"
    using assms(3) by (auto simp: t_count_id has_id_def t_find_def dest: find_Some_set)
  then show "UpdateTraffic pid h rx txb d =
    (Inr (wp_rx p + raw_delta (wp_seen_rx p) rx, wp_tx p + raw_delta (wp_seen_tx p) txb), ticks 2 (set_peers ?t d))"
    using assms(2,3,4,5)
    by (simp add: UpdateTraffic_def affected_def bnd_def e query_step ret_def traffic_table_find(1)
        count_traffic_def numeral_2_eq_2 del: no_fault_exec no_fault_query)
qed

definition readings :: "int \<Rightarrow> (int option \<times> int \<times> int) list \<Rightarrow> ('a database_scheme, (int \<times> int) list) call" where
  "readings pid = map_each (\<lambda>(h, rx, txb). UpdateTraffic pid h rx txb)"

text \<open>C11: whatever the device's counters do, after any number of polls a peer's stored totals have grown by
  exactly what its counters say was transferred (the last reading of each run between restarts, less
  the reading stored before), so they never lose bytes to a restart nor count any twice; every other
  peer is as it was.\<close>

theorem traffic_accumulates:
  assumes "schema_ok d" "no_fault d" "t_find (\<lambda>r. wp_id r = pid) (db_peers d) = Some p"
    and "\<forall>(h, rx, txb)\<in>set rs. rx \<ge> 0 \<and> txb \<ge> 0"
  shows "\<exists>out t q. readings pid rs d = (Inr out, t)
     \<and> t_find (\<lambda>r. wp_id r = pid) (db_peers t) = Some q
     \<and> wp_rx q = wp_rx p + sum_list (run_ends (wp_seen_rx p) (map (\<lambda>(h, rx, txb). rx) rs)) - wp_seen_rx p
     \<and> wp_tx q = wp_tx p + sum_list (run_ends (wp_seen_tx p) (map (\<lambda>(h, rx, txb). txb) rs)) - wp_seen_tx p
     \<and> (\<forall>i. i \<noteq> pid \<longrightarrow> t_find (\<lambda>r. wp_id r = i) (db_peers t) = t_find (\<lambda>r. wp_id r = i) (db_peers d))"
  using assms
proof (induction rs arbitrary: d p)
  case Nil
  then show ?case by (intro exI [of _ "[]"] exI [of _ d] exI [of _ p]) (simp add: readings_def ret_def)
next
  case (Cons r rs)
  obtain h rx txb where r: "r = (h, rx, txb)" by (cases r) auto
  have nn: "rx \<ge> 0" "txb \<ge> 0" using Cons.prems(4) by (auto simp: r)
  let ?t = "traffic_table pid h rx txb (db_now d) (db_peers d)"
  let ?d = "ticks 2 (set_peers ?t d)"
  note run = UpdateTraffic_run [OF Cons.prems(1-3) nn, of h]
  have f: "t_find (\<lambda>r. wp_id r = pid) (db_peers ?d) = Some (count_traffic h rx txb (db_now d) p)"
    by (simp add: traffic_table_find Cons.prems(3))
  from Cons.IH [of ?d, OF _ _ f] run(2) Cons.prems(2,4)
  obtain out t q where ih: "readings pid rs ?d = (Inr out, t)"
     "t_find (\<lambda>r. wp_id r = pid) (db_peers t) = Some q"
     "wp_rx q = wp_rx p + raw_delta (wp_seen_rx p) rx + sum_list (run_ends rx (map (\<lambda>(h, rx, txb). rx) rs)) - rx"
     "wp_tx q = wp_tx p + raw_delta (wp_seen_tx p) txb + sum_list (run_ends txb (map (\<lambda>(h, rx, txb). txb) rs)) - txb"
     "\<forall>i. i \<noteq> pid \<longrightarrow> t_find (\<lambda>r. wp_id r = i) (db_peers t) = t_find (\<lambda>r. wp_id r = i) (db_peers ?d)"
    by (auto simp: count_traffic_def)
  have "readings pid (r # rs) d = (Inr ((wp_rx p + raw_delta (wp_seen_rx p) rx, wp_tx p + raw_delta (wp_seen_tx p) txb) # out), t)"
    using ih(1) by (simp add: readings_def r bnd_def run(1) ret_def)
  moreover have "wp_rx q = wp_rx p + sum_list (run_ends (wp_seen_rx p) (map (\<lambda>(h, rx, txb). rx) (r # rs))) - wp_seen_rx p"
    using ih(3) by (simp add: r raw_delta_def)
  moreover have "wp_tx q = wp_tx p + sum_list (run_ends (wp_seen_tx p) (map (\<lambda>(h, rx, txb). txb) (r # rs))) - wp_seen_tx p"
    using ih(4) by (simp add: r raw_delta_def)
  moreover have "\<forall>i. i \<noteq> pid \<longrightarrow> t_find (\<lambda>r. wp_id r = i) (db_peers t) = t_find (\<lambda>r. wp_id r = i) (db_peers d)"
    using ih(5) by (simp add: traffic_table_find(2))
  ultimately show ?case using ih(2) by blast
qed

definition sample_peer :: "int \<Rightarrow> peer_row" where
  "sample_peer i = new_peer_row 1 \<lparr>wp_id = 0, wp_iface = 1, wp_name = ''phone'', wp_pubkey = ''k'',
     wp_address = ''10.100.1.2/32'', wp_allowed = [], wp_keepalive = 0, wp_handshake = None, wp_rx = 0, wp_tx = 0,
     wp_created = 0, wp_updated = 0\<rparr> (Some ''enc'') None 0 i"

definition peer_db :: database where
  "peer_db = sample_db\<lparr>db_peers := \<lparr>t_rows = [sample_peer 1, sample_peer 2], t_seq = 2\<rparr>\<rparr>"

lemma peer_db_ok: "schema_ok peer_db" "no_fault peer_db"
  by (simp_all add: peer_db_def sample_peer_def new_peer_row_def sample_defs schema_defs no_fault_def table_ok_def
      has_id_def del: ids_ok_parts)

theorem traffic_accumulates_witness:
  "\<exists>out t q. readings 1 [(None, 100, 5), (None, 250, 9), (None, 40, 0), (None, 60, 8)] peer_db = (Inr out, t)
     \<and> t_find (\<lambda>r. wp_id r = 1) (db_peers t) = Some q \<and> wp_rx q = 310 \<and> wp_tx q = 17"
proof -
  have f: "t_find (\<lambda>r. wp_id r = 1) (db_peers peer_db) = Some (sample_peer 1)"
    by (simp add: peer_db_def t_find_def sample_peer_def new_peer_row_def)
  show ?thesis
    using traffic_accumulates [OF peer_db_ok f, of "[(None, 100, 5), (None, 250, 9), (None, 40, 0), (None, 60, 8)]"]
    by (simp add: sample_peer_def new_peer_row_def) blast
qed

end
