(* ===== verification/Sessions.thy ===== *)
theory Sessions
  imports Domain
begin

text \<open>
  \<open>internal/service/refreshtoken/store.go\<close>: the refresh sessions held in memory. The mutex makes each
  operation one step. The time and what \<open>rand.Read\<close> delivers (bytes, or an error) are arguments;
  times are in nanoseconds, as \<open>time.Time\<close> and \<open>time.Duration\<close> have them.

  The contract the authentication service relies on is the locale \<open>session_store\<close>; its client lemmas say
  that a token that is gone stays gone until the generator draws it again.
\<close>

record session =
  se_user :: int
  se_created :: int
  se_expires :: int

type_synonym sessions = "string \<rightharpoonup> session"

definition hex_encode :: "string \<Rightarrow> string" where
  "hex_encode b = concat (map (\<lambda>c. [hex_digit (byte c div 16), hex_digit (byte c mod 16)]) b)"

definition generateJTI :: "go_error + string \<Rightarrow> go_error + string" where
  "generateJTI draw = map_sum id hex_encode draw"

definition purgeExpired :: "int \<Rightarrow> sessions \<Rightarrow> sessions" where
  "purgeExpired now s = (\<lambda>k. case s k of None \<Rightarrow> None | Some se \<Rightarrow> if now > se_expires se then None else Some se)"

definition CreateSession :: "int \<Rightarrow> go_error + string \<Rightarrow> int \<Rightarrow> int \<Rightarrow> (sessions, string) call" where
  "CreateSession now draw userID ttl s = (case generateJTI draw of
     Inl e \<Rightarrow> (Inl e, s)
   | Inr jti \<Rightarrow> (Inr jti, s(jti \<mapsto> \<lparr>se_user = userID, se_created = now, se_expires = now + ttl\<rparr>)))"

definition Rotate :: "int \<Rightarrow> go_error + string \<Rightarrow> string \<Rightarrow> int \<Rightarrow> (sessions, string \<times> int) call" where
  "Rotate now draw oldJTI ttl s = (case s oldJTI of
     None \<Rightarrow> (Inl (Sentinel SessionNotFound), s)
   | Some se \<Rightarrow>
       if now > se_expires se then (Inl (Sentinel SessionExpired), s(oldJTI := None))
       else (case generateJTI draw of
         Inl e \<Rightarrow> (Inl e, s(oldJTI := None))
       | Inr jti \<Rightarrow> (Inr (jti, se_user se),
           (s(oldJTI := None))(jti \<mapsto> \<lparr>se_user = se_user se, se_created = now, se_expires = now + ttl\<rparr>))))"

definition Revoke :: "string \<Rightarrow> sessions \<Rightarrow> sessions" where
  "Revoke jti s = s(jti := None)"

section \<open>The contract\<close>

text \<open>One operation on the store and the token it brings into being, if any.\<close>

datatype 'j session_op = Create int "'j option" int int | Turn int "'j option" 'j int | Drop 'j | Purge int

fun drawn :: "'j session_op \<Rightarrow> 'j option" where
  "drawn (Create now j u ttl) = j" | "drawn (Turn now j k ttl) = j" | "drawn (Drop k) = None" | "drawn (Purge now) = None"

locale session_store =
  fixes user_of :: "'s \<Rightarrow> 'j \<Rightarrow> int option"
    and turn :: "int \<Rightarrow> 'j option \<Rightarrow> 'j \<Rightarrow> int \<Rightarrow> 's \<Rightarrow> ('j \<times> int) option \<times> 's"
    and step :: "'j session_op \<Rightarrow> 's \<Rightarrow> 's"
  assumes turn_step: "snd (turn now j k ttl s) = step (Turn now j k ttl) s"
    and turn_consumes: "j \<noteq> Some k \<Longrightarrow> user_of (step (Turn now j k ttl) s) k = None"
    and turn_result: "fst (turn now j k ttl s) = Some (n, u) \<Longrightarrow> j = Some n \<and> user_of s k = Some u \<and> user_of (snd (turn now j k ttl s)) n = Some u"
    and step_keeps_absent: "user_of s k = None \<Longrightarrow> drawn p \<noteq> Some k \<Longrightarrow> user_of (step p s) k = None"
    and step_user: "user_of (step p s) k = Some u \<Longrightarrow> user_of s k = Some u
       \<or> (drawn p = Some k \<and> (\<exists>now ttl. p = Create now (Some k) u ttl) \<or> (\<exists>now old ttl. p = Turn now (Some k) old ttl \<and> user_of s old = Some u))"
begin

definition steps :: "'j session_op list \<Rightarrow> 's \<Rightarrow> 's" where
  "steps ps s = fold step ps s"

lemma absent_stays:
  "user_of s k = None \<Longrightarrow> (\<forall>p\<in>set ps. drawn p \<noteq> Some k) \<Longrightarrow> user_of (steps ps s) k = None"
  by (induction ps arbitrary: s) (simp_all add: steps_def step_keeps_absent)

text \<open>A token can be turned once.\<close>

lemma turned_once:
  assumes "fst (turn now j k ttl s) = Some x" "j \<noteq> Some k" "\<forall>p\<in>set ps. drawn p \<noteq> Some k"
  shows "fst (turn now' j' k ttl' (steps ps (snd (turn now j k ttl s)))) = None"
proof -
  have "user_of (steps ps (snd (turn now j k ttl s))) k = None"
    using assms(2,3) by (simp add: turn_step turn_consumes absent_stays)
  then show ?thesis using turn_result by (metis option.distinct(1) option.exhaust surj_pair)
qed

text \<open>Every live token belongs to a user some session was created for.\<close>

lemma users_from_creates:
  assumes "\<forall>k u. user_of s k = Some u \<longrightarrow> u \<in> U" "\<forall>p\<in>set ps. \<forall>now j u ttl. p = Create now j u ttl \<longrightarrow> u \<in> U"
  shows "user_of (steps ps s) k = Some u \<Longrightarrow> u \<in> U"
  using assms
proof (induction ps arbitrary: s k u)
  case (Cons p ps)
  have s1: "\<forall>k u. user_of (step p s) k = Some u \<longrightarrow> u \<in> U"
    using step_user [of p s] Cons.prems(2,3) by (metis list.set_intros(1))
  show ?case
    by (rule Cons.IH [of "step p s"]) (use Cons.prems s1 in \<open>auto simp: steps_def\<close>)
qed (simp add: steps_def)

end

section \<open>The store keeps the contract\<close>

definition session_user :: "sessions \<Rightarrow> string \<Rightarrow> int option" where
  "session_user s k = map_option se_user (s k)"

text \<open>The operations with the token already encoded.\<close>

definition turn_session :: "int \<Rightarrow> string option \<Rightarrow> string \<Rightarrow> int \<Rightarrow> sessions \<Rightarrow> (string \<times> int) option \<times> sessions" where
  "turn_session now j k ttl s = (case s k of
     None \<Rightarrow> (None, s)
   | Some se \<Rightarrow> if now > se_expires se then (None, s(k := None))
       else (case j of None \<Rightarrow> (None, s(k := None))
         | Some n \<Rightarrow> (Some (n, se_user se), (s(k := None))(n \<mapsto> \<lparr>se_user = se_user se, se_created = now, se_expires = now + ttl\<rparr>))))"

fun session_step :: "string session_op \<Rightarrow> sessions \<Rightarrow> sessions" where
  "session_step (Create now j u ttl) s = (case j of None \<Rightarrow> s
     | Some n \<Rightarrow> s(n \<mapsto> \<lparr>se_user = u, se_created = now, se_expires = now + ttl\<rparr>))"
| "session_step (Turn now j k ttl) s = snd (turn_session now j k ttl s)"
| "session_step (Drop k) s = Revoke k s"
| "session_step (Purge now) s = purgeExpired now s"

fun token_of :: "go_error + string \<Rightarrow> string option" where
  "token_of (Inl e) = None" | "token_of (Inr b) = Some (hex_encode b)"

lemma generateJTI_token:
  "token_of draw = None \<longleftrightarrow> (\<exists>e. generateJTI draw = Inl e)" "token_of draw = Some j \<longleftrightarrow> generateJTI draw = Inr j"
  by (cases draw; simp add: generateJTI_def)+

lemma Rotate_turn:
  "snd (Rotate now draw k ttl s) = snd (turn_session now (token_of draw) k ttl s)"
  "fst (Rotate now draw k ttl s) = Inr r \<longleftrightarrow> fst (turn_session now (token_of draw) k ttl s) = Some r"
proof -
  show "snd (Rotate now draw k ttl s) = snd (turn_session now (token_of draw) k ttl s)"
    by (cases draw; cases "s k") (simp_all add: Rotate_def turn_session_def generateJTI_def)
  show "fst (Rotate now draw k ttl s) = Inr r \<longleftrightarrow> fst (turn_session now (token_of draw) k ttl s) = Some r"
    by (cases draw; cases "s k") (simp_all add: Rotate_def turn_session_def generateJTI_def)
qed

lemma CreateSession_step: "snd (CreateSession now draw u ttl s) = session_step (Create now (token_of draw) u ttl) s"
  by (cases draw) (simp_all add: CreateSession_def generateJTI_def)

interpretation store: session_store session_user turn_session session_step
proof
  show "snd (turn_session now j k ttl s) = session_step (Turn now j k ttl) s" for now j k ttl s by simp
  show "session_user (session_step (Turn now j k ttl) s) k = None" if "j \<noteq> Some k" for now j k ttl s
    using that by (auto simp: turn_session_def session_user_def split: option.split)
  show "j = Some n \<and> session_user s k = Some u \<and> session_user (snd (turn_session now j k ttl s)) n = Some u"
    if "fst (turn_session now j k ttl s) = Some (n, u)" for now j k ttl s n u
    using that by (auto simp: turn_session_def session_user_def split: option.splits if_splits)
  show "session_user (session_step p s) k = None" if "session_user s k = None" "drawn p \<noteq> Some k" for p s k
    using that by (cases p) (auto simp: turn_session_def session_user_def Revoke_def purgeExpired_def split: option.splits)
  show "session_user s k = Some u \<or> (drawn p = Some k \<and> (\<exists>now ttl. p = Create now (Some k) u ttl)
      \<or> (\<exists>now old ttl. p = Turn now (Some k) old ttl \<and> session_user s old = Some u))"
    if "session_user (session_step p s) k = Some u" for p s k u
    using that by (cases p) (auto simp: turn_session_def session_user_def Revoke_def purgeExpired_def split: option.splits if_splits)
qed

lemma hex_digit_inj: "a < 16 \<Longrightarrow> b < 16 \<Longrightarrow> hex_digit a = hex_digit b \<Longrightarrow> a = b"
proof -
  have d: "of_char (hex_digit n) = (if n < 10 then n + 48 else n + 87)" if "n < 16" for n :: nat
    using that by (simp add: hex_digit_def)
  assume "a < 16" "b < 16" "hex_digit a = hex_digit b"
  then have "(if a < 10 then a + 48 else a + 87) = (if b < 10 then b + 48 else b + 87)"
    using d [of a] d [of b] by simp
  then show "a = b" by (simp split: if_splits)
qed

text \<open>Different random bytes give different tokens.\<close>

lemma hex_encode_inj: "hex_encode a = hex_encode b \<Longrightarrow> a = b"
proof (induction a arbitrary: b)
  case Nil
  then show ?case by (cases b) (simp_all add: hex_encode_def)
next
  case (Cons c a)
  then obtain e d where b: "b = e # d" by (cases b) (simp_all add: hex_encode_def)
  have l: "byte x div 16 < 16" for x by (simp add: byte_def less_mult_imp_div_less)
  have "hex_digit (byte c div 16) = hex_digit (byte e div 16)" "hex_digit (byte c mod 16) = hex_digit (byte e mod 16)"
    "hex_encode a = hex_encode d"
    using Cons.prems by (simp_all add: b hex_encode_def)
  then have "byte c div 16 = byte e div 16" "byte c mod 16 = byte e mod 16" "a = d"
    using l Cons.IH by (auto intro: hex_digit_inj)
  then have "byte c = byte e" by (metis mult_div_mod_eq)
  then show ?case by (simp add: b byte_def \<open>a = d\<close>)
qed

end
