(* ===== verification/Managers.thy ===== *)
theory Managers
  imports Host Crypto PeerRepo Sessions
begin

text \<open>
  The runtime state of the tunnels and the two managers that own it: \<open>infrastructure/wireguard/manager.go\<close> (with
  \<open>manager_uapi_linux.go\<close>) and \<open>infrastructure/xrayinfra/manager.go\<close>. The world of the tunnel services is the
  event log's world extended by the host, the managers' maps, the random source, the tunnels marked as running
  (\<open>RunSet\<close> of \<open>service/tunnel_runtime.go\<close>) and those the statistics collector tracks. Each operation of a
  set or a map behind a mutex is one step.
\<close>

section \<open>The world\<close>

record managed_device =
  md_dev :: nat
  md_uapi :: "nat option"

record 'k run_world = log_world +
  rw_host :: 'k
  rw_devices :: "int \<rightharpoonup> managed_device"
  rw_instances :: "int \<rightharpoonup> nat"
  rw_running :: "int list"
  rw_tracking :: "int list"
  rw_rand :: "nat \<Rightarrow> go_error + string"
  rw_drawn :: nat

type_synonym ('k, 'a, 'r) run_call = "(('k, 'a) run_world_scheme, 'r) call"

text \<open>The libraries and the master key the services are built with.\<close>

record 'k env =
  en_host :: "'k host"
  en_crypto :: crypto_lib
  en_key :: string
  en_trace :: trace_env

definition on_host :: "('k, 'r) call \<Rightarrow> ('k, 'a, 'r) run_call" where
  "on_host m w = (case m (rw_host w) of (r, h) \<Rightarrow> (r, w\<lparr>rw_host := h\<rparr>))"

definition draw :: "('k, 'a, go_error + string) run_call" where
  "draw w = (Inr (rw_rand w (rw_drawn w)), w\<lparr>rw_drawn := Suc (rw_drawn w)\<rparr>)"

section \<open>RunSet\<close>

text \<open>A map whose keys are the members: here their list, each once. Go lists them in any order.\<close>

definition set_Mark :: "int \<Rightarrow> int list \<Rightarrow> int list" where
  "set_Mark i s = (if i \<in> set s then s else s @ [i])"

definition set_Clear :: "int \<Rightarrow> int list \<Rightarrow> int list" where
  "set_Clear i s = removeAll i s"

definition set_Contains :: "int list \<Rightarrow> int \<Rightarrow> bool" where
  "set_Contains s i \<longleftrightarrow> i \<in> set s"

definition set_Len :: "int list \<Rightarrow> nat" where
  "set_Len s = length s"

definition set_IDs :: "int list \<Rightarrow> int list" where
  "set_IDs s = s"

definition set_Drain :: "int list \<Rightarrow> int list \<times> int list" where
  "set_Drain s = (s, [])"

section \<open>The WireGuard manager\<close>

definition splitAllowed :: "string \<Rightarrow> string list" where
  "splitAllowed s = (if trim_space s = [] then [''0.0.0.0/0'']
     else let res = filter (\<lambda>t. t \<noteq> []) (map trim_space (split_on CHR '','' s)) in
       if res = [] then [''0.0.0.0/0''] else res)"

definition ipc_line :: "string \<Rightarrow> string \<Rightarrow> string" where
  "ipc_line k v = k @ ''='' @ v @ [CHR 0x0A]"

definition parse_key_err :: go_error where "parse_key_err = Opaque ''wgtypes: incorrect key size''"

definition parse_key :: "crypto_lib \<Rightarrow> string \<Rightarrow> go_error + string" where
  "parse_key C s = (case cl_parse_key C (trim_space s) of None \<Rightarrow> Inl parse_key_err | Some k \<Rightarrow> Inr k)"

definition ipc_peer :: "(string \<Rightarrow> string option) option \<Rightarrow> wg_peer \<Rightarrow> string \<Rightarrow> string" where
  "ipc_peer pskForPub p pub = ipc_line ''public_key'' (hex_encode pub) @ ipc_line ''protocol_version'' ''1''
     @ (case pskForPub of None \<Rightarrow> [] | Some f \<Rightarrow> (case f (trim_space (wp_pubkey p)) of
          None \<Rightarrow> [] | Some k \<Rightarrow> if length k = 32 then ipc_line ''preshared_key'' (hex_encode k) else []))
     @ ipc_line ''replace_allowed_ips'' ''true''
     @ concat (map (ipc_line ''allowed_ip'') (splitAllowed (wp_allowed p)))
     @ (if wp_keepalive p > 0 then ipc_line ''persistent_keepalive_interval'' (itoa (wp_keepalive p)) else [])"

fun ipc_peers :: "crypto_lib \<Rightarrow> (string \<Rightarrow> string option) option \<Rightarrow> wg_peer list \<Rightarrow> go_error + string" where
  "ipc_peers C psk [] = Inr []"
| "ipc_peers C psk (p # ps) = (case parse_key C (wp_pubkey p) of Inl e \<Rightarrow> Inl e
     | Inr pub \<Rightarrow> (case ipc_peers C psk ps of Inl e \<Rightarrow> Inl e | Inr s \<Rightarrow> Inr (ipc_peer psk p pub @ s)))"

definition buildIPC :: "crypto_lib \<Rightarrow> int \<Rightarrow> string \<Rightarrow> wg_peer list \<Rightarrow> (string \<Rightarrow> string option) option \<Rightarrow> go_error + string" where
  "buildIPC C listenPort privB64 peers pskForPub = (case parse_key C privB64 of Inl e \<Rightarrow> Inl e
     | Inr sk \<Rightarrow> (case ipc_peers C pskForPub peers of Inl e \<Rightarrow> Inl e
       | Inr s \<Rightarrow> Inr (ipc_line ''private_key'' (hex_encode sk) @ ipc_line ''listen_port'' (itoa listenPort)
            @ ipc_line ''replace_peers'' ''true'' @ s @ [CHR 0x0A])))"

text \<open>\<open>UAPIListen\<close> failing closes the file; here it has no other effect. The accept loop runs until the listener is
  closed.\<close>

definition startUAPI :: "'k host \<Rightarrow> string \<Rightarrow> ('k, nat) call" where
  "startUAPI H tun = attempt (wg_UAPIOpen H tun) (\<lambda>r. case r of
     Inl e \<Rightarrow> fail (Wrap ''uapi open'' e)
   | Inr f \<Rightarrow> attempt (wg_UAPIListen H tun f) (\<lambda>r. case r of
       Inl e \<Rightarrow> bnd (ignore (wg_UAPIClose H f)) (\<lambda>_. fail (Wrap ''uapi listen'' e))
     | Inr l \<Rightarrow> ret l))"

definition close_device :: "'k host \<Rightarrow> managed_device \<Rightarrow> ('k, unit) call" where
  "close_device H md = bnd (case md_uapi md of None \<Rightarrow> ret () | Some u \<Rightarrow> ignore (wg_UAPIClose H u)) (\<lambda>_. ignore (wg_Close H (md_dev md)))"

definition wg_Create :: "'k env \<Rightarrow> int \<Rightarrow> int \<Rightarrow> int \<Rightarrow> string \<Rightarrow> wg_peer list \<Rightarrow> (string \<Rightarrow> string option) option \<Rightarrow> string \<Rightarrow> ('k, 'a, unit) run_call" where
  "wg_Create E tunnelID mtu listenPort privB64 peers pskForPub tunName = (let H = en_host E in
     bnd (on_host (wg_CreateTUN H tunName mtu)) (\<lambda>dev.
     case buildIPC (en_crypto E) listenPort privB64 peers pskForPub of
       Inl e \<Rightarrow> bnd (on_host (ignore (wg_Close H dev))) (\<lambda>_. fail e)
     | Inr cfg \<Rightarrow> attempt (on_host (wg_IpcSet H dev cfg)) (\<lambda>r. case r of
         Inl e \<Rightarrow> bnd (on_host (ignore (wg_Close H dev))) (\<lambda>_. fail e)
       | Inr _ \<Rightarrow> attempt (on_host (startUAPI H tunName)) (\<lambda>u.
           bnd (gets (\<lambda>w. rw_devices w tunnelID)) (\<lambda>prev.
           bnd (case prev of None \<Rightarrow> ret () | Some md \<Rightarrow> on_host (close_device H md)) (\<lambda>_.
           upd (\<lambda>w. w\<lparr>rw_devices := (rw_devices w)(tunnelID \<mapsto>
              \<lparr>md_dev = dev, md_uapi = (case u of Inl e \<Rightarrow> None | Inr l \<Rightarrow> Some l)\<rparr>)\<rparr>)))))))"

definition wg_ReloadPeers :: "'k env \<Rightarrow> int \<Rightarrow> int \<Rightarrow> int \<Rightarrow> string \<Rightarrow> wg_peer list \<Rightarrow> (string \<Rightarrow> string option) option \<Rightarrow> ('k, 'a, unit) run_call" where
  "wg_ReloadPeers E tunnelID mtu listenPort privB64 peers pskForPub = bnd (gets (\<lambda>w. rw_devices w tunnelID)) (\<lambda>md. case md of
     None \<Rightarrow> fail (Opaque (''wg device missing for tunnel '' @ itoa tunnelID))
   | Some d \<Rightarrow> bnd (lift (buildIPC (en_crypto E) listenPort privB64 peers pskForPub)) (\<lambda>cfg.
       on_host (wg_IpcSet (en_host E) (md_dev d) cfg)))"

definition wg_Destroy :: "'k env \<Rightarrow> int \<Rightarrow> ('k, 'a, unit) run_call" where
  "wg_Destroy E tunnelID = bnd (gets (\<lambda>w. rw_devices w tunnelID)) (\<lambda>md. case md of
     None \<Rightarrow> ret ()
   | Some d \<Rightarrow> bnd (upd (\<lambda>w. w\<lparr>rw_devices := (rw_devices w)(tunnelID := None)\<rparr>)) (\<lambda>_.
       on_host (close_device (en_host E) d)))"

definition wg_Exists :: "int \<Rightarrow> ('k, 'a, bool) run_call" where
  "wg_Exists tunnelID = gets (\<lambda>w. rw_devices w tunnelID \<noteq> None)"

section \<open>The Xray manager\<close>

definition xray_Start :: "'k env \<Rightarrow> int \<Rightarrow> int \<Rightarrow> int \<Rightarrow> string \<Rightarrow> vless_node list \<Rightarrow> string \<Rightarrow> ('k, 'a, unit) run_call" where
  "xray_Start E tunnelID xrayPort fwmark localGatewayIP nodes strategy = (let H = en_host E in
     if nodes = [] then fail (Opaque (''xray Start: no nodes provided for tunnel '' @ itoa tunnelID))
     else bnd (lift (BuildXrayConfig (en_trace E) xrayPort localGatewayIP nodes strategy)) (\<lambda>raw.
       bnd (on_host (xr_Load H raw)) (\<lambda>cfg.
       bnd (on_host (xr_New H cfg)) (\<lambda>inst.
       attempt (on_host (xr_Start H inst)) (\<lambda>r. case r of
         Inl e \<Rightarrow> bnd (on_host (ignore (xr_Close H inst))) (\<lambda>_. fail e)
       | Inr _ \<Rightarrow> bnd (gets (\<lambda>w. rw_instances w tunnelID)) (\<lambda>old.
           bnd (case old of None \<Rightarrow> ret () | Some i \<Rightarrow> on_host (ignore (xr_Close H i))) (\<lambda>_.
           upd (\<lambda>w. w\<lparr>rw_instances := (rw_instances w)(tunnelID \<mapsto> inst)\<rparr>))))))))"

definition xray_Stop :: "'k env \<Rightarrow> int \<Rightarrow> ('k, 'a, unit) run_call" where
  "xray_Stop E tunnelID = bnd (gets (\<lambda>w. rw_instances w tunnelID)) (\<lambda>inst. case inst of
     None \<Rightarrow> ret ()
   | Some i \<Rightarrow> bnd (upd (\<lambda>w. w\<lparr>rw_instances := (rw_instances w)(tunnelID := None)\<rparr>)) (\<lambda>_.
       on_host (xr_Close (en_host E) i)))"

text \<open>What the observatory of a running instance reports, none when there is no instance or no observatory.\<close>

definition xray_NodeHealth :: "'k env \<Rightarrow> int \<Rightarrow> ('k, 'a, node_health_entry list option) run_call" where
  "xray_NodeHealth E tunnelID = gets (\<lambda>w. case rw_instances w tunnelID of None \<Rightarrow> None
     | Some i \<Rightarrow> map_option (map (\<lambda>e. e\<lparr>nh_delay := (if nh_alive e then nh_delay e else -1)\<rparr>)) (xr_Observe (en_host E) i (rw_host w)))"

end
