(* ===== verification/StatsRepo.thy ===== *)
theory StatsRepo
  imports PeerRepo
begin

text \<open>
  \<open>infrastructure/db/stats_repo.go\<close>, the traffic snapshots, and \<open>infrastructure/db/settings_repo.go\<close>, the
  key-value settings.
\<close>

section \<open>Snapshots\<close>

definition stats_Insert :: "stat_snapshot \<Rightarrow> ('a database_scheme, unit) call" where
  "stats_Insert s = exec (\<lambda>d. ((), d\<lparr>db_stats := t_insert (\<lambda>i. s\<lparr>ss_id := i\<rparr>) (db_stats d)\<rparr>))"

definition DeleteOlderThan :: "int \<Rightarrow> ('a database_scheme, unit) call" where
  "DeleteOlderThan cutoff = exec (\<lambda>d. ((), del_stats (\<lambda>s. ss_at s < cutoff) d))"

definition in_window :: "int \<Rightarrow> int \<Rightarrow> stat_snapshot \<Rightarrow> bool" where
  "in_window t0 t1 s \<longleftrightarrow> t0 \<le> ss_at s \<and> ss_at s \<le> t1"

definition QueryInterfaceWindow :: "int \<Rightarrow> int \<Rightarrow> int \<Rightarrow> ('a database_scheme, stat_snapshot list) call" where
  "QueryInterfaceWindow ifaceID t0 t1 = query (\<lambda>d. map (\<lambda>s. s\<lparr>ss_peer := None\<rparr>) (sort_key ss_at
     (t_select (\<lambda>s. ss_iface s = Some ifaceID \<and> ss_peer s = None \<and> in_window t0 t1 s) (db_stats d))))"

definition QueryPeerWindow :: "int \<Rightarrow> int \<Rightarrow> int \<Rightarrow> ('a database_scheme, stat_snapshot list) call" where
  "QueryPeerWindow peerID t0 t1 = query (\<lambda>d. map (\<lambda>s. s\<lparr>ss_active := None\<rparr>) (sort_key ss_at
     (t_select (\<lambda>s. ss_peer s = Some peerID \<and> in_window t0 t1 s) (db_stats d))))"

text \<open>The inner query: the newest time of each tunnel's own snapshots; the join gives the rows of that time,
  and the map keeps the last of them.\<close>

definition own_snapshots :: "int \<Rightarrow> 'a database_scheme \<Rightarrow> stat_snapshot list" where
  "own_snapshots i d = t_select (\<lambda>s. ss_iface s = Some i \<and> ss_peer s = None) (db_stats d)"

definition newest_at :: "int \<Rightarrow> 'a database_scheme \<Rightarrow> int option" where
  "newest_at i d = (if own_snapshots i d = [] then None else Some (Max (set (map ss_at (own_snapshots i d)))))"

definition rate_rows :: "'a database_scheme \<Rightarrow> (int \<times> int \<times> int) list" where
  "rate_rows d = List.map_filter (\<lambda>s. case ss_iface s of None \<Rightarrow> None
     | Some i \<Rightarrow> if newest_at i d = Some (ss_at s) then Some (i, ss_rx_rate s, ss_tx_rate s) else None) (t_rows (db_stats d))"

definition QueryLatestInterfaceRates :: "('a database_scheme, int \<rightharpoonup> int \<times> int) call" where
  "QueryLatestInterfaceRates = query (\<lambda>d. fold (\<lambda>(i, r) m. m(i \<mapsto> r)) (rate_rows d) Map.empty)"

definition DBCounts :: "('a database_scheme, int \<times> int \<times> int \<times> int) call" where
  "DBCounts =
     bnd (query (\<lambda>d. t_count (\<lambda>w. wi_status w = WgRunning) (db_ifaces d))) (\<lambda>running.
     bnd (query (\<lambda>d. t_count (\<lambda>_. True) (db_peers d))) (\<lambda>peers.
     bnd (query (\<lambda>d. (sum_list (map wp_rx (t_rows (db_peers d))), sum_list (map wp_tx (t_rows (db_peers d)))))) (\<lambda>(rx, txb).
     ret (running, peers, rx, txb))))"

section \<open>Settings\<close>

definition setting_Get :: "string \<Rightarrow> ('a database_scheme, string) call" where
  "setting_Get key = bnd (query (\<lambda>d. db_settings d key)) (\<lambda>r. ret (case r of None \<Rightarrow> [] | Some v \<Rightarrow> v))"

definition setting_Set :: "string \<Rightarrow> string \<Rightarrow> ('a database_scheme, unit) call" where
  "setting_Set key value = exec (\<lambda>d. ((), d\<lparr>db_settings := (db_settings d)(key \<mapsto> value)\<rparr>))"

section \<open>Lemmas\<close>

lemma stats_ops_schema [preserves_intro]:
  "preserves schema_ok (stats_Insert s)" "preserves schema_ok (DeleteOlderThan c)"
  "preserves schema_ok (QueryInterfaceWindow i a b)" "preserves schema_ok (QueryPeerWindow i a b)"
  "preserves schema_ok QueryLatestInterfaceRates" "preserves schema_ok DBCounts"
proof -
  show "preserves schema_ok (stats_Insert s)"
    unfolding stats_Insert_def by (rule preserves_exec_schema) (simp add: ids_ok_upd table_ok_insert)
  show "preserves schema_ok (DeleteOlderThan c)"
    unfolding DeleteOlderThan_def del_stats_def by (rule preserves_exec_schema) (simp add: ids_ok_upd table_ok_delete)
  show "preserves schema_ok (QueryInterfaceWindow i a b)" "preserves schema_ok (QueryPeerWindow i a b)"
    "preserves schema_ok QueryLatestInterfaceRates"
    unfolding QueryInterfaceWindow_def QueryPeerWindow_def QueryLatestInterfaceRates_def by (intro preserves_intro)+
  have "preserves schema_ok (case z of (rx, txb) \<Rightarrow> ret (a, b, rx, txb))" for z a b
    by (cases z) (simp add: preserves_ret)
  then show "preserves schema_ok DBCounts" unfolding DBCounts_def by (intro preserves_intro)
qed

lemma settings_schema [preserves_intro]:
  "preserves schema_ok (setting_Get k)" "preserves schema_ok (setting_Set k v)"
proof -
  show "preserves schema_ok (setting_Get k)" unfolding setting_Get_def by (intro preserves_intro)
  show "preserves schema_ok (setting_Set k v)" unfolding setting_Set_def
    by (rule preserves_exec_schema) (simp add: ids_ok_def del: ids_ok_parts)
qed

lemma setting_Set_Get:
  assumes "no_fault d" "schema_ok d"
  shows "\<exists>t. setting_Set k v d = (Inr (), t) \<and> fst (setting_Get j t) = Inr (if j = k then v else (case db_settings d j of None \<Rightarrow> [] | Some x \<Rightarrow> x))"
proof -
  let ?f = "\<lambda>d. d\<lparr>db_settings := (db_settings d)(k \<mapsto> v)\<rparr>"
  have "schema_ok (?f d)" using assms(2) by (simp add: schema_defs del: ids_ok_parts)
  then have "setting_Set k v d = (Inr (), ticks 1 (?f d))"
    using exec_step [of d ?f "\<lambda>_. ()"] assms(1) by (simp add: setting_Set_def ticks_def)
  moreover have "no_fault (ticks 1 (?f d))" using assms(1) by (simp add: no_fault_def)
  ultimately show ?thesis by (auto simp: setting_Get_def bnd_def ret_def)
qed

lemma fold_map_upd:
  "(fold (\<lambda>(i, r) m. m(i \<mapsto> r)) xs m) j = (case filter (\<lambda>(i, r). i = j) xs of [] \<Rightarrow> m j | ys \<Rightarrow> Some (snd (last ys)))"
  by (induction xs arbitrary: m) (auto split: list.splits)

definition stats_unambiguous :: "'a database_scheme \<Rightarrow> bool" where
  "stats_unambiguous d \<longleftrightarrow> (\<forall>s\<in>set (t_rows (db_stats d)). \<forall>q\<in>set (t_rows (db_stats d)).
     ss_iface s \<noteq> None \<longrightarrow> ss_iface s = ss_iface q \<longrightarrow> ss_at s = ss_at q \<longrightarrow> s = q)
   \<and> (\<forall>s\<in>set (t_rows (db_stats d)). ss_iface s \<noteq> None \<longrightarrow> ss_peer s = None)"

lemma stats_tick: "own_snapshots i (tick d) = own_snapshots i d" "newest_at i (tick d) = newest_at i d"
  by (simp_all add: newest_at_def own_snapshots_def)

lemma rate_rows_tick [simp]: "rate_rows (tick d) = rate_rows d"
  unfolding rate_rows_def stats_tick by simp

section \<open>Properties\<close>

text \<open>The rates shown for a tunnel are those of its newest snapshot, and a tunnel has rates exactly when it
  has snapshots of its own (the collector stores one snapshot of a tunnel per time, and marks no peer's
  snapshot with a tunnel).\<close>

theorem latest_rates:
  assumes "no_fault d" "stats_unambiguous d"
  shows "\<exists>m t. QueryLatestInterfaceRates d = (Inr m, t)
     \<and> (\<forall>i. m i = None \<longleftrightarrow> own_snapshots i d = [])
     \<and> (\<forall>i s. s \<in> set (own_snapshots i d) \<longrightarrow> (\<forall>q\<in>set (own_snapshots i d). ss_at q \<le> ss_at s)
              \<longrightarrow> m i = Some (ss_rx_rate s, ss_tx_rate s))"
proof -
  let ?m = "fold (\<lambda>(i, r) m. m(i \<mapsto> r)) (rate_rows d) Map.empty"
  have q: "QueryLatestInterfaceRates d = (Inr ?m, tick d)"
    using assms(1) by (simp add: QueryLatestInterfaceRates_def)
  have own: "s \<in> set (own_snapshots i d) \<longleftrightarrow> s \<in> set (t_rows (db_stats d)) \<and> ss_iface s = Some i \<and> ss_peer s = None" for i s
    by (auto simp: own_snapshots_def t_select_def)
  have new: "newest_at i d = Some (ss_at s) \<longleftrightarrow> (\<forall>q\<in>set (own_snapshots i d). ss_at q \<le> ss_at s)"
    if "s \<in> set (own_snapshots i d)" for i s
  proof -
    have ne: "own_snapshots i d \<noteq> []" using that by auto
    have "Max (set (map ss_at (own_snapshots i d))) = ss_at s
        \<longleftrightarrow> ss_at s \<in> set (map ss_at (own_snapshots i d)) \<and> (\<forall>a\<in>set (map ss_at (own_snapshots i d)). a \<le> ss_at s)"
      using ne by (intro Max_eq_iff) auto
    with that ne show ?thesis by (simp add: newest_at_def)
  qed
  have row: "(i, r) \<in> set (rate_rows d) \<longleftrightarrow> (\<exists>s\<in>set (own_snapshots i d). newest_at i d = Some (ss_at s) \<and> r = (ss_rx_rate s, ss_tx_rate s))" for i r
  proof -
    have c: "(case v of None \<Rightarrow> None | Some j \<Rightarrow> if newest_at j d = Some a then Some (j, b, c) else None) = Some (i, r)
        \<longleftrightarrow> v = Some i \<and> newest_at i d = Some a \<and> r = (b, c)" for v a b c
      by (cases v) auto
    have mem: "s \<in> set (own_snapshots i d) \<longleftrightarrow> s \<in> set (t_rows (db_stats d)) \<and> ss_iface s = Some i" for s
      using assms(2) by (auto simp: own stats_unambiguous_def)
    have "(i, r) \<in> set (rate_rows d) \<longleftrightarrow> (\<exists>s\<in>set (t_rows (db_stats d)). ss_iface s = Some i
        \<and> newest_at i d = Some (ss_at s) \<and> r = (ss_rx_rate s, ss_tx_rate s))"
      by (simp only: rate_rows_def set_map_filter_Some c)
    then show ?thesis by (simp only: mem Bex_def conj_assoc)
  qed
  have val: "?m i = Some (ss_rx_rate s, ss_tx_rate s)"
    if s: "s \<in> set (own_snapshots i d)" and max: "\<forall>q\<in>set (own_snapshots i d). ss_at q \<le> ss_at s" for i s
  proof -
    let ?ys = "filter (\<lambda>(j, r). j = i) (rate_rows d)"
    have in_ys: "(i, ss_rx_rate s, ss_tx_rate s) \<in> set ?ys" using row new s max by auto
    have "y = (i, ss_rx_rate s, ss_tx_rate s)" if "y \<in> set ?ys" for y
    proof -
      obtain q where q: "q \<in> set (own_snapshots i d)" "newest_at i d = Some (ss_at q)" "y = (i, ss_rx_rate q, ss_tx_rate q)"
      proof -
        obtain j a b where y: "y = (j, a, b)" by (metis prod_cases3)
        with \<open>y \<in> set ?ys\<close> have "(i, a, b) \<in> set (rate_rows d)" "j = i" by auto
        with y row that show thesis by blast
      qed
      with new s max have "ss_at q = ss_at s" by fastforce
      with q s assms(2) have "q = s" by (auto simp: own stats_unambiguous_def)
      with q show ?thesis by simp
    qed
    moreover have "last ?ys \<in> set ?ys" using in_ys by (metis empty_iff last_in_set list.set(1))
    ultimately have "last ?ys = (i, ss_rx_rate s, ss_tx_rate s)" by blast
    moreover have "?ys \<noteq> []" using in_ys by (metis empty_iff list.set(1))
    ultimately show ?thesis by (cases ?ys) (simp_all add: fold_map_upd)
  qed
  have none: "?m i = None \<longleftrightarrow> own_snapshots i d = []" for i
  proof (cases "own_snapshots i d = []")
    case True
    then have "filter (\<lambda>(j, r). j = i) (rate_rows d) = []" using row by (auto simp: filter_empty_conv)
    with True show ?thesis by (simp add: fold_map_upd)
  next
    case False
    let ?S = "set (map ss_at (own_snapshots i d))"
    have "Max ?S \<in> ?S" using False by (intro Max_in) auto
    then obtain s where s: "s \<in> set (own_snapshots i d)" "ss_at s = Max ?S" by auto
    then have "\<forall>q\<in>set (own_snapshots i d). ss_at q \<le> ss_at s" by auto
    from val [OF s(1) this] False show ?thesis by simp
  qed
  show ?thesis using q none val by blast
qed

definition snap :: "int \<Rightarrow> int option \<Rightarrow> int option \<Rightarrow> int \<Rightarrow> int \<Rightarrow> stat_snapshot" where
  "snap i w p rate at = \<lparr>ss_id = i, ss_iface = w, ss_peer = p, ss_rx = 0, ss_tx = 0, ss_rx_rate = rate,
     ss_tx_rate = rate, ss_active = None, ss_at = at\<rparr>"

definition stats_db :: database where
  "stats_db = peer_db\<lparr>db_stats := \<lparr>t_rows = [snap 1 (Some 1) None 5 10, snap 2 None (Some 1) 9 12,
     snap 3 (Some 1) None 7 12], t_seq = 3\<rparr>\<rparr>"

theorem latest_rates_witness:
  "\<exists>m t. QueryLatestInterfaceRates stats_db = (Inr m, t) \<and> m 1 = Some (7, 7) \<and> m 2 = None"
proof -
  have "no_fault stats_db" "stats_unambiguous stats_db"
    using peer_db_ok by (simp_all add: stats_db_def no_fault_def stats_unambiguous_def snap_def)
  from latest_rates [OF this] obtain m t where m: "QueryLatestInterfaceRates stats_db = (Inr m, t)"
    "\<forall>i. m i = None \<longleftrightarrow> own_snapshots i stats_db = []"
    "\<forall>i s. s \<in> set (own_snapshots i stats_db) \<longrightarrow> (\<forall>q\<in>set (own_snapshots i stats_db). ss_at q \<le> ss_at s)
              \<longrightarrow> m i = Some (ss_rx_rate s, ss_tx_rate s)" by blast
  have own: "own_snapshots 1 stats_db = [snap 1 (Some 1) None 5 10, snap 3 (Some 1) None 7 12]" "own_snapshots 2 stats_db = []"
    by (simp_all add: own_snapshots_def stats_db_def t_select_def snap_def)
  have "m 1 = Some (ss_rx_rate (snap 3 (Some 1) None 7 12), ss_tx_rate (snap 3 (Some 1) None 7 12))"
    by (rule m(3) [rule_format]; simp add: own; auto simp: snap_def)
  moreover have "m 2 = None" using m(2) own by simp
  ultimately have "m 2 = None" "m 1 = Some (7, 7)" by (simp_all add: snap_def)
  with m(1) show ?thesis by blast
qed

end
