(* ===== verification/Peers.thy ===== *)
theory Peers
  imports Managers StatsRepo
begin

text \<open>
  Peers: \<open>service/peer.go\<close>, the client configuration of \<open>service/wireguard_peer_ini.go\<close> and the MikroTik script of
  \<open>service/mikrotik.go\<close>.
\<close>

section \<open>Rendering\<close>

definition text_lines :: "string list \<Rightarrow> string" where
  "text_lines ls = concat (map (\<lambda>l. l @ [CHR 0x0A]) ls)"

definition WgPeerConfigEndpointHostPlaceholder :: string where
  "WgPeerConfigEndpointHostPlaceholder = ''<replace-with-server-host>''"

definition wireGuardPeerClientIni :: "string \<Rightarrow> string \<Rightarrow> string \<Rightarrow> int \<Rightarrow> string \<Rightarrow> string \<Rightarrow> string \<Rightarrow> int \<Rightarrow> int \<Rightarrow> string" where
  "wireGuardPeerClientIni privKey clientAddr dns mtu serverPub psk allowedIPs keepalive listenPort =
    (let dns = trim_space dns; psk = trim_space psk; al = trim_space allowedIPs in text_lines (
      [''[Interface]'', ''PrivateKey = '' @ trim_space privKey, ''Address = '' @ trim_space clientAddr]
      @ (if dns \<noteq> [] then [''DNS = '' @ dns] else [])
      @ [''MTU = '' @ itoa mtu, [], ''[Peer]'', ''PublicKey = '' @ trim_space serverPub]
      @ (if psk \<noteq> [] then [''PresharedKey = '' @ psk] else [])
      @ [''AllowedIPs = '' @ (if al = [] then ''0.0.0.0/0'' else al), ''PersistentKeepalive = '' @ itoa keepalive,
         ''Endpoint = '' @ WgPeerConfigEndpointHostPlaceholder @ '':'' @ itoa listenPort]))"

definition sanitizeName :: "string \<Rightarrow> string" where
  "sanitizeName s = (let t = trim_space s in if t = [] then ''client''
     else replace_all (replace_all t [CHR 0x22] []) [CHR 0x0A] [])"

text \<open>\<open>arg n v\<close> is a quoted argument, \<open>more l\<close> a line continued by a backslash. The time stamp is an argument.\<close>

definition arg :: "string \<Rightarrow> string \<Rightarrow> string" where
  "arg n v = n @ ''='' @ [CHR 0x22] @ v @ [CHR 0x22]"

definition more :: "string \<Rightarrow> string" where
  "more l = l @ '' '' @ [CHR 0x5C]"

definition BuildMikrotikCommands :: "string \<Rightarrow> wg_interface \<Rightarrow> wg_peer \<Rightarrow> string \<Rightarrow> string \<Rightarrow> string \<Rightarrow> string" where
  "BuildMikrotikCommands ts iface peer serverHost clientPriv psk =
    (let host = (if trim_space serverHost = [] then ''<YOUR_SERVER_IP>'' else serverHost);
         pn = ''xray2wg-'' @ sanitizeName (wp_name peer);
         ka = (if wp_keepalive peer \<le> 0 then 25 else wp_keepalive peer);
         port = itoa (wi_port iface) in
     text_lines [
      ''# === xray2wg: '' @ wp_name peer @ [CHR '' '', CHR 0xE2, CHR 0x86, CHR 0x92, CHR '' ''] @ wi_name iface @ '' ==='',
      ''# Generated: '' @ ts,
      [],
      ''# 1. Create WireGuard interface'',
      ''/interface wireguard'',
      more (''add '' @ arg ''name'' pn),
      more (''    '' @ arg ''private-key'' clientPriv),
      more ''    listen-port=0'',
      more (''    mtu='' @ itoa (wi_mtu iface)),
      ''    '' @ arg ''comment'' ''xray2wg tunnel'',
      [],
      ''# 2. Add server as peer'',
      ''/interface wireguard peers'',
      more (''add '' @ arg ''interface'' pn),
      more (''    '' @ arg ''public-key'' (wi_pubkey iface)),
      more (''    '' @ arg ''preshared-key'' psk),
      more (''    endpoint-address='' @ host),
      more (''    endpoint-port='' @ port),
      more ''    allowed-address=0.0.0.0/0'',
      more (''    persistent-keepalive='' @ itoa ka @ ''s''),
      ''    '' @ arg ''comment'' ''xray2wg server'',
      [],
      ''# 3. Assign IP address'',
      ''/ip address'',
      more (''add address='' @ wp_address peer),
      more (''    '' @ arg ''interface'' pn),
      ''    '' @ arg ''comment'' ''xray2wg client IP'',
      [],
      ''# 4. Allow WireGuard traffic through firewall (input chain)'',
      ''/ip firewall filter'',
      more ''add chain=input'',
      more ''    protocol=udp'',
      more (''    dst-port='' @ port),
      more ''    action=accept'',
      more ''    place-before=0'',
      ''    '' @ arg ''comment'' ''Allow xray2wg WireGuard'',
      [],
      ''# NOTE: Routing rules NOT configured '' @ [CHR 0xE2, CHR 0x80, CHR 0x94] @ '' add manually as needed.'',
      ''# To route specific traffic through this tunnel:'',
      ''#   /ip route add dst-address=X.X.X.X/X gateway='' @ pn])"

section \<open>The peer service\<close>

fun psk_map :: "'k env \<Rightarrow> int \<Rightarrow> wg_peer list \<Rightarrow> (string \<rightharpoonup> string) \<Rightarrow> ('k, 'a, string \<rightharpoonup> string) run_call" where
  "psk_map E ifaceID [] m = ret m"
| "psk_map E ifaceID (p # ps) m = attempt (peer_GetByID ifaceID (wp_id p)) (\<lambda>r. psk_map E ifaceID ps (case r of
     Inl e \<Rightarrow> m
   | Inr (_, _, pskEnc) \<Rightarrow> if pskEnc = [] then m
       else (case DecryptGCM (en_crypto E) (en_key E) pskEnc of Inl e \<Rightarrow> m
         | Inr raw \<Rightarrow> (case parse_key (en_crypto E) raw of Inl e \<Rightarrow> m
           | Inr k \<Rightarrow> m(trim_space (wp_pubkey p) \<mapsto> k)))))"

definition PSKCallback :: "'k env \<Rightarrow> int \<Rightarrow> ('k, 'a, string \<Rightarrow> string option) run_call" where
  "PSKCallback E ifaceID = attempt (ListByInterface ifaceID) (\<lambda>r. case r of
     Inl e \<Rightarrow> ret (\<lambda>pub. None)
   | Inr peers \<Rightarrow> bnd (psk_map E ifaceID peers Map.empty) (\<lambda>m. ret (\<lambda>pub. m (trim_space pub))))"

text \<open>The host part of a peer's address when it lies in the three leading bytes \<open>pre\<close>.\<close>

definition used_host :: "ip \<Rightarrow> string \<Rightarrow> nat option" where
  "used_host pre addr = (case ParseCIDR addr of None \<Rightarrow> None
     | Some (a, n) \<Rightarrow> (case to4 a of None \<Rightarrow> None
       | Some q \<Rightarrow> if take 3 q = pre then Some (q ! 3) else None))"

definition free_host :: "nat list \<Rightarrow> nat option" where
  "free_host used = find (\<lambda>b. b \<notin> set used) [2..<255]"

definition NextClientIP :: "int \<Rightarrow> string \<Rightarrow> ('a database_scheme, string) call" where
  "NextClientIP ifaceID cidr = (case ParseCIDR cidr of
     None \<Rightarrow> fail cidr_error
   | Some (_, n) \<Rightarrow> (case to4 (in_ip n) of
       None \<Rightarrow> fail (Opaque ''need ipv4 cidr'')
     | Some q \<Rightarrow> bnd (ListByInterface ifaceID) (\<lambda>peers.
         case free_host (List.map_filter (\<lambda>p. used_host (take 3 q) (wp_address p)) peers) of
           Some b \<Rightarrow> ret (dotted (take 3 q @ [b]) @ ''/32'')
         | None \<Rightarrow> fail ErrConflict)))"

definition new_peer :: "string \<Rightarrow> string \<Rightarrow> string \<Rightarrow> wg_peer" where
  "new_peer name pubKey ip = \<lparr>wp_id = 0, wp_iface = 0, wp_name = name, wp_pubkey = pubKey, wp_address = ip,
     wp_allowed = ''0.0.0.0/0'', wp_keepalive = 25, wp_handshake = None, wp_rx = 0, wp_tx = 0, wp_created = 0, wp_updated = 0\<rparr>"

definition encrypt :: "'k env \<Rightarrow> string \<Rightarrow> ('k, 'a, string) run_call" where
  "encrypt E s = bnd draw (\<lambda>r. lift (EncryptGCM (en_crypto E) (en_key E) r s))"

text \<open>The keys of a new peer: a given public key, or a fresh pair whose private key is kept encrypted.\<close>

definition peer_keys :: "'k env \<Rightarrow> string \<Rightarrow> ('k, 'a, string \<times> string option) run_call" where
  "peer_keys E pubKey = (if trim_space pubKey \<noteq> [] then ret (pubKey, None)
     else bnd draw (\<lambda>r. bnd (lift (GenerateKeypair (en_crypto E) r)) (\<lambda>(priv, pub).
       bnd (encrypt E priv) (\<lambda>enc. ret (pub, Some enc)))))"

definition push_peers :: "'k env \<Rightarrow> int \<Rightarrow> ('k, 'a, unit) run_call" where
  "push_peers E ifaceID = attempt (ListByInterface ifaceID) (\<lambda>ps.
     attempt (tun_GetByID ifaceID) (\<lambda>r. case r of
       Inl e \<Rightarrow> ret ()
     | Inr (iface, sk) \<Rightarrow> bnd (PSKCallback E ifaceID) (\<lambda>psk.
         ignore (wg_ReloadPeers E ifaceID (wi_mtu iface) (wi_port iface)
           (case DecryptGCM (en_crypto E) (en_key E) sk of Inl e \<Rightarrow> [] | Inr s \<Rightarrow> s)
           (case ps of Inl e \<Rightarrow> [] | Inr l \<Rightarrow> l) (Some psk)))))"

definition peers_Create :: "'k env \<Rightarrow> int \<Rightarrow> string \<Rightarrow> string \<Rightarrow> string \<Rightarrow> ('k, 'a, wg_peer) run_call" where
  "peers_Create E ifaceID name pubKey clientIP = bnd (tun_GetByID ifaceID) (\<lambda>(iface, _).
     bnd (peer_keys E pubKey) (\<lambda>(pub, privEnc).
     bnd (if clientIP = [] then NextClientIP ifaceID (wi_address iface) else ret clientIP) (\<lambda>ip.
     bnd draw (\<lambda>r. bnd (lift (GeneratePSK r)) (\<lambda>psk.
     bnd (encrypt E psk) (\<lambda>pskEnc.
     bnd (peer_Create ifaceID (new_peer name pub ip) privEnc (Some pskEnc)) (\<lambda>peer.
     bnd (gets (\<lambda>w. set_Contains (rw_running w) ifaceID)) (\<lambda>running.
     bnd (if running then push_peers E ifaceID else ret ()) (\<lambda>_. ret peer)))))))))"

definition ClientConfig :: "'k env \<Rightarrow> int \<Rightarrow> int \<Rightarrow> ('k, 'a, string) run_call" where
  "ClientConfig E ifaceID peerID = bnd (tun_GetByID ifaceID) (\<lambda>(iface, _).
     bnd (peer_GetByID ifaceID peerID) (\<lambda>(peer, privEnc, _).
     if privEnc = [] then fail ErrValidation
     else bnd (lift (DecryptGCM (en_crypto E) (en_key E) privEnc)) (\<lambda>priv.
     attempt (peer_GetByID ifaceID peerID) (\<lambda>r.
     ret (wireGuardPeerClientIni priv (wp_address peer) (wi_dns iface) (wi_mtu iface) (wi_pubkey iface)
       (case r of Inl e \<Rightarrow> [] | Inr (_, _, pskEnc) \<Rightarrow> if pskEnc = [] then []
          else (case DecryptGCM (en_crypto E) (en_key E) pskEnc of Inl e \<Rightarrow> [] | Inr s \<Rightarrow> s))
       (wp_allowed peer) (wp_keepalive peer) (wi_port iface))))))"

end
