(* ===== verification/Subscriptions.thy ===== *)
theory Subscriptions
  imports AuditLog SubBody TunnelRepo
begin

text \<open>
  \<open>internal/service/subscription.go\<close> and the use cases of \<open>internal/app/subscriptions_api.go\<close>:
  subscriptions, their periodic refresh, and the nodes entered by hand, which live under the subscription
  named \<open>__manual__\<close>.

  \<^item> What the HTTP client and the reading of the body return for a URL is an argument (\<open>fetch_result\<close>).
  \<^item> The state is the database with the event log, extended by the refresh loops: the cancel functions of
    the map \<open>stopped\<close> by subscription (a loop is named by a number, the next unused one), and the loops
    whose context is not cancelled. A goroutine runs \<open>refresh_once\<close> again and again while its loop is
    among these.
  \<^item> A subscription that was not read back has the status "", here \<open>SubInactive\<close> (\<open>Create\<close> does not
    write it).
\<close>

section \<open>State and the outside\<close>

record sub_world = log_world +
  sv_stopped :: "int \<rightharpoonup> nat"
  sv_live :: "(nat \<times> int) list"
  sv_next :: nat

datatype fetch_result =
    BadRequest go_error
  | RequestFailed go_error
  | ReadFailed go_error
  | Body string

definition ManualSubscriptionName :: string where
  "ManualSubscriptionName = ''__manual__''"

text \<open>\<open>strconv.Quote\<close>, which \<open>%q\<close> applies to a name, for printable text.\<close>

definition go_quote :: "string \<Rightarrow> string" where
  "go_quote s = CHR 0x22 # concat (map (\<lambda>c. if c = CHR 0x22 \<or> c = CHR 0x5C then [CHR 0x5C, c] else [c]) s) @ [CHR 0x22]"

definition new_subscription :: "string \<Rightarrow> string \<Rightarrow> int \<Rightarrow> subscription" where
  "new_subscription name url refresh = \<lparr>sub_id = 0, sub_name = name, sub_url = url, sub_refresh = refresh,
     sub_fetched = None, sub_node_count = 0, sub_status = SubInactive, sub_error = [], sub_created = 0, sub_updated = 0\<rparr>"

section \<open>The manual subscription\<close>

definition EnsureManual :: "('a database_scheme, int) call" where
  "EnsureManual = bnd sub_List (\<lambda>l.
     case find (\<lambda>x. sub_name x = ManualSubscriptionName) l of
       Some x \<Rightarrow> ret (sub_id x)
     | None \<Rightarrow> bnd (sub_Create (new_subscription ManualSubscriptionName [] 86400)) (\<lambda>s. ret (sub_id s)))"

definition syncManualSubscriptionMeta :: "int \<Rightarrow> ('a database_scheme, unit) call" where
  "syncManualSubscriptionMeta manualID =
     bnd (ListNodes manualID) (\<lambda>nodes.
     bnd (sub_GetByID manualID) (\<lambda>sub.
     sub_Update (sub\<lparr>sub_node_count := int (length nodes), sub_status := SubActive, sub_error := []\<rparr>)))"

definition insert_manual :: "int \<Rightarrow> vless_node \<Rightarrow> ('a database_scheme, vless_node) call" where
  "insert_manual manualID node0 =
     (let node = node0\<lparr>vn_sub := manualID\<rparr>; key = trim_space (vn_raw node) in
      bnd (ListNodes manualID) (\<lambda>existing.
      if \<exists>e\<in>set existing. trim_space (vn_raw e) = key then fail ErrConflict else
      bnd (InsertNodes [node]) (\<lambda>ns.
      bnd (syncManualSubscriptionMeta manualID) (\<lambda>_. ret (hd ns)))))"

definition AddManualVlessNode :: "string \<Rightarrow> ('a database_scheme, vless_node) call" where
  "AddManualVlessNode raw0 =
     (let raw = trim_space raw0 in
      if raw = [] then fail ErrValidation else
      bnd EnsureManual (\<lambda>manualID.
      bnd (lift (ParseURI raw)) (\<lambda>node. insert_manual manualID node)))"

definition AddManualNodeStructured :: "build_input \<Rightarrow> ('a database_scheme, vless_node) call" where
  "AddManualNodeStructured input =
     bnd (lift (Build input)) (\<lambda>node.
     bnd EnsureManual (\<lambda>manualID. insert_manual manualID node))"

definition replace_manual :: "int \<Rightarrow> int \<Rightarrow> vless_node \<Rightarrow> ('a database_scheme, vless_node) call" where
  "replace_manual manualID nodeID node0 =
     (let node = node0\<lparr>vn_sub := manualID, vn_id := nodeID\<rparr>; key = trim_space (vn_raw node) in
      bnd (ListNodes manualID) (\<lambda>others.
      if \<exists>e\<in>set others. vn_id e \<noteq> nodeID \<and> trim_space (vn_raw e) = key then fail ErrConflict else
      bnd (UpdateNode node) (\<lambda>_.
      bnd (syncManualSubscriptionMeta manualID) (\<lambda>_. GetNode nodeID))))"

definition UpdateManualVlessNode :: "int \<Rightarrow> string \<Rightarrow> ('a database_scheme, vless_node) call" where
  "UpdateManualVlessNode nodeID raw0 =
     (let raw = trim_space raw0 in
      if raw = [] then fail ErrValidation else
      bnd EnsureManual (\<lambda>manualID.
      bnd (GetNode nodeID) (\<lambda>existing.
      if vn_sub existing \<noteq> manualID then fail ErrNotFound else
      bnd (lift (ParseURI raw)) (\<lambda>parsed. replace_manual manualID nodeID parsed))))"

definition UpdateManualNodeStructured :: "int \<Rightarrow> build_input \<Rightarrow> ('a database_scheme, vless_node) call" where
  "UpdateManualNodeStructured nodeID input =
     bnd EnsureManual (\<lambda>manualID.
     bnd (GetNode nodeID) (\<lambda>existing.
     if vn_sub existing \<noteq> manualID then fail ErrNotFound else
     bnd (lift (Build input)) (\<lambda>node. replace_manual manualID nodeID node)))"

definition DeleteManualVlessNode :: "int \<Rightarrow> ('a database_scheme, unit) call" where
  "DeleteManualVlessNode nodeID =
     bnd EnsureManual (\<lambda>manualID.
     bnd (GetNode nodeID) (\<lambda>existing.
     if vn_sub existing \<noteq> manualID then fail ErrNotFound else
     bnd (FindTunnelIDsUsingNode nodeID) (\<lambda>refs.
     if refs \<noteq> [] then fail ErrNodeInUse else
     bnd (DeleteNode nodeID) (\<lambda>_. syncManualSubscriptionMeta manualID))))"

section \<open>Refresh\<close>

definition mark_failed :: "subscription \<Rightarrow> go_error \<Rightarrow> subscription" where
  "mark_failed sub err = sub\<lparr>sub_error := error_text err,
     sub_status := (if sub_node_count sub = 0 then SubError else sub_status sub)\<rparr>"

definition refresh_failed :: "string \<Rightarrow> subscription \<Rightarrow> go_error \<Rightarrow> ('a, unit) log_call" where
  "refresh_failed what sub err =
     bnd (log_Add ''warn'' (''subscription '' @ go_quote (sub_name sub) @ '' '' @ what @ '' failed: '' @ error_text err)) (\<lambda>_.
     bnd (ignore (sub_Update (mark_failed sub err))) (\<lambda>_. fail err))"

definition parse_lines :: "int \<Rightarrow> string list \<Rightarrow> vless_node list" where
  "parse_lines i lines = List.map_filter
     (\<lambda>l. case ParseURI l of Inl e \<Rightarrow> None | Inr n \<Rightarrow> Some (n\<lparr>vn_sub := i\<rparr>)) lines"

definition replace_nodes :: "int \<Rightarrow> vless_node list \<Rightarrow> ('a database_scheme, unit) call" where
  "replace_nodes i nodes =
     bnd (SnapshotActiveNodesForSubscription i) (\<lambda>bindings.
     bnd (SnapshotTunnelNodesForSubscription i) (\<lambda>tunnelBindings.
     bnd (DeleteNodes i) (\<lambda>_.
     if nodes = [] then ret () else
     bnd (InsertNodes nodes) (\<lambda>new.
     bnd (RemapActiveNodesAfterRefresh i bindings new) (\<lambda>_.
     RestoreTunnelNodesAfterRefresh i tunnelBindings new)))))"

definition FetchAndUpdate :: "(string \<Rightarrow> fetch_result) \<Rightarrow> int \<Rightarrow> ('a, unit) log_call" where
  "FetchAndUpdate http i =
     bnd (sub_GetByID i) (\<lambda>sub.
     if sub_name sub = ManualSubscriptionName then ret ()
     else if trim_space (sub_url sub) = [] then fail ErrValidation
     else case http (sub_url sub) of
       BadRequest err \<Rightarrow> fail err
     | RequestFailed err \<Rightarrow> refresh_failed ''fetch'' sub err
     | ReadFailed err \<Rightarrow> fail err
     | Body body \<Rightarrow>
         (case decodeSubscriptionBody (take 10485760 body) of
            Inl err \<Rightarrow> refresh_failed ''decode'' sub err
          | Inr lines \<Rightarrow>
              (let nodes = parse_lines i lines in
               bnd (replace_nodes i nodes) (\<lambda>_.
               bnd (gets db_now) (\<lambda>now.
               sub_Update (sub\<lparr>sub_fetched := Some now, sub_node_count := int (length nodes),
                               sub_status := SubActive, sub_error := []\<rparr>))))))"

text \<open>One round of the loop; the result is the number of seconds to the next one.\<close>

definition refresh_once :: "(string \<Rightarrow> fetch_result) \<Rightarrow> int \<Rightarrow> ('a, int) log_call" where
  "refresh_once http i =
     bnd (ignore (FetchAndUpdate http i)) (\<lambda>_.
     attempt (sub_GetByID i) (\<lambda>r. ret (case r of Inl e \<Rightarrow> 3600
       | Inr sub \<Rightarrow> if sub_refresh sub > 0 then sub_refresh sub else 3600)))"

section \<open>Refresh loops\<close>

definition cancel_loop :: "int \<Rightarrow> 'a sub_world_scheme \<Rightarrow> 'a sub_world_scheme" where
  "cancel_loop i w = (case sv_stopped w i of
     None \<Rightarrow> w
   | Some h \<Rightarrow> w\<lparr>sv_live := filter (\<lambda>(k, j). k \<noteq> h) (sv_live w), sv_stopped := (sv_stopped w)(i := None)\<rparr>)"

definition start_loop :: "int \<Rightarrow> 'a sub_world_scheme \<Rightarrow> 'a sub_world_scheme" where
  "start_loop i w = (let v = cancel_loop i w in
     v\<lparr>sv_stopped := (sv_stopped v)(i \<mapsto> sv_next v), sv_live := (sv_next v, i) # sv_live v, sv_next := Suc (sv_next v)\<rparr>)"

definition StartRefreshLoop :: "int \<Rightarrow> ('a sub_world_scheme, unit) call" where
  "StartRefreshLoop i = upd (start_loop i)"

definition StopRefreshLoop :: "int \<Rightarrow> ('a sub_world_scheme, unit) call" where
  "StopRefreshLoop i = upd (cancel_loop i)"

definition subs_Add :: "(string \<Rightarrow> fetch_result) \<Rightarrow> string \<Rightarrow> string \<Rightarrow> int \<Rightarrow> ('a sub_world_scheme, subscription) call" where
  "subs_Add http name url refreshSec =
     (let sec = (if refreshSec \<le> 0 then 3600 else refreshSec) in
      bnd (sub_Create (new_subscription name url sec)) (\<lambda>sub.
      attempt (FetchAndUpdate http (sub_id sub)) (\<lambda>r.
      bnd (case r of Inr _ \<Rightarrow> ret ()
           | Inl err \<Rightarrow> log_Add ''warning'' (''subscription '' @ name @ '' initial fetch: '' @ error_text err)) (\<lambda>_.
      bnd (StartRefreshLoop (sub_id sub)) (\<lambda>_. ret sub)))))"

definition subs_Delete :: "int \<Rightarrow> ('a sub_world_scheme, unit) call" where
  "subs_Delete i = bnd (StopRefreshLoop i) (\<lambda>_. sub_Delete i)"

section \<open>Export and import\<close>

text \<open>The exported document as a value (\<open>MarshalIndent\<close> adds white space only); without subscriptions the nil
  slice is null. The imported text is a \<open>raw_json\<close>; of two members \<open>subscriptions\<close> the last counts.\<close>

definition export_item :: "subscription \<Rightarrow> json" where
  "export_item s = JObj [(''name'', JStr (utf8_fix (sub_name s))), (''url'', JStr (utf8_fix (sub_url s))),
     (''refresh_interval'', JInt (sub_refresh s))]"

definition export_doc :: "subscription list \<Rightarrow> json" where
  "export_doc subs = (let p = filter (\<lambda>s. sub_name s \<noteq> ManualSubscriptionName) subs
     in JObj [(''subscriptions'', if p = [] then JNull else JArr (map export_item p))])"

definition ExportMinimal :: "('a database_scheme, json) call" where
  "ExportMinimal = bnd sub_List (\<lambda>subs. ret (export_doc subs))"

fun as_int :: "json \<Rightarrow> int option" where
  "as_int (JNum t) = (case atoi t of None \<Rightarrow> None | Some n \<Rightarrow> if int64_range n then Some n else None)"
| "as_int _ = None"

definition field_int :: "string \<Rightarrow> (string \<times> json) list \<Rightarrow> int option" where
  "field_int f ms = field_with as_int 0 (filter (\<lambda>v. v \<noteq> JNull) (members_of f ms))"

fun import_item :: "json \<Rightarrow> (string \<times> string \<times> int) option" where
  "import_item (JObj ms) =
     (case field_string ''name'' ms of None \<Rightarrow> None | Some n \<Rightarrow>
      case field_string ''url'' ms of None \<Rightarrow> None | Some u \<Rightarrow>
      case field_int ''refresh_interval'' ms of None \<Rightarrow> None | Some r \<Rightarrow> Some (n, u, r))"
| "import_item JNull = Some ([], [], 0)"
| "import_item _ = None"

fun all_some :: "'b option list \<Rightarrow> 'b list option" where
  "all_some [] = Some []"
| "all_some (None # xs) = None"
| "all_some (Some x # xs) = map_option ((#) x) (all_some xs)"

fun import_items :: "json \<Rightarrow> (string \<times> string \<times> int) list option" where
  "import_items (JArr vs) = all_some (map import_item vs)"
| "import_items JNull = Some []"
| "import_items _ = None"

definition import_payload :: "raw_json \<Rightarrow> (string \<times> string \<times> int) list option" where
  "import_payload b = (if b = RawEmpty then None else
     case struct_members b of None \<Rightarrow> None
     | Some ms \<Rightarrow> field_with import_items [] (members_of ''subscriptions'' ms))"

definition ImportMinimal :: "(string \<Rightarrow> fetch_result) \<Rightarrow> raw_json \<Rightarrow> ('a sub_world_scheme, unit) call" where
  "ImportMinimal http b = (case import_payload b of
     None \<Rightarrow> fail (Opaque ''json: cannot unmarshal'')
   | Some xs \<Rightarrow> for_each (\<lambda>(name, url, sec). bnd (subs_Add http name url sec) (\<lambda>_. ret ())) xs)"

section \<open>Nodes for the API\<close>

definition decodedSpecsForNode :: "vless_node \<Rightarrow> tspec option \<times> sspec option" where
  "decodedSpecsForNode n =
     ((case transport_Resolve (vn_network n) of Inl _ \<Rightarrow> None
       | Inr tr \<Rightarrow> (case tr_DecodeSpec tr (vn_transport n) of Inl _ \<Rightarrow> None | Inr s \<Rightarrow> Some s)),
      (case security_Resolve (vn_security n) of Inl _ \<Rightarrow> None
       | Inr sec \<Rightarrow> (case sec_DecodeSpec sec (vn_sec_config n) of Inl _ \<Rightarrow> None | Inr s \<Rightarrow> Some s)))"

record node_with_health =
  nw_node :: vless_node
  nw_health :: "(bool \<times> int) option"
  nw_transport :: "tspec option"
  nw_security :: "sspec option"

text \<open>\<open>health\<close> is the monitor's lookup (none when there is no monitor).\<close>

definition enrichWithHealth :: "(int \<rightharpoonup> bool \<times> int) \<Rightarrow> vless_node list \<Rightarrow> node_with_health list" where
  "enrichWithHealth health nodes = map (\<lambda>n.
     (let (t, s) = decodedSpecsForNode n in
      \<lparr>nw_node = n, nw_health = health (vn_id n), nw_transport = t, nw_security = s\<rparr>)) nodes"

definition api_ListNodes :: "(int \<rightharpoonup> bool \<times> int) \<Rightarrow> int \<Rightarrow> ('a database_scheme, node_with_health list) call" where
  "api_ListNodes health i = bnd (ListNodes i) (\<lambda>ns. ret (enrichWithHealth health ns))"

end
