(* ===== verification/Tunnels.thy ===== *)
theory Tunnels
  imports Peers Subscriptions
begin

text \<open>
  The tunnel service, \<open>service/tunnel.go\<close>: creating a tunnel, bringing it up and taking it down on the host, and
  reloading its peers and nodes while it runs; with \<open>app/tunnels.go\<close> and \<open>app/tunnel_merge.go\<close> (theory Domain),
  and the use cases of \<open>app/tunnels_api.go\<close>. The gauge of running tunnels (telemetry) and the log lines are left
  out.
\<close>

section \<open>Helpers\<close>

definition tun_name :: "int \<Rightarrow> string" where
  "tun_name i = ''tun-wg'' @ itoa i"

record runtime =
  rt_tun :: string
  rt_port :: int
  rt_mark :: int
  rt_tbl :: int

definition computeRuntime :: "int \<Rightarrow> runtime" where
  "computeRuntime i = \<lparr>rt_tun = tun_name i, rt_port = 13000 + i, rt_mark = 4096 + i, rt_tbl = 100 + i\<rparr>"

definition IsRunning :: "int \<Rightarrow> ('k, 'a, bool) run_call" where
  "IsRunning i = gets (\<lambda>w. set_Contains (rw_running w) i)"

text \<open>The node its stored link describes, or the stored node when the link does not parse.\<close>

definition reparsed :: "vless_node \<Rightarrow> vless_node" where
  "reparsed n = (case ParseURI (vn_raw n) of Inl e \<Rightarrow> n | Inr p \<Rightarrow> p)"

definition strategy_of :: "wg_interface \<Rightarrow> string" where
  "strategy_of iface = (if wi_strategy iface = [] then BalancingRoundRobin else wi_strategy iface)"

definition gateway_or_empty :: "string \<Rightarrow> string" where
  "gateway_or_empty addr = (case WgGatewayHost addr of Inl e \<Rightarrow> [] | Inr g \<Rightarrow> g)"

section \<open>Creation\<close>

definition new_iface :: "string \<Rightarrow> int \<Rightarrow> string \<Rightarrow> string \<Rightarrow> string \<Rightarrow> int \<Rightarrow> int \<Rightarrow> int option \<Rightarrow> int option \<Rightarrow> string \<Rightarrow> wg_interface" where
  "new_iface name listen pub wgAddr dns mtu mss subID nodeID strategy =
     \<lparr>wi_id = 0, wi_name = name, wi_tun = [], wi_pubkey = pub, wi_port = listen, wi_address = wgAddr,
      wi_dns = trim_space dns, wi_mtu = (if mtu \<le> 0 then 1420 else mtu), wi_mss = (if mss \<le> 0 then 1280 else mss),
      wi_sub = subID, wi_node = nodeID, wi_xray_port = 0, wi_fwmark = 0, wi_status = WgStopped, wi_error = [],
      wi_uptime = None, wi_strategy = (if strategy = [] then BalancingRoundRobin else strategy),
      wi_created = 0, wi_updated = 0\<rparr>"

definition fill_iface :: "wg_interface \<Rightarrow> string \<Rightarrow> wg_interface" where
  "fill_iface iface wgAddr = (let i = wi_id iface; rt = computeRuntime i in
     iface\<lparr>wi_address := (if trim_space wgAddr = [] then ''10.100.'' @ itoa i @ ''.1/24'' else wi_address iface),
           wi_dns := (if trim_space (wi_dns iface) = [] then ''10.100.'' @ itoa i @ ''.1'' else wi_dns iface),
           wi_tun := rt_tun rt, wi_xray_port := rt_port rt, wi_fwmark := rt_mark rt\<rparr>)"

definition tunnels_Create :: "'k env \<Rightarrow> string \<Rightarrow> int \<Rightarrow> string \<Rightarrow> string \<Rightarrow> int \<Rightarrow> int \<Rightarrow> int option \<Rightarrow> int option \<Rightarrow> int list \<Rightarrow> string
    \<Rightarrow> ('k, 'a, wg_interface) run_call" where
  "tunnels_Create E name listen wgAddr dns mtu mss subID nodeID nodeIDs strategy =
     bnd draw (\<lambda>r. bnd (lift (GenerateKeypair (en_crypto E) r)) (\<lambda>(priv, pub).
     bnd (encrypt E priv) (\<lambda>enc.
     bnd (tun_Create (new_iface name listen pub wgAddr dns mtu mss subID nodeID strategy) enc) (\<lambda>created.
     let iface = fill_iface created wgAddr; i = wi_id iface;
         ids = (if nodeIDs = [] then (case nodeID of None \<Rightarrow> [] | Some n \<Rightarrow> [n]) else nodeIDs) in
     bnd (ignore (tun_Update iface)) (\<lambda>_.
     bnd (ignore (UpdateRuntimeFields i (wi_tun iface) (wi_xray_port iface) (wi_fwmark iface))) (\<lambda>_.
     bnd (if ids \<noteq> [] then ignore (SetNodes i ids) else ret ()) (\<lambda>_.
     bnd (log_Add ''info'' (''tunnel created: '' @ name @ '' ('' @ itoa i @ '')'')) (\<lambda>_.
     ret iface))))))))"

section \<open>Up and down\<close>

text \<open>\<open>undo n\<close> takes back the first \<open>n\<close> steps of a start: the device, the policy route, the Xray instance, the
  TPROXY chain, the forward rules.\<close>

definition undo :: "'k env \<Rightarrow> int \<Rightarrow> string \<Rightarrow> nat \<Rightarrow> ('k, 'a, unit) run_call" where
  "undo E i tun n = (let H = en_host E; rt = computeRuntime i in
     bnd (if n \<ge> 5 then ignore (on_host (TeardownForwardRules H tun)) else ret ()) (\<lambda>_.
     bnd (if n \<ge> 4 then ignore (on_host (TeardownTProxy H i tun (rt_mark rt))) else ret ()) (\<lambda>_.
     bnd (if n \<ge> 3 then ignore (xray_Stop E i) else ret ()) (\<lambda>_.
     bnd (if n \<ge> 2 then ignore (on_host (TeardownReturnRoute H (rt_mark rt) (rt_tbl rt))) else ret ()) (\<lambda>_.
     if n \<ge> 1 then wg_Destroy E i else ret ())))))"

text \<open>A step of a start: when it fails the steps before it are undone, the status is stored, the error returned.\<close>

definition step :: "'k env \<Rightarrow> int \<Rightarrow> string \<Rightarrow> nat \<Rightarrow> ('k, 'a, unit) run_call \<Rightarrow> ('k, 'a, unit) run_call" where
  "step E i tun n m = attempt m (\<lambda>r. case r of
     Inl e \<Rightarrow> bnd (undo E i tun n) (\<lambda>_. bnd (ignore (UpdateStatus i WgError (error_text e))) (\<lambda>_. fail e))
   | Inr _ \<Rightarrow> ret ())"

definition restore_single :: "wg_interface \<Rightarrow> ('k, 'a, wg_interface) run_call" where
  "restore_single iface = (case (wi_node iface, wi_sub iface) of
     (None, Some s) \<Rightarrow> attempt (ListNodes s) (\<lambda>r. case r of
        Inr [n] \<Rightarrow> (let iface' = iface\<lparr>wi_node := Some (vn_id n)\<rparr> in bnd (ignore (tun_Update iface')) (\<lambda>_. ret iface'))
      | _ \<Rightarrow> ret iface)
   | _ \<Rightarrow> ret iface)"

definition start_nodes :: "wg_interface \<Rightarrow> int \<Rightarrow> ('k, 'a, wg_interface \<times> vless_node list) run_call" where
  "start_nodes iface i = attempt (tun_ListNodes i) (\<lambda>r. let ns = (case r of Inl e \<Rightarrow> [] | Inr l \<Rightarrow> l) in
     if ns \<noteq> [] then ret (iface, map reparsed ns)
     else bnd (restore_single iface) (\<lambda>iface'. case wi_node iface' of
       None \<Rightarrow> fail (Opaque ''active node required'')
     | Some nid \<Rightarrow> bnd (GetNode nid) (\<lambda>n. ret (iface', [reparsed n]))))"

text \<open>The steps on the host, for the stored tunnel, its nodes, its peers and its decrypted key.\<close>

definition bring_up :: "'k env \<Rightarrow> int \<Rightarrow> wg_interface \<Rightarrow> vless_node list \<Rightarrow> wg_peer list \<Rightarrow> (string \<Rightarrow> string option) \<Rightarrow> string \<Rightarrow> string
    \<Rightarrow> ('k, 'a, unit) run_call" where
  "bring_up E i iface nodes peers psk priv subnet = (let H = en_host E; rt = computeRuntime i; tun = rt_tun rt;
       gw = gateway_or_empty (wi_address iface) in
     bnd (step E i tun 0 (wg_Create E i (wi_mtu iface) (wi_port iface) priv peers (Some psk) tun)) (\<lambda>_.
     bnd (step E i tun 1 (on_host (AssignTUN H tun (wi_address iface)))) (\<lambda>_.
     bnd (on_host (PrepareTunForTransparentProxy H tun)) (\<lambda>_.
     bnd (step E i tun 1 (on_host (SetupReturnRoute H (rt_mark rt) (rt_tbl rt)))) (\<lambda>_.
     bnd (step E i tun 2 (xray_Start E i (rt_port rt) (rt_mark rt) gw nodes (strategy_of iface))) (\<lambda>_.
     bnd (step E i tun 3 (on_host (SetupTProxy H i tun (rt_port rt) (rt_mark rt) gw (vn_flow (hd nodes)) (wi_mss iface)))) (\<lambda>_.
     bnd (step E i tun 4 (on_host (SetupForwardRules H tun))) (\<lambda>_.
     step E i tun 5 (on_host (SetupNATMasquerade H tun subnet))))))))))"

definition stopInternal :: "'k env \<Rightarrow> int \<Rightarrow> string \<Rightarrow> string \<Rightarrow> ('k, 'a, unit) run_call" where
  "stopInternal E i tun subnet = (let H = en_host E; rt = computeRuntime i in
     bnd (ignore (on_host (TeardownForwardRules H tun))) (\<lambda>_.
     bnd (ignore (on_host (TeardownNATMasquerade H tun subnet))) (\<lambda>_.
     bnd (ignore (on_host (TeardownTProxy H i tun (rt_mark rt)))) (\<lambda>_.
     bnd (ignore (on_host (TeardownReturnRoute H (rt_mark rt) (rt_tbl rt)))) (\<lambda>_.
     bnd (wg_Destroy E i) (\<lambda>_.
     bnd (ignore (xray_Stop E i)) (\<lambda>_.
     upd (\<lambda>w. w\<lparr>rw_running := set_Clear i (rw_running w), rw_tracking := set_Clear i (rw_tracking w)\<rparr>))))))))"

definition started :: "int \<Rightarrow> wg_interface \<Rightarrow> int \<Rightarrow> wg_interface" where
  "started i iface now = (let rt = computeRuntime i in
     iface\<lparr>wi_status := WgRunning, wi_error := [], wi_uptime := Some now, wi_tun := rt_tun rt,
           wi_xray_port := rt_port rt, wi_fwmark := rt_mark rt\<rparr>)"

text \<open>The last steps: the running status is stored; if that fails everything is taken down again.\<close>

definition finish_start :: "'k env \<Rightarrow> int \<Rightarrow> wg_interface \<Rightarrow> string \<Rightarrow> ('k, 'a, unit) run_call" where
  "finish_start E i iface subnet = bnd (gets db_now) (\<lambda>now.
     attempt (tun_Update (started i iface now)) (\<lambda>r. case r of
       Inl e \<Rightarrow> bnd (stopInternal E i (rt_tun (computeRuntime i)) subnet) (\<lambda>_. fail e)
     | Inr _ \<Rightarrow>
       bnd (upd (\<lambda>w. w\<lparr>rw_running := set_Mark i (rw_running w), rw_tracking := set_Mark i (rw_tracking w)\<rparr>)) (\<lambda>_.
       log_Add ''info'' (''tunnel started: '' @ wi_name iface @ '' ('' @ itoa i @ '')''))))"

definition start_with :: "'k env \<Rightarrow> int \<Rightarrow> wg_interface \<Rightarrow> vless_node list \<Rightarrow> string \<Rightarrow> ('k, 'a, unit) run_call" where
  "start_with E i iface nodes privEnc =
     bnd (lift (DecryptGCM (en_crypto E) (en_key E) privEnc)) (\<lambda>priv.
     bnd (ListByInterface i) (\<lambda>peers.
     bnd (PSKCallback E i) (\<lambda>psk.
     case ClientSubnetCIDR (wi_address iface) of
       Inl e \<Rightarrow> fail (Wrap ''invalid wg address'' e)
     | Inr subnet \<Rightarrow>
       bnd (bring_up E i iface nodes peers psk (trim_space priv) subnet) (\<lambda>_. finish_start E i iface subnet))))"

definition Start :: "'k env \<Rightarrow> int \<Rightarrow> ('k, 'a, unit) run_call" where
  "Start E i = bnd (IsRunning i) (\<lambda>running. if running then ret ()
     else bnd (tun_GetByID i) (\<lambda>(iface0, privEnc).
     bnd (start_nodes iface0 i) (\<lambda>(iface, nodes). start_with E i iface nodes privEnc)))"

definition teardownRuntime :: "'k env \<Rightarrow> int \<Rightarrow> wg_interface \<Rightarrow> ('k, 'a, unit) run_call" where
  "teardownRuntime E i iface = stopInternal E i (if wi_tun iface = [] then tun_name i else wi_tun iface)
     (case ClientSubnetCIDR (wi_address iface) of Inl e \<Rightarrow> [] | Inr s \<Rightarrow> s)"

definition Stop :: "'k env \<Rightarrow> int \<Rightarrow> ('k, 'a, unit) run_call" where
  "Stop E i = bnd (tun_GetByID i) (\<lambda>(iface, _).
     bnd (teardownRuntime E i iface) (\<lambda>_.
     bnd (ignore (tun_Update (iface\<lparr>wi_status := WgStopped, wi_error := [], wi_uptime := None\<rparr>))) (\<lambda>_.
     bnd (ignore (UpdateStatus i WgStopped [])) (\<lambda>_.
     log_Add ''info'' (''tunnel stopped ('' @ itoa i @ '')'')))))"

fun restore_each :: "'k env \<Rightarrow> int list \<Rightarrow> ('k, 'a, unit) run_call" where
  "restore_each E [] = ret ()"
| "restore_each E (i # is) = bnd (attempt (Start E i) (\<lambda>r. case r of
     Inl e \<Rightarrow> log_Add ''error'' (''restore tunnel '' @ itoa i @ '': '' @ error_text e)
   | Inr _ \<Rightarrow> ret ())) (\<lambda>_. restore_each E is)"

definition RestoreRunning :: "'k env \<Rightarrow> ('k, 'a, unit) run_call" where
  "RestoreRunning E = attempt ListRunningIDs (\<lambda>r. case r of Inl e \<Rightarrow> ret () | Inr ids \<Rightarrow> restore_each E ids)"

definition ShutdownAll :: "'k env \<Rightarrow> ('k, 'a, unit) run_call" where
  "ShutdownAll E = bnd (gets (\<lambda>w. fst (set_Drain (rw_running w)))) (\<lambda>ids.
     bnd (upd (\<lambda>w. w\<lparr>rw_running := snd (set_Drain (rw_running w))\<rparr>)) (\<lambda>_.
     for_each (\<lambda>i. attempt (tun_GetByID i) (\<lambda>r. case r of
       Inl e \<Rightarrow> ret () | Inr (iface, _) \<Rightarrow> teardownRuntime E i iface)) ids))"

section \<open>Changes while a tunnel runs\<close>

definition ReloadNodes :: "'k env \<Rightarrow> int \<Rightarrow> ('k, 'a, unit) run_call" where
  "ReloadNodes E i = bnd (IsRunning i) (\<lambda>running. if \<not> running then ret ()
     else bnd (tun_GetByID i) (\<lambda>(iface, _).
     attempt (tun_ListNodes i) (\<lambda>r. let ns = (case r of Inl e \<Rightarrow> [] | Inr l \<Rightarrow> l); rt = computeRuntime i in
     if ns = [] then fail (Opaque (''ReloadNodes: no nodes assigned to tunnel '' @ itoa i))
     else xray_Start E i (rt_port rt) (rt_mark rt) (gateway_or_empty (wi_address iface)) (map reparsed ns) (strategy_of iface))))"

definition ReloadPeers :: "'k env \<Rightarrow> int \<Rightarrow> ('k, 'a, unit) run_call" where
  "ReloadPeers E i = bnd (IsRunning i) (\<lambda>running. if \<not> running then ret ()
     else bnd (tun_GetByID i) (\<lambda>(iface, privEnc).
     bnd (lift (DecryptGCM (en_crypto E) (en_key E) privEnc)) (\<lambda>sk.
     bnd (ListByInterface i) (\<lambda>peers.
     bnd (PSKCallback E i) (\<lambda>psk.
     wg_ReloadPeers E i (wi_mtu iface) (wi_port iface) (trim_space sk) peers (Some psk))))))"

section \<open>Use cases (app/tunnels.go, app/tunnels_api.go)\<close>

definition PrepareTunnelPUT :: "int \<Rightarrow> wg_interface \<Rightarrow> wg_interface \<Rightarrow> ('k, 'a, wg_interface) run_call" where
  "PrepareTunnelPUT i existing incoming = bnd (IsRunning i) (\<lambda>running.
     if running \<and> wi_name incoming \<noteq> [] \<and> wi_name incoming \<noteq> wi_name existing
     then fail (NewValidationError ''cannot change tunnel name while running'')
     else let inc = PreserveTunnelLifecycleOnMetadataUpdate existing (PreserveTunnelUpdateBindings existing incoming) in
       if wi_sub existing \<noteq> None \<and> wi_sub inc \<noteq> None \<and> wi_sub existing \<noteq> wi_sub inc \<and> wi_node inc = None
       then bnd (ClearActiveNodeID i) (\<lambda>_. ret inc) else ret inc)"

definition UpdateTunnel :: "int \<Rightarrow> wg_interface \<Rightarrow> ('k, 'a, wg_interface) run_call" where
  "UpdateTunnel i incoming = bnd (tun_GetByID i) (\<lambda>(existing, _).
     bnd (PrepareTunnelPUT i existing incoming) (\<lambda>inc.
     let inc' = (if trim_space (wi_dns inc) = [] then (case WgGatewayHost (wi_address inc) of Inl e \<Rightarrow> inc | Inr gw \<Rightarrow> inc\<lparr>wi_dns := gw\<rparr>) else inc) in
     bnd (tun_Update inc') (\<lambda>_. ret inc')))"

record create_tunnel =
  ct_name :: string
  ct_port :: int
  ct_address :: string
  ct_dns :: string
  ct_mtu :: int
  ct_mss :: int
  ct_sub :: "int option"
  ct_node :: "int option"
  ct_nodes :: "int list"
  ct_strategy :: string
  ct_uri :: string

text \<open>The id of the last node of the manual subscription with this link, 0 when there is none.\<close>

definition last_with_uri :: "string \<Rightarrow> vless_node list \<Rightarrow> int" where
  "last_with_uri raw ns = (case find (\<lambda>n. vn_raw n = raw) (rev ns) of None \<Rightarrow> 0 | Some n \<Rightarrow> vn_id n)"

definition import_uri :: "int \<Rightarrow> string \<Rightarrow> ('k, 'a, int) run_call" where
  "import_uri manualSubID uri = bnd (lift (ParseURI (trim_space uri))) (\<lambda>node.
     bnd (InsertNodes [node\<lparr>vn_sub := manualSubID\<rparr>]) (\<lambda>_.
     attempt (ListNodes manualSubID) (\<lambda>r. ret (last_with_uri (vn_raw node) (case r of Inl e \<Rightarrow> [] | Inr l \<Rightarrow> l)))))"

definition CreateTunnel :: "'k env \<Rightarrow> int \<Rightarrow> create_tunnel \<Rightarrow> ('k, 'a, wg_interface) run_call" where
  "CreateTunnel E manualSubID inp =
     bnd (if trim_space (ct_uri inp) \<noteq> [] then bnd (import_uri manualSubID (ct_uri inp)) (\<lambda>nid. ret (Some manualSubID, Some nid))
          else ret (ct_sub inp, ct_node inp)) (\<lambda>(subID, nodeID).
     bnd (if ct_port inp = 0 then attempt tun_List (\<lambda>r. ret (51820 + int (length (case r of Inl e \<Rightarrow> [] | Inr l \<Rightarrow> l))))
          else ret (ct_port inp)) (\<lambda>port.
     tunnels_Create E (ct_name inp) port (ct_address inp) (ct_dns inp) (ct_mtu inp) (ct_mss inp) subID nodeID (ct_nodes inp) (ct_strategy inp)))"

record tunnel_node =
  tno_node :: vless_node
  tno_pos :: nat
  tno_health :: "(bool \<times> int) option"

definition GetTunnelNodes :: "'k env \<Rightarrow> int \<Rightarrow> ('k, 'a, string \<times> tunnel_node list) run_call" where
  "GetTunnelNodes E i = bnd (tun_GetByID i) (\<lambda>(iface, _).
     bnd (tun_ListNodes i) (\<lambda>nodes.
     bnd (xray_NodeHealth E i) (\<lambda>h.
     let byTag = (case h of None \<Rightarrow> Map.empty | Some es \<Rightarrow> map_of (rev (map (\<lambda>e. (nh_tag e, (nh_alive e, nh_delay e))) es))) in
     ret (strategy_of iface, map (\<lambda>(k, n). \<lparr>tno_node = n, tno_pos = k, tno_health = byTag (''vless-out-'' @ itoa (int k + 1))\<rparr>)
        (enumerate 0 nodes)))))"

definition SetTunnelNodes :: "'k env \<Rightarrow> int \<Rightarrow> int list \<Rightarrow> string \<Rightarrow> ('k, 'a, unit) run_call" where
  "SetTunnelNodes E i nodeIDs strategy =
     bnd (for_each (\<lambda>nid. attempt (GetNode nid) (\<lambda>r. case r of
        Inl e \<Rightarrow> fail (Wrap (''node '' @ itoa nid @ '' not found'') e) | Inr _ \<Rightarrow> ret ())) nodeIDs) (\<lambda>_.
     bnd (SetNodes i nodeIDs) (\<lambda>_.
     bnd (if strategy = [] then ret ()
          else bnd (tun_GetByID i) (\<lambda>(iface, _). tun_Update (iface\<lparr>wi_strategy := strategy\<rparr>))) (\<lambda>_.
     ReloadNodes E i)))"

text \<open>The 20 events of the summary: Go reverses a list that is already newest first.\<close>

definition summary_events :: "event list \<Rightarrow> event list" where
  "summary_events ev = (let n = min 20 (length ev) in map (\<lambda>k. ev ! (length ev - 1 - k)) [0..<n])"

definition StatsSummary :: "('k, 'a, (int \<times> int \<times> int \<times> int) \<times> (int \<rightharpoonup> int \<times> int) option \<times> event list) run_call" where
  "StatsSummary = bnd DBCounts (\<lambda>counts. bnd log_List (\<lambda>ev.
     attempt QueryLatestInterfaceRates (\<lambda>rt. ret (counts, (case rt of Inl e \<Rightarrow> None | Inr m \<Rightarrow> Some m), summary_events ev))))"

definition DeleteTunnel :: "'k env \<Rightarrow> int \<Rightarrow> ('k, 'a, unit) run_call" where
  "DeleteTunnel E i = bnd (ignore (Stop E i)) (\<lambda>_. tun_Delete i)"

text \<open>Times of snapshots are in seconds.\<close>

definition TunnelStats :: "int \<Rightarrow> string \<Rightarrow> ('k, 'a, stat_snapshot list) run_call" where
  "TunnelStats i window = (let dur = (if window = ''6h'' then 6 * 3600 else if window = ''24h'' then 24 * 3600 else 3600) in
     bnd (gets db_now) (\<lambda>now. QueryInterfaceWindow i (now - dur) now))"

definition PeerClientConfig :: "'k env \<Rightarrow> (string \<Rightarrow> string) \<Rightarrow> int \<Rightarrow> int \<Rightarrow> ('k, 'a, string) run_call" where
  "PeerClientConfig E endpoint i p = bnd (ClientConfig E i p) (\<lambda>text.
     attempt (setting_Get ''server_host'') (\<lambda>sh.
     ret (replace_all text WgPeerConfigEndpointHostPlaceholder (endpoint (case sh of Inl e \<Rightarrow> [] | Inr h \<Rightarrow> h)))))"

definition PeerMikrotikScript :: "'k env \<Rightarrow> string \<Rightarrow> (string \<Rightarrow> string) \<Rightarrow> int \<Rightarrow> int \<Rightarrow> ('k, 'a, string) run_call" where
  "PeerMikrotikScript E ts endpoint i p = bnd (tun_GetByID i) (\<lambda>(iface, _).
     bnd (peer_GetByID i p) (\<lambda>(peer, privEnc, pskEnc).
     attempt (setting_Get ''server_host'') (\<lambda>sh.
     bnd (lift (DecryptGCM (en_crypto E) (en_key E) privEnc)) (\<lambda>priv.
     bnd (lift (DecryptGCM (en_crypto E) (en_key E) pskEnc)) (\<lambda>psk.
     ret (BuildMikrotikCommands ts iface peer (endpoint (case sh of Inl e \<Rightarrow> [] | Inr h \<Rightarrow> h)) (trim_space priv) (trim_space psk)))))))"

definition UpdateTunnelPeer :: "wg_peer \<Rightarrow> ('k, 'a, unit) run_call" where
  "UpdateTunnelPeer p = peer_Update p None None"

definition DeleteTunnelPeer :: "'k env \<Rightarrow> int \<Rightarrow> int \<Rightarrow> ('k, 'a, unit) run_call" where
  "DeleteTunnelPeer E i p = bnd (peer_Delete i p) (\<lambda>_. ReloadPeers E i)"

definition ParseID64 :: "string \<Rightarrow> int option" where
  "ParseID64 raw = atoi raw"

end
