(* ===== verification/TunnelFrame.thy ===== *)
theory TunnelFrame
  imports HostRoutes Tunnels
begin

text \<open>
  Frame facts for the tunnel service: what the repositories and the event log do leaves the host and the maps of the
  managers alone, and what runs on the host leaves the database alone.
\<close>

section \<open>The repositories keep the rest of the world\<close>

definition keeps_more :: "('a database_scheme, 'r) call \<Rightarrow> bool" where
  "keeps_more m \<longleftrightarrow> (\<forall>x. preserves (\<lambda>d. database.more d = x) m)"

named_theorems frame_intro "rules for calls that keep the rest of the world"

lemma clock_free_more: "clock_free (\<lambda>d. database.more d = x)"
  by (simp add: clock_free_def)

lemma keeps_query [frame_intro]: "keeps_more (query f)"
  unfolding keeps_more_def by (intro allI preserves_query clock_free_more)

lemma keeps_exec: "(\<And>d. database.more (snd (f d)) = database.more d) \<Longrightarrow> keeps_more (exec f)"
  unfolding keeps_more_def by (intro allI preserves_exec clock_free_more) simp

lemma keeps_tx [frame_intro]: "keeps_more m \<Longrightarrow> keeps_more (tx m)"
  unfolding keeps_more_def by (intro allI preserves_tx clock_free_more) blast

lemma keeps_bnd [frame_intro]: "keeps_more m \<Longrightarrow> (\<And>x. keeps_more (f x)) \<Longrightarrow> keeps_more (bnd m f)"
  unfolding keeps_more_def by (blast intro: preserves_bnd)

lemma keeps_affected [frame_intro]: "keeps_more m \<Longrightarrow> keeps_more (affected m)"
  unfolding keeps_more_def by (blast intro: preserves_affected)

lemma keeps_simple [frame_intro]: "keeps_more (ret x)" "keeps_more (fail e)"
  unfolding keeps_more_def by (blast intro: preserves_ret preserves_fail)+

lemma keeps_if [frame_intro]: "keeps_more m \<Longrightarrow> keeps_more n \<Longrightarrow> keeps_more (if b then m else n)"
  by simp

lemma keeps_option [frame_intro]: "keeps_more m \<Longrightarrow> (\<And>x. keeps_more (f x)) \<Longrightarrow> keeps_more (case v of None \<Rightarrow> m | Some x \<Rightarrow> f x)"
  by (simp split: option.split)

lemma keeps_tunnel_repo:
  "keeps_more (tun_GetByID i)" "keeps_more (tun_List)" "keeps_more (tun_Update w)" "keeps_more (UpdateStatus i st msg)"
  "keeps_more (UpdateRuntimeFields i tun p fm)" "keeps_more (ClearActiveNodeID i)" "keeps_more ListRunningIDs"
  "keeps_more (tun_ListNodes i)" "keeps_more (tun_Create w priv)"
  unfolding tun_GetByID_def tun_List_def tun_Update_def UpdateStatus_def UpdateRuntimeFields_def ClearActiveNodeID_def update_iface_def
    ListRunningIDs_def tun_ListNodes_def tun_Create_def
  by (intro frame_intro keeps_exec; simp)+

lemma keeps_SetNodes: "keeps_more (SetNodes i ns)"
proof -
  have "keeps_more (insert_positions i k ns)" for k
    by (induction ns arbitrary: k) (auto simp: insert_tnode_def add_tnode_def intro!: frame_intro keeps_exec)
  then show ?thesis unfolding SetNodes_def del_tnodes_of_def by (intro frame_intro keeps_exec) simp_all
qed

lemma keeps_tun_Delete: "keeps_more (tun_Delete i)"
  unfolding tun_Delete_def del_stats_def del_peers_of_def del_tnodes_of_def del_iface_def
  by (intro frame_intro keeps_exec) simp_all

lemma keeps_other_repos:
  "keeps_more (ListByInterface i)" "keeps_more (peer_GetByID i j)" "keeps_more (peer_Create i p a b)" "keeps_more (peer_Delete i j)"
  "keeps_more (GetNode n)" "keeps_more (ListNodes s)"
  unfolding ListByInterface_def peer_GetByID_def peer_Create_def peer_Delete_def GetNode_def ListNodes_def
  by (intro frame_intro keeps_exec; simp)+

lemma keeps_insert_node: "keeps_more (insert_node n)"
  unfolding insert_node_def by (rule keeps_exec) simp

lemma keeps_InsertNodes: "keeps_more (InsertNodes ns)"
  unfolding InsertNodes_def keeps_more_def
  by (intro allI preserves_tx clock_free_more preserves_map_each keeps_insert_node [unfolded keeps_more_def, rule_format])

lemma keeps_audit: "keeps_more (audit_Save l s m)"
  unfolding audit_Save_def by (rule keeps_exec) simp

section \<open>The runtime part of the world\<close>

definition run_part :: "('k, 'a) run_world_scheme \<Rightarrow> 'k \<times> (int \<rightharpoonup> managed_device) \<times> (int \<rightharpoonup> nat) \<times> int list \<times> int list" where
  "run_part w = (rw_host w, rw_devices w, rw_instances w, rw_running w, rw_tracking w)"

definition keeps_run :: "('k, 'a, 'r) run_call \<Rightarrow> bool" where
  "keeps_run m \<longleftrightarrow> (\<forall>w. run_part (snd (m w)) = run_part w)"

named_theorems run_intro "rules for calls that keep the runtime part of the world"

lemma run_part_more:
  fixes w w' :: "('k, 'a) run_world_scheme"
  assumes "database.more w = database.more w'" shows "run_part w = run_part w'"
  using assms by (cases w; cases w') (simp add: run_part_def)

lemma keeps_more_run: "keeps_more m \<Longrightarrow> keeps_run m"
  unfolding keeps_run_def keeps_more_def preserves_def by (intro allI run_part_more) simp

lemma keeps_runD: "keeps_run m \<Longrightarrow> m w = (r, t) \<Longrightarrow> run_part t = run_part w"
  unfolding keeps_run_def by (metis snd_conv)

lemma keeps_run_preserves: "keeps_run m \<longleftrightarrow> (\<forall>x. preserves (\<lambda>w. run_part w = x) m)"
  unfolding keeps_run_def preserves_def by metis

lemma run_bnd [run_intro]: "keeps_run m \<Longrightarrow> (\<And>x. keeps_run (f x)) \<Longrightarrow> keeps_run (bnd m f)"
  unfolding keeps_run_preserves by (blast intro: preserves_bnd)

lemma run_attempt [run_intro]: "keeps_run m \<Longrightarrow> (\<And>x. keeps_run (f x)) \<Longrightarrow> keeps_run (attempt m f)"
  unfolding keeps_run_preserves by (blast intro: preserves_attempt)

lemma run_ignore [run_intro]: "keeps_run m \<Longrightarrow> keeps_run (ignore m)"
  unfolding keeps_run_preserves by (blast intro: preserves_ignore)

lemma run_simple [run_intro]: "keeps_run (ret x)" "keeps_run (fail e)" "keeps_run (gets f)" "keeps_run (lift r)"
  unfolding keeps_run_preserves by (blast intro: preserves_ret preserves_fail preserves_gets preserves_lift)+

lemma run_if [run_intro]: "keeps_run m \<Longrightarrow> keeps_run n \<Longrightarrow> keeps_run (if b then m else n)"
  by simp

lemma run_option [run_intro]: "keeps_run m \<Longrightarrow> (\<And>x. keeps_run (f x)) \<Longrightarrow> keeps_run (case v of None \<Rightarrow> m | Some x \<Rightarrow> f x)"
  by (simp split: option.split)

lemma run_sum [run_intro]: "(\<And>e. keeps_run (g e)) \<Longrightarrow> (\<And>x. keeps_run (f x)) \<Longrightarrow> keeps_run (case v of Inl e \<Rightarrow> g e | Inr x \<Rightarrow> f x)"
  by (simp split: sum.split)

lemma run_prod [run_intro]: "(\<And>x y. keeps_run (f x y)) \<Longrightarrow> keeps_run (case p of (x, y) \<Rightarrow> f x y)"
  by (simp split: prod.split)

lemma run_upd: "(\<And>w. run_part (f w) = run_part w) \<Longrightarrow> keeps_run (upd f)"
  by (simp add: keeps_run_def upd_def)

lemma run_draw [run_intro]: "keeps_run draw"
  by (simp add: keeps_run_def draw_def run_part_def)

lemmas run_repos [run_intro] = keeps_tunnel_repo [THEN keeps_more_run] keeps_SetNodes [THEN keeps_more_run] keeps_tun_Delete [THEN keeps_more_run]
  keeps_other_repos [THEN keeps_more_run] keeps_InsertNodes [THEN keeps_more_run] keeps_audit [THEN keeps_more_run]

lemma run_log [run_intro]: "keeps_run (log_Add l m)"
proof -
  have "keeps_run (upd (push_event l m))"
    by (rule run_upd) (simp add: run_part_def push_event_def)
  then show ?thesis unfolding log_Add_def AddSource_def by (intro run_intro)
qed

lemma run_psk [run_intro]: "keeps_run (PSKCallback E i)"
proof -
  have "keeps_run (psk_map E i ps m)" for ps m
    by (induction ps arbitrary: m) (auto intro!: run_intro)
  then show ?thesis unfolding PSKCallback_def by (intro run_intro)
qed

lemma run_start_nodes [run_intro]: "keeps_run (start_nodes iface i)"
proof -
  have "keeps_run (restore_single w)" for w
    unfolding restore_single_def Let_def by (auto split: option.split sum.split list.split intro!: run_intro)
  then show ?thesis unfolding start_nodes_def Let_def by (intro run_intro)
qed

section \<open>Triples about the host in the world of the services\<close>

abbreviation at_host :: "('k \<Rightarrow> net_view) \<Rightarrow> ('k, 'a) run_world_scheme \<Rightarrow> net_view" where
  "at_host view w \<equiv> view (rw_host w)"

lemma vt_on_host: "vtriple view P m Q E \<Longrightarrow> vtriple (at_host view) P (on_host m) Q E"
  unfolding vtriple_def valid_def on_host_def by (fastforce split: prod.splits sum.splits)

lemma preserves_on_host: "preserves (\<lambda>k. P (view k)) m \<Longrightarrow> preserves (\<lambda>w. P (at_host view w)) (on_host m)"
  unfolding preserves_def on_host_def by (simp split: prod.split) (metis snd_conv)

lemma run_preserves: "keeps_run m \<Longrightarrow> preserves (\<lambda>w. P (at_host view w)) m"
  unfolding keeps_run_def preserves_def run_part_def by simp

lemma vt_run: "keeps_run m \<Longrightarrow> vtriple (at_host view) P m (\<lambda>_. P) P"
  unfolding vt_keeps by (rule run_preserves)

lemma vt_run_to: "keeps_run m \<Longrightarrow> (\<And>v. P v \<Longrightarrow> E v) \<Longrightarrow> vtriple (at_host view) P m (\<lambda>_. P) E"
  by (rule vt_weaken [OF vt_run])

end
