(* ===== verification/TunnelRules.thy ===== *)
theory TunnelRules
  imports TunnelFrame
begin

text \<open>
  Starting and stopping a tunnel as the packet filter and the routing tables see it: a start that fails takes every
  rule back, a stop removes all of them, and neither touches a rule of anybody else.
\<close>

section \<open>The managers touch devices and instances only\<close>

definition dev_free :: "(net_view \<Rightarrow> bool) \<Rightarrow> bool" where
  "dev_free P \<longleftrightarrow> (\<forall>v x. P (v\<lparr>nv_devs := x\<rparr>) = P v) \<and> (\<forall>v x. P (v\<lparr>nv_live := x\<rparr>) = P v)"

lemma dev_free_stays: "dev_free (stays i U F S)"
  by (simp add: dev_free_def stays_def foreign_def rules_def)

lemma dev_free_routed: "dev_free (routed q ms rs b)"
  by (simp add: dev_free_def routed_def)

lemma dev_keeps:
  assumes "dev_law H view" "dev_free P"
  shows "preserves (\<lambda>k. P (view k)) (wg_CreateTUN H n mtu)" "preserves (\<lambda>k. P (view k)) (wg_Close H d)"
    "preserves (\<lambda>k. P (view k)) (wg_IpcSet H d s)" "preserves (\<lambda>k. P (view k)) (wg_UAPIOpen H n)"
    "preserves (\<lambda>k. P (view k)) (wg_UAPIListen H n u)" "preserves (\<lambda>k. P (view k)) (wg_UAPIClose H u)"
    "preserves (\<lambda>k. P (view k)) (xr_Load H j)" "preserves (\<lambda>k. P (view k)) (xr_New H c)"
    "preserves (\<lambda>k. P (view k)) (xr_Start H x)" "preserves (\<lambda>k. P (view k)) (xr_Close H x)"
proof -
  note law = dev_laws [OF assms(1)]
  have p: "P (v\<lparr>nv_devs := xs\<rparr>) = P v" "P (v\<lparr>nv_live := xs\<rparr>) = P v" for v xs
    using assms(2) unfolding dev_free_def by blast+
  show "preserves (\<lambda>k. P (view k)) (wg_CreateTUN H n mtu)" by (rule acts_keeps [OF law(1)]) (rule p)
  show "preserves (\<lambda>k. P (view k)) (wg_Close H d)" unfolding preserves_def by (simp only: law(2) p, simp)
  show "preserves (\<lambda>k. P (view k)) (wg_IpcSet H d s)" by (rule acts_keeps [OF law(3)]) (rule refl)
  show "preserves (\<lambda>k. P (view k)) (wg_UAPIOpen H n)" by (rule acts_keeps [OF law(4)]) (rule refl)
  show "preserves (\<lambda>k. P (view k)) (wg_UAPIListen H n u)" by (rule acts_keeps [OF law(5)]) (rule refl)
  show "preserves (\<lambda>k. P (view k)) (wg_UAPIClose H u)" by (rule acts_keeps [OF law(6)]) (rule refl)
  show "preserves (\<lambda>k. P (view k)) (xr_Load H j)" by (rule acts_keeps [OF law(7)]) (rule refl)
  show "preserves (\<lambda>k. P (view k)) (xr_New H c)" by (rule acts_keeps [OF law(8)]) (rule refl)
  show "preserves (\<lambda>k. P (view k)) (xr_Start H x)" by (rule acts_keeps [OF law(9)]) (rule p)
  show "preserves (\<lambda>k. P (view k)) (xr_Close H x)" unfolding preserves_def by (simp only: law(10) p, simp)
qed

lemma preserves_manager_upd:
  "preserves (\<lambda>w. P (at_host view w)) (upd (\<lambda>w. w\<lparr>rw_devices := f w\<rparr>))"
  "preserves (\<lambda>w. P (at_host view w)) (upd (\<lambda>w. w\<lparr>rw_instances := g w\<rparr>))"
  by (rule preserves_upd; simp)+

lemma mgr_keeps:
  assumes "dev_law (en_host E) view" "dev_free P"
  shows "preserves (\<lambda>w. P (at_host view w)) (wg_Create E i mtu port priv peers psk tun)"
    "preserves (\<lambda>w. P (at_host view w)) (wg_Destroy E i)"
    "preserves (\<lambda>w. P (at_host view w)) (wg_ReloadPeers E i mtu port priv peers psk)"
    "preserves (\<lambda>w. P (at_host view w)) (xray_Start E i xport mark gw nodes strategy)"
    "preserves (\<lambda>w. P (at_host view w)) (xray_Stop E i)"
proof -
  note k = dev_keeps [OF assms, THEN preserves_on_host] preserves_manager_upd keeps_intro preserves_gets preserves_case_option
  have uapi: "preserves (\<lambda>k. P (view k)) (startUAPI (en_host E) tun)"
    unfolding startUAPI_def by (intro keeps_intro dev_keeps [OF assms])
  have close: "preserves (\<lambda>k. P (view k)) (close_device (en_host E) md)" for md
    unfolding close_device_def by (intro keeps_intro dev_keeps [OF assms] preserves_case_option)
  note c = preserves_on_host [OF uapi] preserves_on_host [OF close]
    preserves_on_host [OF preserves_ignore [OF dev_keeps(2) [OF assms]]] preserves_on_host [OF preserves_ignore [OF dev_keeps(10) [OF assms]]]
  show "preserves (\<lambda>w. P (at_host view w)) (wg_Create E i mtu port priv peers psk tun)"
    unfolding wg_Create_def Let_def by (intro k c)
  show "preserves (\<lambda>w. P (at_host view w)) (wg_Destroy E i)" unfolding wg_Destroy_def by (intro k c)
  show "preserves (\<lambda>w. P (at_host view w)) (wg_ReloadPeers E i mtu port priv peers psk)" unfolding wg_ReloadPeers_def by (intro k c)
  show "preserves (\<lambda>w. P (at_host view w)) (xray_Start E i xport mark gw nodes strategy)"
    unfolding xray_Start_def Let_def by (intro k c)
  show "preserves (\<lambda>w. P (at_host view w)) (xray_Stop E i)" unfolding xray_Stop_def by (intro k c)
qed

section \<open>Triples of a start and a stop\<close>

lemma vt_step:
  fixes m :: "('k, 'a, unit) run_call"
  assumes "vtriple (at_host view) P m (\<lambda>_. Q) R" "vtriple (at_host view) R (undo E i tun n :: ('k, 'a, unit) run_call) (\<lambda>_. Z) Z"
  shows "vtriple (at_host view) P (step E i tun n m) (\<lambda>_. Q) Z"
proof -
  let ?undo = "undo E i tun n :: ('k, 'a, unit) run_call"
  have "vtriple (at_host view) R (bnd ?undo (\<lambda>_. bnd (ignore (UpdateStatus i WgError (error_text e))) (\<lambda>_. fail e))) (\<lambda>_. Q) Z" for e
    by (rule vt_bnd [OF assms(2)], rule vt_bnd [where R = "\<lambda>_. Z"]) (intro vt_run run_intro, rule vt_fail)
  then have r: "vtriple (at_host view) (case r of Inl e \<Rightarrow> R | Inr x \<Rightarrow> Q) (case r of
      Inl e \<Rightarrow> bnd ?undo (\<lambda>_. bnd (ignore (UpdateStatus i WgError (error_text e))) (\<lambda>_. fail e))
    | Inr _ \<Rightarrow> ret ()) (\<lambda>_. Q) Z" for r :: "go_error + unit"
    by (cases r) (simp_all add: vt_ret)
  show ?thesis
    unfolding step_def by (rule vt_attempt [where R = "\<lambda>r. case r of Inl e \<Rightarrow> R | Inr x \<Rightarrow> Q" and E' = R, OF _ _ r]) (simp_all add: assms(1))
qed

lemma vt_kept: "preserves (\<lambda>w. P (at_host view w)) m \<Longrightarrow> vtriple (at_host view) P m (\<lambda>_. P) P"
  unfolding vt_keeps .

lemma vt_kept_host: "preserves (\<lambda>k. P (view k)) m \<Longrightarrow> vtriple (at_host view) P (on_host m) (\<lambda>_. P) P"
  by (intro vt_kept preserves_on_host)

text \<open>What undoing leaves of the tunnel's rules.\<close>

lemma vt_when: "vtriple view P m (\<lambda>_. Q) E \<Longrightarrow> vtriple view P (if b then m else ret ()) (\<lambda>_. if b then Q else P) E"
  by (simp add: vt_ret)

lemma tunnel_rules_parts:
  "jump_at i tun \<in> tunnel_rules i tun subnet" "forwards_at tun \<subseteq> tunnel_rules i tun subnet"
  "masq_at tun subnet \<in> tunnel_rules i tun subnet" "old_masq_at subnet \<in> tunnel_rules i tun subnet"
  by (auto simp: tunnel_rules_def)

lemma tunnel_rules_disjoint [simp]:
  "jump_at i tun \<notin> forwards_at tun" "masq_at tun subnet \<notin> forwards_at tun" "masq_at tun subnet \<noteq> jump_at i tun"
  "old_masq_at subnet \<notin> forwards_at tun" "old_masq_at subnet \<noteq> jump_at i tun"
  by (auto simp: places)

lemma vt_kept_ignore: "preserves (\<lambda>w. P (at_host view w)) m \<Longrightarrow> vtriple (at_host view) P (ignore m) (\<lambda>_. P) E"
  by (intro vt_ignore vt_kept)

lemma vt_undo_rules:
  assumes "host_law (en_host E) view" and U: "U = tunnel_rules i tun subnet"
    and Z: "Z = stays i U F (S - (if 5 \<le> n then forwards_at tun else {}) - (if 4 \<le> n then {jump_at i tun} else {}))"
  shows "vtriple (at_host view) (stays i U F S) (undo E i tun n) (\<lambda>_. Z) Z"
proof -
  have laws: "ipt_law (en_host E) view" "net_law (en_host E) view" "dev_law (en_host E) view" using assms(1) by (simp_all add: host_law_def)
  let ?S1 = "S - (if 5 \<le> n then forwards_at tun else {})"
  let ?S2 = "?S1 - (if 4 \<le> n then {jump_at i tun} else {})"
  have u: "jump_at i tun \<in> U" "forwards_at tun \<subseteq> U" unfolding U by (rule tunnel_rules_parts)+
  have 1: "vtriple (at_host view) (stays i U F S) (if 5 \<le> n then ignore (on_host (TeardownForwardRules (en_host E) tun)) else ret ())
      (\<lambda>_. stays i U F ?S1) Z"
    using vt_ignore [OF vt_on_host [OF vt_TeardownForwardRules [OF laws(1) u(2)]]] by (auto intro: vt_ret)
  have 2: "vtriple (at_host view) (stays i U F S') (if 4 \<le> n then ignore (on_host (TeardownTProxy (en_host E) i tun m)) else ret ())
      (\<lambda>_. stays i U F (S' - (if 4 \<le> n then {jump_at i tun} else {}))) Z" for S' m
    using vt_ignore [OF vt_on_host [OF vt_TeardownTProxy [OF laws(1) u(1)]]] by (auto intro: vt_ret)
  note keep = mgr_keeps [OF laws(3) dev_free_stays] route_keeps [OF laws(2) disjI1, OF stays_only, THEN preserves_on_host]
  have 3: "vtriple (at_host view) (stays i U F S') (if b then ignore m else ret ()) (\<lambda>_. stays i U F S') Z"
    if "preserves (\<lambda>w. stays i U F S' (at_host view w)) m" for S' b m
    using vt_kept_ignore [OF that] by (auto intro: vt_ret)
  show ?thesis
    unfolding undo_def Let_def
    by (rule vt_bnd [OF 1], rule vt_bnd [OF 2], rule vt_bnd [OF 3], rule keep, rule vt_bnd [OF 3], rule keep)
      (auto simp: Z intro: vt_ret vt_kept [OF keep(2)])
qed

lemma vt_bring_up_rules:
  assumes "host_law (en_host E) view" and U: "U = tunnel_rules i (tun_name i) subnet"
  shows "vtriple (at_host view) (stays i U F {}) (bring_up E i iface nodes peers psk priv subnet) (\<lambda>_. stays i U F U) (stays i U F {})"
proof -
  let ?H = "en_host E" and ?tun = "tun_name i" and ?P = "stays i U F"
  have laws: "ipt_law ?H view" "net_law ?H view" "dev_law ?H view" using assms(1) by (simp_all add: host_law_def)
  have u: "jump_at i ?tun \<in> U" "forwards_at ?tun \<subseteq> U" "masq_at ?tun subnet \<in> U" "old_masq_at subnet \<in> U"
    unfolding U by (rule tunnel_rules_parts)+
  let ?J = "{jump_at i ?tun}" and ?JF = "insert (jump_at i ?tun) (forwards_at ?tun)"
  have all: "insert (masq_at ?tun subnet) ?JF \<subseteq> U" using u by simp
  have un: "vtriple (at_host view) (?P S) (undo E i ?tun n) (\<lambda>_. ?P {}) (?P {})"
    if "S - (if 5 \<le> n then forwards_at ?tun else {}) - (if 4 \<le> n then ?J else {}) = {}" for n S
    by (rule vt_undo_rules [OF assms]) (simp add: that)
  note mgr = mgr_keeps [OF laws(3) dev_free_stays, THEN vt_kept]
  note net = route_keeps [OF laws(2) disjI1, OF stays_only, THEN vt_kept_host] address_keeps [OF laws(2), THEN vt_kept_host]
  have tproxy: "vtriple (at_host view) (?P {}) (on_host (SetupTProxy ?H i ?tun port mark gw flow mss)) (\<lambda>_. ?P ?J) (?P {})" for port mark gw flow mss
    by (rule vt_on_host, rule vt_SetupTProxy [OF laws(1) u(1), of "{}", simplified])
  have fwd: "vtriple (at_host view) (?P ?J) (on_host (SetupForwardRules ?H ?tun)) (\<lambda>_. ?P ?JF) (?P ?J)"
    using vt_on_host [OF vt_SetupForwardRules [OF laws(1) u(2), of ?J i F]] by simp
  have nat: "vtriple (at_host view) (?P ?JF) (on_host (SetupNATMasquerade ?H ?tun subnet)) (\<lambda>_. ?P U) (?P ?JF)"
    by (rule vt_weaken [OF vt_on_host [OF vt_SetupNAT [OF laws(1) u(3,4), of ?JF]]]) (auto elim: stays_mono [OF _ all])
  show ?thesis
    unfolding bring_up_def Let_def computeRuntime_def runtime.simps
    by (rule vt_bnd [where R = "\<lambda>_. ?P {}"], rule vt_step [OF mgr(1) un], simp,
        rule vt_bnd [where R = "\<lambda>_. ?P {}"], rule vt_step [OF net(3) un], simp,
        rule vt_bnd [where R = "\<lambda>_. ?P {}"], rule net(4),
        rule vt_bnd [where R = "\<lambda>_. ?P {}"], rule vt_step [OF net(1) un], simp,
        rule vt_bnd [where R = "\<lambda>_. ?P {}"], rule vt_step [OF mgr(4) un], simp,
        rule vt_bnd [where R = "\<lambda>_. ?P ?J"], rule vt_step [OF tproxy un], simp,
        rule vt_bnd [where R = "\<lambda>_. ?P ?JF"], rule vt_step [OF fwd un], simp,
        rule vt_step [OF nat un], auto)
qed

lemma vt_stopInternal_rules:
  assumes "host_law (en_host E) view" "subnet \<noteq> []" and U: "U = tunnel_rules i tun subnet"
  shows "vtriple (at_host view) (stays i U F S) (stopInternal E i tun subnet) (\<lambda>_. stays i U F {}) (stays i U F {})"
proof -
  let ?H = "en_host E" and ?P = "stays i U F" and ?m = "rt_mark (computeRuntime i)"
  have laws: "ipt_law ?H view" "net_law ?H view" "dev_law ?H view" using assms(1) by (simp_all add: host_law_def)
  have u: "jump_at i tun \<in> U" "forwards_at tun \<subseteq> U" "masq_at tun subnet \<in> U" "old_masq_at subnet \<in> U"
    unfolding U by (rule tunnel_rules_parts)+
  let ?S1 = "U - forwards_at tun" and ?S2 = "U - forwards_at tun - {masq_at tun subnet, old_masq_at subnet}"
  have left: "?S2 - {jump_at i tun} = {}" by (auto simp: U tunnel_rules_def)
  have 0: "vtriple (at_host view) (?P S) m Q E" if "vtriple (at_host view) (?P U) m Q E" for m Q E
    by (rule vt_pre [OF _ that]) (fastforce simp: stays_def split: if_splits)
  have 1: "vtriple (at_host view) (?P U) (ignore (on_host (TeardownForwardRules ?H tun))) (\<lambda>_. ?P ?S1) (?P {})"
    by (rule vt_ignore [OF vt_on_host [OF vt_TeardownForwardRules [OF laws(1) u(2)]]])
  have 2: "vtriple (at_host view) (?P ?S1) (ignore (on_host (TeardownNATMasquerade ?H tun subnet))) (\<lambda>_. ?P ?S2) (?P {})"
    using vt_ignore [OF vt_on_host [OF vt_TeardownNAT [OF laws(1) u(3,4)]]] assms(2) by simp
  have 3: "vtriple (at_host view) (?P ?S2) (ignore (on_host (TeardownTProxy ?H i tun ?m))) (\<lambda>_. ?P {}) (?P {})"
    using vt_ignore [OF vt_on_host [OF vt_TeardownTProxy [OF laws(1) u(1), where S = ?S2]]] unfolding left .
  note keep = mgr_keeps [OF laws(3) dev_free_stays] route_keeps [OF laws(2) disjI1, OF stays_only, THEN preserves_on_host]
  have clear: "preserves (\<lambda>w. ?P {} (at_host view w)) (upd (\<lambda>w. w\<lparr>rw_running := f w, rw_tracking := g w\<rparr>))" for f g
    by (rule preserves_upd) simp
  show ?thesis
    unfolding stopInternal_def Let_def
    by (rule 0, rule vt_bnd [OF 1], rule vt_bnd [OF 2], rule vt_bnd [OF 3],
        rule vt_kept, intro keeps_intro keep clear)
qed

text \<open>The same for the policy rule and the table. A start that fails at or after \<open>SetupReturnRoute\<close> may leave them.\<close>

definition route_of :: "int \<Rightarrow> int \<times> int" where
  "route_of i = (rt_mark (computeRuntime i) mod 2 ^ 32, rt_tbl (computeRuntime i))"

lemma vt_stopInternal_routes:
  assumes "host_law (en_host E) view"
  shows "vtriple (at_host view) (routed (route_of i) ms rs b) (stopInternal E i tun subnet) (\<lambda>_. routed (route_of i) ms rs False) (routed (route_of i) ms rs False)"
proof -
  let ?H = "en_host E" and ?P = "routed (route_of i) ms rs" and ?rt = "computeRuntime i"
  have laws: "ipt_law ?H view" "net_law ?H view" "dev_law ?H view" using assms(1) by (simp_all add: host_law_def)
  note net = netconf_keeps [OF laws(1) disjI1, OF routed_only, THEN preserves_on_host, THEN vt_kept_ignore]
  have down: "vtriple (at_host view) (?P b) (ignore (on_host (TeardownReturnRoute ?H (rt_mark ?rt) (rt_tbl ?rt)))) (\<lambda>_. ?P False) (?P False)"
    unfolding route_of_def by (rule vt_ignore [OF vt_on_host [OF vt_TeardownReturnRoute [OF laws(2)]]])
  note keep = mgr_keeps [OF laws(3) dev_free_routed]
  have clear: "preserves (\<lambda>w. ?P False (at_host view w)) (upd (\<lambda>w. w\<lparr>rw_running := f w, rw_tracking := g w\<rparr>))" for f g
    by (rule preserves_upd) simp
  show ?thesis
    unfolding stopInternal_def Let_def
    by (rule vt_bnd [OF net(2)], rule vt_bnd [OF net(4)], rule vt_bnd [OF net(6)], rule vt_bnd [OF down],
        rule vt_kept, intro keeps_intro keep clear)
qed

lemma vt_bring_up_routes:
  assumes "host_law (en_host E) view"
  shows "vtriple (at_host view) (routed (route_of i) ms rs b) (bring_up E i iface nodes peers psk priv subnet)
    (\<lambda>_. routed (route_of i) ms rs True) (routed (route_of i) ms rs True)"
proof -
  let ?H = "en_host E" and ?P = "routed (route_of i) ms rs True" and ?rt = "computeRuntime i"
  have laws: "ipt_law ?H view" "net_law ?H view" "dev_law ?H view" using assms(1) by (simp_all add: host_law_def)
  note mgr = mgr_keeps [OF laws(3) dev_free_routed, THEN vt_kept]
  note net = netconf_keeps [OF laws(1) disjI1, OF routed_only, THEN vt_kept_host] address_keeps [OF laws(2), where P = ?P, THEN vt_kept_host]
  have up: "vtriple (at_host view) ?P (on_host (SetupReturnRoute ?H (rt_mark ?rt) (rt_tbl ?rt))) (\<lambda>_. ?P) ?P"
    unfolding route_of_def by (rule vt_on_host [OF vt_SetupReturnRoute [OF laws(2)]])
  have down: "vtriple (at_host view) ?P (on_host (TeardownReturnRoute ?H (rt_mark ?rt) (rt_tbl ?rt))) (\<lambda>_. ?P) ?P"
    unfolding route_of_def by (rule vt_weaken [OF vt_on_host [OF vt_TeardownReturnRoute [OF laws(2)]]]) (auto elim: routed_mono)
  note any = mgr net up down
  have un: "vtriple (at_host view) ?P (undo E i tun n) (\<lambda>_. ?P) ?P" for tun n
    unfolding undo_def Let_def using any [unfolded vt_keeps]
    unfolding vt_keeps by (intro keeps_intro)
  show ?thesis
    unfolding bring_up_def Let_def
    by (rule vt_pre [where P' = ?P], erule routed_mono, simp,
        intro vt_bnd [where R = "\<lambda>_. ?P"] vt_step [where R = ?P] un any)
qed

end
