(* ===== verification/TunnelLife.thy ===== *)
theory TunnelLife
  imports TunnelRules
begin

text \<open>
  Start and Stop end to end: the rules and the routes of the host before and after, whatever fails in between.
\<close>

section \<open>The stored tunnel\<close>

text \<open>The row of the tunnel has the address \<open>a\<close> and the device name the service gives (or none yet).\<close>

definition of_tunnel :: "int \<Rightarrow> string \<Rightarrow> ('a) wg_interface_scheme \<Rightarrow> bool" where
  "of_tunnel i a r \<longleftrightarrow> wi_id r = i \<longrightarrow> wi_address r = a \<and> wi_tun r \<in> {[], tun_name i}"

definition stored :: "int \<Rightarrow> string \<Rightarrow> 'a database_scheme \<Rightarrow> bool" where
  "stored i a d \<longleftrightarrow> (\<forall>r\<in>set (t_rows (db_ifaces d)). of_tunnel i a r)"

lemma clock_free_stored: "clock_free (stored i a)"
  by (simp add: clock_free_def stored_def)

lemma stored_tick [simp]: "stored i a (tick d) = stored i a d"
  by (simp add: stored_def)

lemma of_tunnel_row [simp]: "of_tunnel i a (ifaceRow r) = of_tunnel i a r"
  by (simp add: of_tunnel_def ifaceRow_def wg_interface.defs)

lemma preserves_stored_exec:
  "(\<And>d. stored i a d \<Longrightarrow> stored i a (snd (f d))) \<Longrightarrow> preserves (stored i a) (exec f)"
  by (rule preserves_exec [OF clock_free_stored])

lemma stored_update:
  assumes "of_tunnel i a w" shows "preserves (stored i a) (tun_Update w)"
  unfolding tun_Update_def
  by (intro preserves_affected preserves_stored_exec)
    (use assms in \<open>auto simp: stored_def of_tunnel_def t_update_def merge_iface_def\<close>)

lemma stored_status: "preserves (stored i a) (UpdateStatus j st msg)"
  unfolding UpdateStatus_def update_iface_def
  by (intro preserves_stored_exec) (auto simp: stored_def of_tunnel_def t_update_def)

lemma stored_query: "preserves (stored i a) (query f)"
  by (rule preserves_query [OF clock_free_stored])

lemma stored_queries:
  "preserves (stored i a) (tun_GetByID j)" "preserves (stored i a) (tun_ListNodes j)" "preserves (stored i a) (ListNodes s)"
  "preserves (stored i a) (GetNode n)" "preserves (stored i a) (ListByInterface j)" "preserves (stored i a) (peer_GetByID j k)"
  unfolding tun_GetByID_def tun_ListNodes_def ListNodes_def GetNode_def ListByInterface_def peer_GetByID_def
  by (intro preserves_bnd preserves_if preserves_case_option preserves_ret preserves_fail stored_query | simp add: case_prod_unfold)+

lemma stored_log: "preserves (stored i a) (log_Add l m)"
proof -
  have "preserves (stored i a) (audit_Save l' s' m')" for l' s' m'
    unfolding audit_Save_def by (rule preserves_stored_exec) (simp add: stored_def)
  then show ?thesis
    unfolding log_Add_def AddSource_def
    by (intro preserves_bnd preserves_upd preserves_gets preserves_if preserves_ignore preserves_ret) (simp_all add: stored_def)
qed

text \<open>The host and the managers leave the database alone.\<close>

lemma stored_run_upd [simp]:
  "stored i a (w\<lparr>rw_host := h\<rparr>) = stored i a w" "stored i a (w\<lparr>rw_devices := ds\<rparr>) = stored i a w"
  "stored i a (w\<lparr>rw_instances := xs\<rparr>) = stored i a w" "stored i a (w\<lparr>rw_running := rs, rw_tracking := ts\<rparr>) = stored i a w"
  by (simp_all add: stored_def)

lemma stored_on_host: "preserves (stored i a) (on_host m)"
  unfolding preserves_def on_host_def by (simp split: prod.split)

lemma stored_managers:
  "preserves (stored i a) (wg_Create E j mtu port priv peers psk tun)" "preserves (stored i a) (wg_Destroy E j)"
  "preserves (stored i a) (xray_Start E j xport mark gw nodes strategy)" "preserves (stored i a) (xray_Stop E j)"
  unfolding wg_Create_def wg_Destroy_def xray_Start_def xray_Stop_def Let_def
  by (intro keeps_intro preserves_gets preserves_case_option stored_on_host preserves_upd; simp)+

lemma stored_undo: "preserves (stored i a) (undo E j tun n)"
  unfolding undo_def Let_def by (intro keeps_intro stored_on_host stored_managers)

lemma stored_step: "preserves (stored i a) m \<Longrightarrow> preserves (stored i a) (step E j tun n m)"
  unfolding step_def by (intro keeps_intro stored_undo stored_status)

lemma stored_bring_up: "preserves (stored i a) (bring_up E j iface nodes peers psk priv subnet)"
  unfolding bring_up_def Let_def by (intro keeps_intro stored_step stored_on_host stored_managers)

lemma stored_stopInternal: "preserves (stored i a) (stopInternal E j tun subnet)"
  unfolding stopInternal_def Let_def by (intro keeps_intro stored_on_host stored_managers preserves_upd) simp

lemma stored_psk: "preserves (stored i a) (PSKCallback E j)"
proof -
  have "preserves (stored i a) (psk_map E j ps m)" for ps m
    by (induction ps arbitrary: m) (auto intro!: keeps_intro stored_queries)
  then show ?thesis unfolding PSKCallback_def by (intro keeps_intro stored_queries)
qed

section \<open>Start and Stop\<close>

text \<open>Assertions about the stored tunnel and the view of the host together.\<close>

definition both :: "('k \<Rightarrow> net_view) \<Rightarrow> int \<Rightarrow> string \<Rightarrow> (net_view \<Rightarrow> bool) \<Rightarrow> ('k, 'a) run_world_scheme \<Rightarrow> bool" where
  "both view i a P w \<longleftrightarrow> stored i a w \<and> P (at_host view w)"

lemma both_vt:
  fixes m :: "('k, 'a, 'r) run_call"
  assumes "preserves (stored i a) m" "vtriple (at_host view) P m Q E"
  shows "valid (both view i a P) m (\<lambda>x. both view i a (Q x)) (both view i a E)"
proof (rule validI)
  fix w :: "('k, 'a) run_world_scheme" assume w: "both view i a P w"
  obtain r t where m: "m w = (r, t)" by fastforce
  have "stored i a t" using preservesD [OF assms(1) _ m] w by (simp add: both_def)
  with w m assms(2) show "case m w of (Inr x, t) \<Rightarrow> both view i a (Q x) t | (Inl e, t) \<Rightarrow> both view i a E t"
    by (cases r) (auto simp: both_def vtriple_def valid_def dest!: spec [of _ w])
qed

lemma both_run: "preserves (stored i a) m \<Longrightarrow> keeps_run m \<Longrightarrow> valid (both view i a P) m (\<lambda>_. both view i a P) (both view i a P)"
  by (rule both_vt [OF _ vt_run])

lemma valid_post:
  assumes "valid P m (\<lambda>x. P) E" "\<And>s x t. P s \<Longrightarrow> m s = (Inr x, t) \<Longrightarrow> G x"
  shows "valid P m (\<lambda>x s. G x \<and> P s) E"
  using assms by (fastforce simp: valid_def split: prod.splits sum.splits)

lemma valid_fact: "(G \<Longrightarrow> valid P m Q E) \<Longrightarrow> valid (\<lambda>s. G \<and> P s) m Q E"
  by (cases G) (simp_all add: valid_def)

lemma GetByID_tunnel:
  assumes "stored i a d" "tun_GetByID i d = (Inr (w, k), d')"
  shows "wi_id w = i \<and> wi_address w = a \<and> wi_tun w \<in> {[], tun_name i}"
proof -
  from assms(2) obtain r where "t_find (\<lambda>r. wi_id r = i) (db_ifaces d) = Some r" "w = ifaceRow r"
    by (auto simp: tun_GetByID_def bnd_def query_def stmt_def ret_def fail_def tick_def split: option.splits)
  then show ?thesis using assms(1)
    by (auto simp: stored_def of_tunnel_def t_find_def ifaceRow_def wg_interface.defs dest!: find_Some_set)
qed

lemma start_nodes_tunnel:
  assumes "start_nodes w i s = (Inr (w', ns), t)"
  shows "wi_id w' = wi_id w \<and> wi_address w' = wi_address w \<and> wi_tun w' = wi_tun w"
proof -
  have r: "wi_id x = wi_id w \<and> wi_address x = wi_address w \<and> wi_tun x = wi_tun w" if "restore_single w s = (Inr x, t)" for x s t
    using that by (auto simp: restore_single_def bnd_def attempt_def ret_def ignore_def Let_def split: option.splits sum.splits list.splits prod.splits)
  show ?thesis using assms
    by (auto simp: start_nodes_def bnd_def attempt_def ret_def fail_def Let_def split: option.splits sum.splits prod.splits if_splits dest!: r)
qed

lemma stored_start_nodes:
  assumes "of_tunnel i a w" shows "preserves (stored i a) (start_nodes w j)"
proof -
  have "preserves (stored i a) (tun_Update (w\<lparr>wi_node := n\<rparr>))" for n
    using assms by (intro stored_update) (simp add: of_tunnel_def)
  then have "preserves (stored i a) (restore_single w)"
    unfolding restore_single_def Let_def by (auto split: option.split sum.split list.split intro!: keeps_intro stored_queries)
  then show ?thesis unfolding start_nodes_def Let_def case_prod_unfold
    by (intro keeps_intro stored_queries preserves_case_option)
qed

lemma both_mono: "(\<And>v. P v \<Longrightarrow> Q v) \<Longrightarrow> both view i a P w \<Longrightarrow> both view i a Q w"
  by (simp add: both_def)

lemma valid_both_run:
  "preserves (stored i a) m \<Longrightarrow> keeps_run m \<Longrightarrow> (\<And>v. P v \<Longrightarrow> E v) \<Longrightarrow> valid (both view i a P) m (\<lambda>_. both view i a P) (both view i a E)"
  by (rule valid_weaken [OF both_run [where P = P]]) (auto elim: both_mono)

lemma log_never_fails: "fst (log_Add l m w) = Inr ()"
  unfolding log_Add_def by (rule AddSource_ok)

lemma valid_log:
  fixes view :: "'k \<Rightarrow> net_view"
  shows "valid (both view i a P) (log_Add l msg) (\<lambda>_. both view i a P) X"
proof (rule validI)
  fix w :: "('k, 'a) run_world_scheme" assume w: "both view i a P w"
  obtain r t where m: "log_Add l msg w = (r, t)" by fastforce
  then have "r = Inr ()" using log_never_fails [of l msg w] by simp
  moreover from this m have "both view i a P t"
    using valid_ok [OF both_run [OF stored_log run_log] w] by blast
  ultimately show "case log_Add l msg w of (Inr x, t) \<Rightarrow> both view i a P t | (Inl e, t) \<Rightarrow> X t" using m by simp
qed

lemma started_tunnel: "wi_id w = i \<Longrightarrow> wi_address w = a \<Longrightarrow> of_tunnel i a (started i w now)"
  by (simp add: of_tunnel_def started_def Let_def computeRuntime_def)

lemma valid_finish_start:
  fixes E :: "'k env" and view :: "'k \<Rightarrow> net_view"
  assumes down: "vtriple (at_host view) Q (stopInternal E i (tun_name i) subnet :: ('k, 'a, unit) run_call) (\<lambda>_. X) X"
    and w: "wi_id (iface :: wg_interface) = i" "wi_address iface = a"
  shows "valid (both view i a Q) (finish_start E i iface subnet :: ('k, 'a, unit) run_call) (\<lambda>_. both view i a Q) (both view i a X)"
proof -
  let ?B = "both view i a :: _ \<Rightarrow> ('k, 'a) run_world_scheme \<Rightarrow> bool"
  let ?mark = "upd (\<lambda>w. w\<lparr>rw_running := set_Mark i (rw_running w), rw_tracking := set_Mark i (rw_tracking w)\<rparr>) :: ('k, 'a, unit) run_call"
  have now: "valid (?B Q) (gets db_now) (\<lambda>_. ?B Q) (?B X)" by (simp add: valid_def gets_def)
  have undo: "valid (?B Q) (bnd (stopInternal E i (tun_name i) subnet) (\<lambda>_. fail e)) (\<lambda>_. ?B Q) (?B X)" for e
    by (rule valid_bnd [OF both_vt [OF stored_stopInternal down]]) (rule valid_fail)
  have mark: "valid (?B Q) ?mark (\<lambda>_. ?B Q) (?B X)" by (simp add: valid_def upd_def both_def)
  have fin: "valid (?B Q) (bnd ?mark (\<lambda>_. log_Add ''info'' msg)) (\<lambda>_. ?B Q) (?B X)" for msg
    by (rule valid_bnd [OF mark valid_log])
  have upd_ok: "valid (?B Q) (tun_Update (started i iface t)) (\<lambda>x. ?B Q) (?B Q)" for t
    by (intro both_run stored_update started_tunnel w run_intro)
  show ?thesis
    unfolding finish_start_def
  proof (rule valid_bnd [OF now], rule valid_attempt [where R = "\<lambda>_. ?B Q", OF upd_ok])
    fix r :: "go_error + unit"
    show "valid (?B Q) (case r of Inl e \<Rightarrow> bnd (stopInternal E i (rt_tun (computeRuntime i)) subnet) (\<lambda>_. fail e)
       | Inr x \<Rightarrow> bnd ?mark (\<lambda>_. log_Add ''info'' (''tunnel started: '' @ wi_name iface @ '' ('' @ itoa i @ '')''))) (\<lambda>_. ?B Q) (?B X)"
      using undo fin by (cases r) (simp_all add: computeRuntime_def)
  qed
qed

lemma valid_Start:
  fixes E :: "'k env" and view :: "'k \<Rightarrow> net_view"
  assumes a: "ClientSubnetCIDR a = Inr subnet"
    and up: "\<And>iface nodes peers psk priv. vtriple (at_host view) P (bring_up E i iface nodes peers psk priv subnet :: ('k, 'a, unit) run_call) (\<lambda>_. Q) X"
    and down: "vtriple (at_host view) Q (stopInternal E i (tun_name i) subnet :: ('k, 'a, unit) run_call) (\<lambda>_. X) X"
    and le: "\<And>v. P v \<Longrightarrow> X v" "\<And>v. P v \<Longrightarrow> Q v"
  shows "valid (both view i a P) (Start E i :: ('k, 'a, unit) run_call) (\<lambda>_. both view i a Q) (both view i a X)"
proof -
  let ?B = "both view i a :: _ \<Rightarrow> ('k, 'a) run_world_scheme \<Rightarrow> bool"
  have get: "valid (?B P) (tun_GetByID i) (\<lambda>x s. (wi_id (fst x) = i \<and> wi_address (fst x) = a \<and> wi_tun (fst x) \<in> {[], tun_name i}) \<and> ?B P s) (?B X)"
    by (rule valid_post [OF valid_both_run]) (auto intro: stored_queries run_intro le(1) simp: both_def dest: GetByID_tunnel)
  have nodes: "valid (?B P) (start_nodes w i) (\<lambda>x s. (wi_id (fst x) = i \<and> wi_address (fst x) = a) \<and> ?B P s) (?B X)"
    if "wi_id w = i" "wi_address w = a" "wi_tun w \<in> {[], tun_name i}" for w
  proof (rule valid_post [OF valid_both_run])
    show "preserves (stored i a) (start_nodes w i :: ('k, 'a, _) run_call)" using that by (intro stored_start_nodes) (simp add: of_tunnel_def)
  qed (use that in \<open>auto intro: run_intro le(1) dest: start_nodes_tunnel\<close>)
  have sw: "valid (?B P) (start_with E i iface ns privEnc) (\<lambda>_. ?B Q) (?B X)" if "wi_id iface = i" "wi_address iface = a" for iface ns privEnc
    unfolding start_with_def
  proof (rule valid_bnd [where R = "\<lambda>_. ?B P"])
    show "valid (?B P) (lift (DecryptGCM (en_crypto E) (en_key E) privEnc)) (\<lambda>_. ?B P) (?B X)"
      by (rule valid_lift) (auto simp: both_def le(1))
    have list: "valid (?B P) (ListByInterface i) (\<lambda>_. ?B P) (?B X)" by (intro valid_both_run stored_queries run_intro le(1))
    have psk: "valid (?B P) (PSKCallback E i) (\<lambda>_. ?B P) (?B X)" by (intro valid_both_run stored_psk run_intro le(1))
    have b: "valid (?B P) (bring_up E i iface ns peers psk priv subnet) (\<lambda>_. ?B Q) (?B X)" for peers psk priv
      by (rule both_vt [OF stored_bring_up up])
    show "valid (?B P) (bnd (ListByInterface i) (\<lambda>peers. bnd (PSKCallback E i) (\<lambda>psk. case ClientSubnetCIDR (wi_address iface) of
         Inl e \<Rightarrow> fail (Wrap ''invalid wg address'' e)
       | Inr subnet \<Rightarrow> bnd (bring_up E i iface ns peers psk (trim_space priv) subnet) (\<lambda>_. finish_start E i iface subnet)))) (\<lambda>_. ?B Q) (?B X)" for priv
      unfolding that(2) a sum.case by (rule valid_bnd [OF list valid_bnd [OF psk valid_bnd [OF b valid_finish_start [OF down that]]]])
  qed
  have "valid (\<lambda>s. (wi_id (fst x) = i \<and> wi_address (fst x) = a \<and> wi_tun (fst x) \<in> {[], tun_name i}) \<and> ?B P s)
      (case x of (iface0, privEnc) \<Rightarrow> bnd (start_nodes iface0 i) (\<lambda>(iface, ns). start_with E i iface ns privEnc)) (\<lambda>_. ?B Q) (?B X)" for x
    unfolding case_prod_unfold by (intro valid_fact valid_bnd [OF nodes]) ((elim conjE; assumption) | (rule sw; elim conjE; assumption))+
  then have "valid (?B P) (bnd (tun_GetByID i) (\<lambda>(iface0, privEnc). bnd (start_nodes iface0 i) (\<lambda>(iface, ns). start_with E i iface ns privEnc)))
      (\<lambda>_. ?B Q) (?B X)"
    by (rule valid_bnd [OF get])
  then have "valid (?B P) (if running then ret () else bnd (tun_GetByID i) (\<lambda>(iface0, privEnc).
      bnd (start_nodes iface0 i) (\<lambda>(iface, ns). start_with E i iface ns privEnc))) (\<lambda>_. ?B Q) (?B X)" for running
    by (cases running) (auto intro: valid_ret both_mono [OF le(2)])
  moreover have "valid (?B P) (IsRunning i) (\<lambda>_. ?B P) (?B X)" by (simp add: valid_def IsRunning_def gets_def)
  ultimately show ?thesis unfolding Start_def by (intro valid_bnd)
qed

lemma valid_Stop:
  fixes E :: "'k env" and view :: "'k \<Rightarrow> net_view"
  assumes a: "ClientSubnetCIDR a = Inr subnet"
    and down: "vtriple (at_host view) P (stopInternal E i (tun_name i) subnet :: ('k, 'a, unit) run_call) (\<lambda>_. Z) Z"
  shows "valid (both view i a P) (Stop E i :: ('k, 'a, unit) run_call) (\<lambda>_. both view i a Z) (both view i a (\<lambda>v. P v \<or> Z v))"
proof -
  let ?B = "both view i a :: _ \<Rightarrow> ('k, 'a) run_world_scheme \<Rightarrow> bool" and ?X = "\<lambda>v. P v \<or> Z v"
  have get: "valid (?B P) (tun_GetByID i) (\<lambda>x s. (wi_id (fst x) = i \<and> wi_address (fst x) = a \<and> wi_tun (fst x) \<in> {[], tun_name i}) \<and> ?B P s) (?B ?X)"
    by (rule valid_post [OF valid_both_run]) (auto intro: stored_queries run_intro simp: both_def dest: GetByID_tunnel)
  have "valid (?B P) (bnd (teardownRuntime E i w) (\<lambda>_. bnd (ignore (tun_Update (w\<lparr>wi_status := WgStopped, wi_error := [], wi_uptime := None\<rparr>))) (\<lambda>_.
      bnd (ignore (UpdateStatus i WgStopped [])) (\<lambda>_. log_Add ''info'' msg)))) (\<lambda>_. ?B Z) (?B ?X)"
    if w: "wi_id w = i" "wi_address w = a" "wi_tun w \<in> {[], tun_name i}" for w :: wg_interface and msg
  proof (rule valid_bnd [where R = "\<lambda>_. ?B Z"])
    have "teardownRuntime E i w = (stopInternal E i (tun_name i) subnet :: ('k, 'a, unit) run_call)"
      using w a by (auto simp: teardownRuntime_def)
    then show "valid (?B P) (teardownRuntime E i w) (\<lambda>_. ?B Z) (?B ?X)"
      by (simp only:) (rule both_vt [OF stored_stopInternal vt_weaken [OF down]], auto)
    have "of_tunnel i a (w\<lparr>wi_status := WgStopped, wi_error := [], wi_uptime := None\<rparr>)" using w by (simp add: of_tunnel_def)
    then have u: "valid (?B Z) (ignore (tun_Update (w\<lparr>wi_status := WgStopped, wi_error := [], wi_uptime := None\<rparr>))) (\<lambda>_. ?B Z) (?B ?X)"
      by (intro valid_both_run preserves_ignore stored_update run_intro) simp_all
    have st: "valid (?B Z) (ignore (UpdateStatus i WgStopped [])) (\<lambda>_. ?B Z) (?B ?X)"
      by (intro valid_both_run preserves_ignore stored_status run_intro) simp_all
    show "valid (?B Z) (bnd (ignore (tun_Update (w\<lparr>wi_status := WgStopped, wi_error := [], wi_uptime := None\<rparr>))) (\<lambda>_.
      bnd (ignore (UpdateStatus i WgStopped [])) (\<lambda>_. log_Add ''info'' msg))) (\<lambda>_. ?B Z) (?B ?X)"
      by (rule valid_bnd [OF u valid_bnd [OF st valid_log]])
  qed
  then show ?thesis
    unfolding Stop_def by (intro valid_bnd [OF get]) (auto simp: case_prod_unfold intro!: valid_fact)
qed

text \<open>The subnet of an address is not empty.\<close>

lemma subnet_ne: "ClientSubnetCIDR a = Inr subnet \<Longrightarrow> subnet \<noteq> []"
  by (auto simp: ClientSubnetCIDR_def net_string_def split: option.splits)

definition clean :: "int \<Rightarrow> string \<Rightarrow> net_view \<Rightarrow> bool" where
  "clean i subnet v \<longleftrightarrow> (\<forall>(t, c, r) \<in> tunnel_rules i (tun_name i) subnet. r \<notin> set (rules v t c))"

definition same_rules :: "int \<Rightarrow> net_view \<Rightarrow> net_view \<Rightarrow> bool" where
  "same_rules i v v' \<longleftrightarrow> (\<forall>t c. \<not> own_chain i t c \<longrightarrow> rules v' t c = rules v t c)"

lemma stays_same: "stays i U (rules v) {} v' \<Longrightarrow> same_rules i v v'"
  unfolding stays_clean same_rules_def by blast

lemma clean_stays: "clean i subnet v \<Longrightarrow> stays i (tunnel_rules i (tun_name i) subnet) (rules v) {} v"
  unfolding stays_clean clean_def by auto




section \<open>A host that satisfies the laws\<close>

text \<open>Its state is the view itself. \<open>bad\<close> names the calls that fail.\<close>

definition does :: "string set \<Rightarrow> string \<Rightarrow> (net_view \<Rightarrow> net_view) \<Rightarrow> 'r \<Rightarrow> (net_view, 'r) call" where
  "does bad name f x v = (if name \<in> bad then (Inl (Opaque name), v) else (Inr x, f v))"

definition takes :: "(net_view \<Rightarrow> bool) \<Rightarrow> (net_view \<Rightarrow> net_view) \<Rightarrow> (net_view, unit) call" where
  "takes p f v = (if p v then (Inr (), f v) else (Inl (Opaque ''not there''), v))"

definition sample_host :: "string set \<Rightarrow> net_view host" where
  "sample_host bad = \<lparr>
     ipt_New = (\<lambda>v. (Inr (), v)),
     ipt_ChainExists = (\<lambda>t c v. (Inr (nv_chain v t c \<noteq> None), v)),
     ipt_NewChain = (\<lambda>t c. does bad ''NewChain'' (set_chain t c (Some [])) ()),
     ipt_ClearChain = (\<lambda>t c. does bad ''ClearChain'' (set_chain t c (Some [])) ()),
     ipt_DeleteChain = (\<lambda>t c. takes (\<lambda>v. nv_chain v t c = Some []) (set_chain t c None)),
     ipt_Insert = (\<lambda>t c p r v. if nv_chain v t c = None then (Inl (Opaque ''no chain''), v) else does bad c (on_chain t c ((#) r)) () v),
     ipt_Append = (\<lambda>t c r v. if nv_chain v t c = None then (Inl (Opaque ''no chain''), v) else does bad c (on_chain t c (\<lambda>rs. rs @ [r])) () v),
     ipt_Delete = (\<lambda>t c r. takes (\<lambda>v. r \<in> set (rules v t c)) (del t c r)),
     nl_RuleAdd = (\<lambda>q. does bad ''RuleAdd'' (\<lambda>v. v\<lparr>nv_marks := nv_marks v @ [q]\<rparr>) ()),
     nl_RuleList = (\<lambda>v. (Inr (nv_marks v), v)),
     nl_RuleDel = (\<lambda>q. takes (\<lambda>v. q \<in> set (nv_marks v)) (\<lambda>v. v\<lparr>nv_marks := remove1 q (nv_marks v)\<rparr>)),
     nl_LinkByName = (\<lambda>n. does bad n (\<lambda>v. v) 1),
     nl_ParseAddr = Inr,
     nl_AddrReplace = (\<lambda>l a. does bad ''AddrReplace'' (\<lambda>v. v) ()),
     nl_LinkSetUp = (\<lambda>l. does bad ''LinkSetUp'' (\<lambda>v. v) ()),
     nl_RouteReplace = (\<lambda>r. does bad ''RouteReplace'' (\<lambda>v. v\<lparr>nv_routes := r # filter (\<lambda>q. rt_table q \<noteq> rt_table r) (nv_routes v)\<rparr>) ()),
     nl_RouteList = (\<lambda>t v. (Inr (filter (\<lambda>q. rt_table q = t) (nv_routes v)), v)),
     nl_RouteDel = (\<lambda>r. takes (\<lambda>v. r \<in> set (nv_routes v)) (\<lambda>v. v\<lparr>nv_routes := remove1 r (nv_routes v)\<rparr>)),
     os_WriteFile = (\<lambda>f s. does bad ''WriteFile'' (\<lambda>v. v) ()),
     wg_CreateTUN = (\<lambda>n m v. if ''CreateTUN'' \<in> bad then (Inl (Opaque ''CreateTUN''), v) else (Inr (length (nv_devs v)), v\<lparr>nv_devs := length (nv_devs v) # nv_devs v\<rparr>)),
     wg_IpcSet = (\<lambda>d s. does bad ''IpcSet'' (\<lambda>v. v) ()),
     wg_Close = (\<lambda>d v. (Inr (), v\<lparr>nv_devs := remove1 d (nv_devs v)\<rparr>)),
     wg_UAPIOpen = (\<lambda>n. does bad ''UAPIOpen'' (\<lambda>v. v) 1),
     wg_UAPIListen = (\<lambda>n f. does bad ''UAPIListen'' (\<lambda>v. v) 1),
     wg_UAPIClose = (\<lambda>u. does bad ''UAPIClose'' (\<lambda>v. v) ()),
     xr_Load = (\<lambda>j. does bad ''LoadJSONConfig'' (\<lambda>v. v) 1),
     xr_New = (\<lambda>c v. if ''core.New'' \<in> bad then (Inl (Opaque ''core.New''), v) else (Inr (Suc (fold max (nv_live v) 0)), v)),
     xr_Start = (\<lambda>i. does bad ''inst.Start'' (\<lambda>v. v\<lparr>nv_live := i # nv_live v\<rparr>) ()),
     xr_Close = (\<lambda>i v. (Inr (), v\<lparr>nv_live := remove1 i (nv_live v)\<rparr>)),
     xr_Observe = (\<lambda>i v. None)\<rparr>"

lemma acts_does: "acts (\<lambda>v. v) (does bad n f x) (\<lambda>_. f)"
  by (simp add: acts_def does_def)

lemma removes_takes: "removes (\<lambda>v. v) (takes p f) p f"
  by (simp add: removes_def takes_def)

lemma sample_host_law: "host_law (sample_host bad) (\<lambda>v. v)"
proof -
  have "ipt_law (sample_host bad) (\<lambda>v. v)"
    unfolding ipt_law_def sample_host_def host.simps
    by (intro conjI allI acts_does removes_takes) (auto simp: reads_def acts_def does_def takes_def)
  moreover have "net_law (sample_host bad) (\<lambda>v. v)"
    unfolding net_law_def sample_host_def host.simps
    by (intro conjI allI acts_does removes_takes) (auto simp: reads_def)
  moreover have "dev_law (sample_host bad) (\<lambda>v. v)"
    unfolding dev_law_def sample_host_def host.simps
    by (intro conjI allI acts_does) (auto simp: acts_def)
  ultimately show ?thesis by (simp add: host_law_def)
qed

definition sample_view :: net_view where
  "sample_view = \<lparr>nv_chain = (\<lambda>t c. if (t, c) \<in> {(''filter'', ''FORWARD''), (''nat'', ''POSTROUTING''), (''mangle'', ''PREROUTING'')}
       then Some [[''-j'', ''DOCKER'']] else None),
     nv_marks = [(1, 254)], nv_routes = [\<lparr>rt_table = 254, rt_link = 2\<rparr>], nv_devs = [], nv_live = []\<rparr>"

definition sample_env :: "string set \<Rightarrow> net_view env" where
  "sample_env bad = \<lparr>en_host = sample_host bad, en_crypto = sample_crypto, en_key = replicate 16 CHR ''k'', en_trace = \<lparr>te_log_level = ''warning'', te_access_log = ''none''\<rparr>\<rparr>"

definition sample_run :: "net_view run_world" where
  "sample_run = \<lparr>db_now = 0, db_clock = 0, db_fault = (\<lambda>_. None), db_subs = db_subs sample_db, db_nodes = db_nodes sample_db,
     db_ifaces = \<lparr>t_rows = [(sample_iface 1 ''wg1'' 51820 (Some 1) (Some 1))\<lparr>wi_address := ''10.100.1.1/24'',
       wi_priv := b64_StdEncode (replicate 24 CHR ''n'' @ ''key'')\<rparr>], t_seq = 1\<rparr>,
     db_peers = db_peers sample_db, db_tnodes = db_tnodes sample_db, db_stats = db_stats sample_db, db_audit = db_audit sample_db,
     db_settings = db_settings sample_db, el_max = 64, el_events = [], el_db = False, rw_host = sample_view,
     rw_devices = Map.empty, rw_instances = Map.empty, rw_running = [], rw_tracking = [], rw_rand = (\<lambda>_. Inr []), rw_drawn = 0\<rparr>"

lemma sample_run_facts:
  "stored 1 ''10.100.1.1/24'' sample_run" "ClientSubnetCIDR ''10.100.1.1/24'' = Inr ''10.100.1.0/24''"
  "clean 1 ''10.100.1.0/24'' sample_view" "host_law (en_host (sample_env bad)) (\<lambda>v. v)" "rw_host sample_run = sample_view"
  "route_of 1 \<notin> set (nv_marks sample_view)" "\<forall>r\<in>set (nv_routes sample_view). rt_table r \<noteq> snd (route_of 1)"
proof -
  show "stored 1 ''10.100.1.1/24'' sample_run"
    by (simp add: stored_def of_tunnel_def sample_run_def sample_iface_def)
  show "ClientSubnetCIDR ''10.100.1.1/24'' = Inr ''10.100.1.0/24''" by code_simp
  show "clean 1 ''10.100.1.0/24'' sample_view"
    by (auto simp: clean_def places rules_def sample_view_def)
  show "host_law (en_host (sample_env bad)) (\<lambda>v. v)" by (simp add: sample_env_def sample_host_law)
  show "rw_host sample_run = sample_view" by (simp add: sample_run_def)
  show "route_of 1 \<notin> set (nv_marks sample_view)" "\<forall>r\<in>set (nv_routes sample_view). rt_table r \<noteq> snd (route_of 1)"
    by (simp_all add: route_of_def computeRuntime_def sample_view_def)
qed




end
