(* ===== verification/Auth.thy ===== *)
theory Auth
  imports Sessions StatsRepo
begin

text \<open>
  Authentication: \<open>service/auth.go\<close>, the use cases of \<open>app/auth_public_api.go\<close> and \<open>app/settings_api.go\<close>, the
  middlewares \<open>jwt.go\<close> and \<open>auth_ws.go\<close>, and the handlers of \<open>api/mount/auth.go\<close> with their cookies.

  \<^item> The state is the database (the settings are in it) extended by the refresh sessions, the times of the
    failed logins of each client address, and the source of random bytes: \<open>au_rand n\<close> is what its \<open>n\<close>-th use
    delivers. Times are in nanoseconds; the clock stands still during one call.
  \<^item> golang-jwt and bcrypt are the record \<open>auth_lib\<close>: \<open>SignedString\<close> with the service's key, \<open>jwt.Parse\<close> with the
    algorithms for which the key function hands out that key, and the two bcrypt functions (the number is the
    salt's draw). The claims are an association list, their numbers integers, as all numbers the service signs.
  \<^item> The counter of authentication failures (telemetry) is left out.
\<close>

section \<open>State and libraries\<close>

record auth_world = database +
  au_now :: int
  au_sessions :: sessions
  au_attempts :: "string \<Rightarrow> int list"
  au_rand :: "nat \<Rightarrow> go_error + string"
  au_drawn :: nat

type_synonym ('a, 'r) auth_call = "('a auth_world_scheme, 'r) call"

datatype claim = ClStr string | ClNum int | ClOther

type_synonym claims = "(string \<times> claim) list"

record auth_lib =
  al_sign :: "claims \<Rightarrow> go_error + string"
  al_parse :: "(string \<Rightarrow> bool) \<Rightarrow> int \<Rightarrow> string \<Rightarrow> claims option"
  al_generate :: "go_error + string \<Rightarrow> string \<Rightarrow> int \<Rightarrow> go_error + string"
  al_compare :: "string \<Rightarrow> string \<Rightarrow> bool"

definition second :: int where "second = 1000000000"
definition minute :: int where "minute = 60 * second"
definition JWTAccessTTL :: int where "JWTAccessTTL = 15 * minute"
definition JWTRefreshTTL :: int where "JWTRefreshTTL = 7 * 24 * 60 * minute"
definition ApplianceUserID :: int where "ApplianceUserID = 1"

definition unix :: "int \<Rightarrow> int" where
  "unix t = t div second"

text \<open>A call of the session store, with the time and the next draw.\<close>

definition with_store :: "(int \<Rightarrow> go_error + string \<Rightarrow> (sessions, 'r) call) \<Rightarrow> ('a, 'r) auth_call" where
  "with_store m w = (case m (au_now w) (au_rand w (au_drawn w)) (au_sessions w) of
     (r, s) \<Rightarrow> (r, w\<lparr>au_sessions := s, au_drawn := Suc (au_drawn w)\<rparr>))"

definition revoke_session :: "string \<Rightarrow> ('a, unit) auth_call" where
  "revoke_session jti = upd (\<lambda>w. w\<lparr>au_sessions := Revoke jti (au_sessions w)\<rparr>)"

section \<open>service/auth.go\<close>

definition HashPassword :: "auth_lib \<Rightarrow> string \<Rightarrow> ('a, string) auth_call" where
  "HashPassword L p w = (al_generate L (au_rand w (au_drawn w)) p 12, w\<lparr>au_drawn := Suc (au_drawn w)\<rparr>)"

definition access_claims :: "int \<Rightarrow> int \<Rightarrow> claims" where
  "access_claims now userID = [(''sub'', ClStr ''xray2wg''), (''typ'', ClStr ''access''),
     (''exp'', ClNum (unix (now + JWTAccessTTL))), (''iat'', ClNum (unix now)), (''user_id'', ClNum userID)]"

definition refresh_claims :: "int \<Rightarrow> string \<Rightarrow> claims" where
  "refresh_claims now jti = [(''sub'', ClStr ''xray2wg''), (''typ'', ClStr ''refresh''),
     (''exp'', ClNum (unix (now + JWTRefreshTTL))), (''iat'', ClNum (unix now)), (''refresh_jti'', ClStr jti)]"

definition signTokenPair :: "auth_lib \<Rightarrow> int \<Rightarrow> string \<Rightarrow> ('a, string \<times> string) auth_call" where
  "signTokenPair L userID refreshJTI = bnd (gets au_now) (\<lambda>now.
     bnd (lift (al_sign L (access_claims now userID))) (\<lambda>access.
     bnd (lift (al_sign L (refresh_claims now refreshJTI))) (\<lambda>refresh.
     ret (access, refresh))))"

definition sign_or_revoke :: "auth_lib \<Rightarrow> int \<Rightarrow> string \<Rightarrow> ('a, string \<times> string) auth_call" where
  "sign_or_revoke L userID jti = attempt (signTokenPair L userID jti) (\<lambda>r. case r of
     Inl e \<Rightarrow> bnd (revoke_session jti) (\<lambda>_. fail e)
   | Inr p \<Rightarrow> ret p)"

definition issuePairForUser :: "auth_lib \<Rightarrow> int \<Rightarrow> ('a, string \<times> string) auth_call" where
  "issuePairForUser L userID = bnd (with_store (\<lambda>now draw. CreateSession now draw userID JWTRefreshTTL)) (\<lambda>jti.
     sign_or_revoke L userID jti)"

definition IssueTokens :: "auth_lib \<Rightarrow> ('a, string \<times> string) auth_call" where
  "IssueTokens L = issuePairForUser L ApplianceUserID"

definition ParseToken :: "auth_lib \<Rightarrow> string \<Rightarrow> ('a, claims) auth_call" where
  "ParseToken L tok = bnd (gets au_now) (\<lambda>now. case al_parse L (\<lambda>alg. alg = ''RS256'') now tok of
     None \<Rightarrow> fail ErrUnauthorized
   | Some cl \<Rightarrow> ret cl)"

definition claim_str :: "string \<Rightarrow> claims \<Rightarrow> string option" where
  "claim_str k cl = (case map_of cl k of Some (ClStr s) \<Rightarrow> Some s | _ \<Rightarrow> None)"

definition RotateRefreshToken :: "auth_lib \<Rightarrow> string \<Rightarrow> ('a, string \<times> string) auth_call" where
  "RotateRefreshToken L tok = bnd (ParseToken L tok) (\<lambda>cl.
     if claim_str ''typ'' cl \<noteq> Some ''refresh'' then fail ErrUnauthorized
     else case claim_str ''refresh_jti'' cl of
       None \<Rightarrow> fail ErrUnauthorized
     | Some jti \<Rightarrow>
       if jti = [] then fail ErrUnauthorized
       else attempt (with_store (\<lambda>now draw. Rotate now draw jti JWTRefreshTTL)) (\<lambda>r. case r of
         Inl e \<Rightarrow> if errors_is e SessionNotFound \<or> errors_is e SessionExpired then fail ErrUnauthorized else fail e
       | Inr (newJTI, uid) \<Rightarrow> sign_or_revoke L uid newJTI))"

definition RevokeRefreshToken :: "auth_lib \<Rightarrow> string \<Rightarrow> ('a, unit) auth_call" where
  "RevokeRefreshToken L tok = (if tok = [] then ret () else attempt (ParseToken L tok) (\<lambda>r. case r of
     Inl e \<Rightarrow> ret ()
   | Inr cl \<Rightarrow> (case claim_str ''refresh_jti'' cl of
        None \<Rightarrow> ret ()
      | Some jti \<Rightarrow> if jti = [] then ret () else revoke_session jti)))"

definition ClaimsFromAccess :: "claims option \<Rightarrow> int option" where
  "ClaimsFromAccess mc = (case mc of None \<Rightarrow> None
   | Some cl \<Rightarrow> (case map_of cl ''user_id'' of Some (ClNum u) \<Rightarrow> Some u | _ \<Rightarrow> None))"

section \<open>app/auth_public_api.go and app/settings_api.go\<close>

definition recent :: "int \<Rightarrow> int list \<Rightarrow> int list" where
  "recent now ts = filter (\<lambda>t. t > now - minute) ts"

definition set_attempts :: "string \<Rightarrow> (int list \<Rightarrow> int list) \<Rightarrow> ('a, unit) auth_call" where
  "set_attempts ip f = upd (\<lambda>w. w\<lparr>au_attempts := (au_attempts w)(ip := f (au_attempts w ip))\<rparr>)"

definition Login :: "auth_lib \<Rightarrow> string \<Rightarrow> string \<Rightarrow> ('a, string \<times> string) auth_call" where
  "Login L password clientIP = bnd (gets au_now) (\<lambda>now.
     bnd (set_attempts clientIP (recent now)) (\<lambda>_.
     bnd (gets (\<lambda>w. length (au_attempts w clientIP) \<ge> 5)) (\<lambda>blocked.
     if blocked then fail ErrRateLimited
     else bnd (setting_Get ''admin_password_hash'') (\<lambda>hash.
     if hash = [] then fail ErrUnauthorized
     else if \<not> al_compare L hash password
     then bnd (set_attempts clientIP (\<lambda>ts. ts @ [now])) (\<lambda>_. fail ErrInvalidPassword)
     else bnd (set_attempts clientIP (\<lambda>_. [])) (\<lambda>_. IssueTokens L)))))"

definition Bootstrap :: "auth_lib \<Rightarrow> string \<Rightarrow> string \<Rightarrow> ('a, string \<times> string) auth_call" where
  "Bootstrap L password confirm = bnd (setting_Get ''admin_password_hash'') (\<lambda>phash.
     if phash \<noteq> [] then fail ErrBootstrapDone
     else if length password < 8 \<or> password \<noteq> confirm then fail ErrValidation
     else bnd (HashPassword L password) (\<lambda>hash.
     bnd (setting_Set ''admin_password_hash'' hash) (\<lambda>_.
     bnd (ignore (setting_Set ''first_run'' ''false'')) (\<lambda>_.
     IssueTokens L))))"

record setup_status =
  su_needs_setup :: bool
  su_https :: bool
  su_http_warning :: bool

definition SetupStatusJSON :: "string \<Rightarrow> string \<Rightarrow> ('a, setup_status) auth_call" where
  "SetupStatusJSON behind_https scheme = bnd (setting_Get ''admin_password_hash'') (\<lambda>phash.
     ret \<lparr>su_needs_setup = (phash = []), su_https = equal_fold behind_https ''true'',
          su_http_warning = (equal_fold behind_https ''false'' \<and> scheme \<noteq> ''https'' \<and> phash \<noteq> [])\<rparr>)"

definition GetServerHost :: "('a database_scheme, string) call" where
  "GetServerHost = setting_Get ''server_host''"

definition SetServerHost :: "string \<Rightarrow> ('a database_scheme, unit) call" where
  "SetServerHost host = setting_Set ''server_host'' (trim_space host)"

definition ChangeAdminPassword :: "auth_lib \<Rightarrow> string \<Rightarrow> string \<Rightarrow> ('a, unit) auth_call" where
  "ChangeAdminPassword L old new = (if length new < 8 then fail ErrValidation
     else bnd (setting_Get ''admin_password_hash'') (\<lambda>hash.
     if \<not> al_compare L hash old then fail ErrInvalidPassword
     else bnd (HashPassword L new) (\<lambda>nh. setting_Set ''admin_password_hash'' nh)))"

section \<open>Middleware\<close>

definition http_401 :: "string \<Rightarrow> go_error" where
  "http_401 m = HTTPErr 401 (MsgString m) None"

definition check_access :: "auth_lib \<Rightarrow> string \<Rightarrow> string \<Rightarrow> ('a, claims) auth_call" where
  "check_access L wrong tok = (if tok = [] then fail (http_401 ''missing token'')
     else attempt (ParseToken L tok) (\<lambda>r. case r of
       Inl e \<Rightarrow> fail (http_401 ''invalid token'')
     | Inr cl \<Rightarrow> (case claim_str ''typ'' cl of
          Some typ \<Rightarrow> if typ \<noteq> ''access'' then fail (http_401 wrong) else ret cl
        | None \<Rightarrow> ret cl)))"

definition JWT :: "auth_lib \<Rightarrow> string option \<Rightarrow> ('a, claims) auth_call" where
  "JWT L cookie = check_access L ''wrong token'' (case cookie of None \<Rightarrow> [] | Some v \<Rightarrow> v)"

definition WebSocketAuth :: "auth_lib \<Rightarrow> string option \<Rightarrow> ('a, claims) auth_call" where
  "WebSocketAuth L cookie = check_access L ''invalid token'' (case cookie of None \<Rightarrow> [] | Some v \<Rightarrow> v)"

section \<open>Handlers and cookies\<close>

record cookie =
  ck_name :: string
  ck_value :: string
  ck_path :: string
  ck_max_age :: int
  ck_secure :: bool

definition secureCookiesFor :: "string \<Rightarrow> string \<Rightarrow> bool" where
  "secureCookiesFor scheme behind_https \<longleftrightarrow> scheme = ''https'' \<or> equal_fold behind_https ''true''"

text \<open>\<open>d\<close> is the time that passes between the two readings of the clock.\<close>

definition cookie_age :: "int \<Rightarrow> int \<Rightarrow> int" where
  "cookie_age ttl d = max 1 ((ttl - d) div second)"

definition setTokenCookies :: "bool \<Rightarrow> int \<Rightarrow> string \<times> string \<Rightarrow> cookie list" where
  "setTokenCookies sec d p =
     [\<lparr>ck_name = ''access_token'', ck_value = fst p, ck_path = ''/api'', ck_max_age = cookie_age JWTAccessTTL d, ck_secure = sec\<rparr>,
      \<lparr>ck_name = ''refresh_token'', ck_value = snd p, ck_path = ''/api/v1/auth/refresh'', ck_max_age = cookie_age JWTRefreshTTL d, ck_secure = sec\<rparr>]"

definition clearTokenCookies :: "bool \<Rightarrow> cookie list" where
  "clearTokenCookies sec = map (\<lambda>(n, p). \<lparr>ck_name = n, ck_value = [], ck_path = p, ck_max_age = -1, ck_secure = sec\<rparr>)
     [(''access_token'', ''/api''), (''refresh_token'', ''/api/v1/auth/refresh'')]"

text \<open>The body is \<open>None\<close> when it does not bind.\<close>

definition login_handler :: "auth_lib \<Rightarrow> bool \<Rightarrow> int \<Rightarrow> string option \<Rightarrow> string \<Rightarrow> ('a, cookie list) auth_call" where
  "login_handler L sec d body ip = (case body of None \<Rightarrow> fail ErrValidation
     | Some pw \<Rightarrow> bnd (Login L pw ip) (\<lambda>p. ret (setTokenCookies sec d p)))"

definition bootstrap_handler :: "auth_lib \<Rightarrow> bool \<Rightarrow> int \<Rightarrow> (string \<times> string) option \<Rightarrow> ('a, cookie list) auth_call" where
  "bootstrap_handler L sec d body = (case body of None \<Rightarrow> fail ErrValidation
     | Some (pw, confirm) \<Rightarrow> bnd (Bootstrap L pw confirm) (\<lambda>p. ret (setTokenCookies sec d p)))"

definition refresh_handler :: "auth_lib \<Rightarrow> bool \<Rightarrow> int \<Rightarrow> string option \<Rightarrow> ('a, cookie list) auth_call" where
  "refresh_handler L sec d ck = (if ck = None \<or> ck = Some [] then fail ErrUnauthorized
     else attempt (RotateRefreshToken L (the ck)) (\<lambda>r. case r of
       Inl e \<Rightarrow> if errors_is e Unauthorized then fail ErrUnauthorized else fail e
     | Inr p \<Rightarrow> ret (setTokenCookies sec d p)))"

definition logout_handler :: "auth_lib \<Rightarrow> bool \<Rightarrow> string option \<Rightarrow> ('a, cookie list) auth_call" where
  "logout_handler L sec ck = bnd (RevokeRefreshToken L (case ck of None \<Rightarrow> [] | Some v \<Rightarrow> v)) (\<lambda>_. ret (clearTokenCookies sec))"

text \<open>GET /auth/me behind the middleware \<open>JWT\<close>.\<close>

definition me_handler :: "auth_lib \<Rightarrow> string option \<Rightarrow> ('a, int) auth_call" where
  "me_handler L ck = bnd (JWT L ck) (\<lambda>cl. case ClaimsFromAccess (Some cl) of
     None \<Rightarrow> fail (http_401 ''invalid token'') | Some u \<Rightarrow> ret u)"

end
