(* ===== verification/AuthProps.thy ===== *)
theory AuthProps
  imports Auth
begin

text \<open>
  What authentication guarantees: the limit on wrong passwords, that a refresh token is good for one use, what
  the middlewares accept, and when the first password can be set.
\<close>

section \<open>Laws of the libraries\<close>

text \<open>A token the key signed is accepted until it expires, and no longer, when RS256 is among the algorithms
  the key function accepts; its claims are those that were signed.\<close>

definition jwt_law :: "auth_lib \<Rightarrow> bool" where
  "jwt_law L \<longleftrightarrow> (\<forall>cl tok e kf now. al_sign L cl = Inr tok \<longrightarrow> map_of cl ''exp'' = Some (ClNum e) \<longrightarrow>
     tok \<noteq> [] \<and> al_parse L kf now tok = (if kf ''RS256'' \<and> now < e * second then Some cl else None))"

text \<open>The claims a token decodes to do not depend on the time.\<close>

definition jwt_stable :: "auth_lib \<Rightarrow> bool" where
  "jwt_stable L \<longleftrightarrow> (\<forall>kf now now' tok cl cl'. al_parse L kf now tok = Some cl \<longrightarrow> al_parse L kf now' tok = Some cl' \<longrightarrow> cl = cl')"

text \<open>A password matches the hash made from it; no hash is empty.\<close>

definition bcrypt_law :: "auth_lib \<Rightarrow> bool" where
  "bcrypt_law L \<longleftrightarrow> (\<forall>salt p c h. al_generate L salt p c = Inr h \<longrightarrow> h \<noteq> [] \<and> al_compare L h p)"

section \<open>Histories\<close>

datatype auth_op =
    DoLogin string string | DoBootstrap string string | DoRefresh string | DoLogout string
  | DoChange string string | DoPurge | DoWait int

fun run_auth :: "auth_lib \<Rightarrow> auth_op \<Rightarrow> ('a, unit) auth_call" where
  "run_auth L (DoLogin pw ip) = ignore (Login L pw ip)"
| "run_auth L (DoBootstrap pw c) = ignore (Bootstrap L pw c)"
| "run_auth L (DoRefresh tok) = ignore (RotateRefreshToken L tok)"
| "run_auth L (DoLogout tok) = ignore (RevokeRefreshToken L tok)"
| "run_auth L (DoChange old new) = ignore (ChangeAdminPassword L old new)"
| "run_auth L DoPurge = upd (\<lambda>w. w\<lparr>au_sessions := purgeExpired (au_now w) (au_sessions w)\<rparr>)"
| "run_auth L (DoWait t) = upd (\<lambda>w. w\<lparr>au_now := au_now w + t\<rparr>)"

definition run_all :: "auth_lib \<Rightarrow> auth_op list \<Rightarrow> 'a auth_world_scheme \<Rightarrow> 'a auth_world_scheme" where
  "run_all L ops w = fold (\<lambda>p w. snd (run_auth L p w)) ops w"

lemma run_all_preserves:
  "(\<And>p. preserves I (run_auth L p)) \<Longrightarrow> I w \<Longrightarrow> I (run_all L ops w)"
  by (induction ops arbitrary: w) (simp_all add: run_all_def preserves_run)

section \<open>Refresh sessions\<close>

text \<open>No two draws are the same; every session has a token drawn before.\<close>

definition draws_differ :: "'a auth_world_scheme \<Rightarrow> bool" where
  "draws_differ w \<longleftrightarrow> (\<forall>m n b. au_rand w m = Inr b \<longrightarrow> au_rand w n = Inr b \<longrightarrow> m = n)"

definition drawn_before :: "string \<Rightarrow> 'a auth_world_scheme \<Rightarrow> bool" where
  "drawn_before j w \<longleftrightarrow> (\<exists>n<au_drawn w. token_of (au_rand w n) = Some j)"

definition sessions_drawn :: "'a auth_world_scheme \<Rightarrow> bool" where
  "sessions_drawn w \<longleftrightarrow> draws_differ w \<and> (\<forall>j. session_user (au_sessions w) j = None \<or> drawn_before j w)"

definition gone :: "string \<Rightarrow> 'a auth_world_scheme \<Rightarrow> bool" where
  "gone j w \<longleftrightarrow> draws_differ w \<and> drawn_before j w \<and> session_user (au_sessions w) j = None"

lemma sessions_drawnD: "sessions_drawn w \<Longrightarrow> session_user (au_sessions w) j \<noteq> None \<Longrightarrow> drawn_before j w"
  unfolding sessions_drawn_def by (elim conjE allE [of _ j] disjE) simp_all

lemmas auth_inv_defs = sessions_drawn_def gone_def draws_differ_def drawn_before_def

lemma clock_free_auth [preserves_intro]: "clock_free sessions_drawn" "clock_free (gone j)"
  by (simp_all add: clock_free_def auth_inv_defs)

lemma next_token_new:
  assumes "draws_differ w" "drawn_before j w" shows "token_of (au_rand w (au_drawn w)) \<noteq> Some j"
proof
  assume a: "token_of (au_rand w (au_drawn w)) = Some j"
  then obtain b where b: "au_rand w (au_drawn w) = Inr b" "hex_encode b = j"
    by (cases "au_rand w (au_drawn w)") auto
  from assms(2) obtain n where n: "n < au_drawn w" "token_of (au_rand w n) = Some j" by (auto simp: drawn_before_def)
  then obtain c where c: "au_rand w n = Inr c" "hex_encode c = j" by (cases "au_rand w n") auto
  with b have "c = b" using hex_encode_inj by blast
  with assms(1) b c n show False unfolding draws_differ_def by (metis less_irrefl)
qed

text \<open>A store operation of the contract, run with the next draw.\<close>

lemma store_run:
  assumes st: "snd (m (au_now w) (au_rand w (au_drawn w)) (au_sessions w)) = session_step p (au_sessions w)"
    and d: "drawn p = None \<or> drawn p = token_of (au_rand w (au_drawn w))"
  shows "sessions_drawn w \<Longrightarrow> sessions_drawn (snd (with_store m w))"
    and "gone j w \<Longrightarrow> gone j (snd (with_store m w))"
proof -
  let ?w = "snd (with_store m w)"
  have w: "?w = w\<lparr>au_sessions := session_step p (au_sessions w), au_drawn := Suc (au_drawn w)\<rparr>"
    using st by (simp add: with_store_def case_prod_beta)
  have before: "drawn_before k ?w \<longleftrightarrow> drawn_before k w \<or> token_of (au_rand w (au_drawn w)) = Some k" for k
    by (auto simp: drawn_before_def w less_Suc_eq)
  { assume a: "sessions_drawn w"
    have "session_user (session_step p (au_sessions w)) k = None \<or> drawn_before k ?w" for k
    proof (cases "drawn p = Some k")
      case True
      with d have "token_of (au_rand w (au_drawn w)) = Some k" by auto
      then show ?thesis by (simp add: before)
    next
      case False
      moreover have "session_user (au_sessions w) k = None \<or> drawn_before k w"
        using sessions_drawnD [OF a] by blast
      ultimately show ?thesis
        using store.step_keeps_absent [of "au_sessions w" k p] unfolding before by blast
    qed
    with a show "sessions_drawn ?w" by (simp add: sessions_drawn_def draws_differ_def w) }
  assume g: "gone j w"
  then have "drawn p \<noteq> Some j" using d next_token_new [of w j] by (auto simp: gone_def)
  with g have "session_user (session_step p (au_sessions w)) j = None"
    by (intro store.step_keeps_absent) (auto simp: gone_def)
  with g before show "gone j ?w" by (simp add: gone_def draws_differ_def w)
qed

lemma store_create:
  "snd (CreateSession (au_now w) (au_rand w (au_drawn w)) u ttl (au_sessions w))
     = session_step (Create (au_now w) (token_of (au_rand w (au_drawn w))) u ttl) (au_sessions w)"
  by (rule CreateSession_step)

lemma store_turn:
  "snd (Rotate (au_now w) (au_rand w (au_drawn w)) k ttl (au_sessions w))
     = session_step (Turn (au_now w) (token_of (au_rand w (au_drawn w))) k ttl) (au_sessions w)"
  by (simp add: Rotate_turn)

lemma store_calls [preserves_intro]:
  "preserves sessions_drawn (with_store (\<lambda>now draw. CreateSession now draw u ttl))"
  "preserves sessions_drawn (with_store (\<lambda>now draw. Rotate now draw k ttl))"
  "preserves (gone j) (with_store (\<lambda>now draw. CreateSession now draw u ttl))"
  "preserves (gone j) (with_store (\<lambda>now draw. Rotate now draw k ttl))"
  by (rule preservesI, rule store_run(1), rule store_create, simp, assumption)
    (rule preservesI, rule store_run(1), rule store_turn, simp, assumption,
     rule preservesI, rule store_run(2), rule store_create, simp, assumption,
     rule preservesI, rule store_run(2), rule store_turn, simp, assumption)

text \<open>Steps that draw nothing for the store and add no session.\<close>

lemma quiet_step:
  assumes "\<And>w k. session_user (au_sessions w) k = None \<Longrightarrow> session_user (au_sessions (f w)) k = None"
    "\<And>w. au_rand (f w) = au_rand w" "\<And>w. au_drawn (f w) \<ge> au_drawn w"
  shows "sessions_drawn w \<Longrightarrow> sessions_drawn (f w)" "gone j w \<Longrightarrow> gone j (f w)"
proof -
  have b: "drawn_before k w \<Longrightarrow> drawn_before k (f w)" for k
    using assms(2,3) [of w] by (auto simp: drawn_before_def intro: less_le_trans)
  show "sessions_drawn w \<Longrightarrow> sessions_drawn (f w)"
    using assms(1) [of w] b by (simp add: sessions_drawn_def draws_differ_def assms(2)) blast
  show "gone j w \<Longrightarrow> gone j (f w)"
    using assms(1) [of w j] b by (auto simp: gone_def draws_differ_def assms(2))
qed

lemma quiet_calls [preserves_intro]:
  "preserves sessions_drawn (revoke_session k)" "preserves (gone j) (revoke_session k)"
  "preserves sessions_drawn (set_attempts ip g)" "preserves (gone j) (set_attempts ip g)"
  "preserves sessions_drawn (HashPassword L p)" "preserves (gone j) (HashPassword L p)"
  "preserves sessions_drawn (setting_Get n)" "preserves (gone j) (setting_Get n)"
  "preserves sessions_drawn (setting_Set n v)" "preserves (gone j) (setting_Set n v)"
proof -
  show "preserves sessions_drawn (revoke_session k)" "preserves (gone j) (revoke_session k)"
    unfolding revoke_session_def
    by (rule preserves_upd, erule quiet_step [rotated -1]; simp add: session_user_def Revoke_def)+
  show "preserves sessions_drawn (set_attempts ip g)" "preserves (gone j) (set_attempts ip g)"
    unfolding set_attempts_def by (rule preserves_upd, erule quiet_step [rotated -1]; simp)+
  show "preserves sessions_drawn (HashPassword L p)" "preserves (gone j) (HashPassword L p)"
    by (rule preservesI, simp add: HashPassword_def, erule quiet_step [rotated -1]; simp)+
  show "preserves sessions_drawn (setting_Get n)" "preserves (gone j) (setting_Get n)"
    unfolding setting_Get_def by (intro preserves_intro)+
  show "preserves sessions_drawn (setting_Set n v)" "preserves (gone j) (setting_Set n v)"
    unfolding setting_Set_def
    by (rule preserves_exec, rule preserves_intro, simp, erule quiet_step [rotated -1]; simp)+
qed

text \<open>Every call of the service is made of these steps; \<open>H\<close> is what is known of a hash that was made.\<close>

lemma hash_bnd:
  assumes "\<And>salt p c h. al_generate L salt p c = Inr h \<Longrightarrow> H h" "preserves I (HashPassword L p)"
    "\<And>h. H h \<Longrightarrow> preserves I (f h)"
  shows "preserves I (bnd (HashPassword L p) f)"
proof (rule preservesI)
  fix w assume w: "I w"
  obtain r t where h: "HashPassword L p w = (r, t)" by fastforce
  have t: "I t" by (rule preservesD [OF assms(2) w h])
  show "I (snd (bnd (HashPassword L p) f w))"
  proof (cases r)
    case (Inl e) with t h show ?thesis by (simp add: bnd_def)
  next
    case (Inr x)
    with h have "al_generate L (au_rand w (au_drawn w)) p 12 = Inr x" by (simp add: HashPassword_def)
    then have "H x" by (rule assms(1))
    with assms(3) t h Inr show ?thesis by (simp add: bnd_def preserves_def)
  qed
qed

lemma auth_calls:
  assumes "\<And>u ttl. preserves I (with_store (\<lambda>now draw. CreateSession now draw u ttl))"
    "\<And>k ttl. preserves I (with_store (\<lambda>now draw. Rotate now draw k ttl))" "\<And>k. preserves I (revoke_session k)"
    "\<And>ip g. preserves I (set_attempts ip g)" "\<And>n. preserves I (setting_Get n)"
    "\<And>n v. H v \<Longrightarrow> preserves I (setting_Set n v)" "H ''false''"
    "\<And>p. preserves I (HashPassword L p)" "\<And>salt p c h. al_generate L salt p c = Inr h \<Longrightarrow> H h"
    "preserves I (upd (\<lambda>w. w\<lparr>au_sessions := purgeExpired (au_now w) (au_sessions w)\<rparr>) :: ('a, unit) auth_call)"
    "\<And>t. preserves I (upd (\<lambda>w. w\<lparr>au_now := au_now w + t\<rparr>) :: ('a, unit) auth_call)"
  shows "preserves I (run_auth L p)"
proof -
  have parse: "preserves I (ParseToken L tok)" for tok
    unfolding ParseToken_def by (intro preserves_intro)
  have sign: "preserves I (sign_or_revoke L u j)" for u j
    unfolding sign_or_revoke_def signTokenPair_def by (intro preserves_intro assms)
  have issue: "preserves I (IssueTokens L)"
    unfolding IssueTokens_def issuePairForUser_def by (intro preserves_intro assms sign)
  have rot: "preserves I (case r of Inl e \<Rightarrow> if errors_is e SessionNotFound \<or> errors_is e SessionExpired then fail ErrUnauthorized else fail e
       | Inr (newJTI, uid) \<Rightarrow> sign_or_revoke L uid newJTI)" for r
    by (auto intro: preserves_intro sign split: sum.split)
  note hash = hash_bnd [OF assms(9) assms(8)]
  have "preserves I (RotateRefreshToken L tok)" for tok
    unfolding RotateRefreshToken_def by (intro preserves_intro assms(2) parse rot)
  moreover have "preserves I (RevokeRefreshToken L tok)" for tok
    unfolding RevokeRefreshToken_def by (intro preserves_intro assms(3) parse)
  moreover have "preserves I (Login L pw ip)" for pw ip
    unfolding Login_def by (intro preserves_intro assms(4,5) issue)
  moreover have "preserves I (Bootstrap L pw c)" for pw c
    unfolding Bootstrap_def
    by (intro hash preserves_if preserves_fail preserves_bnd [OF assms(5)] preserves_bnd [OF assms(6)] preserves_bnd [OF preserves_ignore [OF assms(6)]] issue assms(7))
  moreover have "preserves I (ChangeAdminPassword L old new)" for old new
    unfolding ChangeAdminPassword_def
    by (intro hash preserves_if preserves_fail preserves_bnd [OF assms(5)] assms(6))
  ultimately show ?thesis using assms(10,11) by (cases p) (auto intro: preserves_ignore)
qed

lemma run_auth_inv:
  "preserves sessions_drawn (run_auth L p)" "preserves (gone j) (run_auth L p)"
proof -
  show "preserves sessions_drawn (run_auth L p)"
    by (rule auth_calls [where H = "\<lambda>_. True"])
      (intro preserves_intro TrueI preserves_upd; erule quiet_step [rotated -1]; simp add: session_user_def purgeExpired_def split: option.splits)+
  show "preserves (gone j) (run_auth L p)"
    by (rule auth_calls [where H = "\<lambda>_. True"])
      (intro preserves_intro TrueI preserves_upd; erule quiet_step [rotated -1]; simp add: session_user_def purgeExpired_def split: option.splits)+
qed

text \<open>The session a refresh token names is consumed by the rotation.\<close>

lemma rotate_consumes:
  assumes inv: "sessions_drawn w" and ok: "with_store (\<lambda>now draw. Rotate now draw j ttl) w = (Inr r, t)"
  shows "gone j t"
proof -
  let ?p = "Turn (au_now w) (token_of (au_rand w (au_drawn w))) j ttl"
  have "fst (Rotate (au_now w) (au_rand w (au_drawn w)) j ttl (au_sessions w)) = Inr r"
    using ok by (simp add: with_store_def split: prod.splits)
  then have "fst (turn_session (au_now w) (token_of (au_rand w (au_drawn w))) j ttl (au_sessions w)) = Some r"
    by (simp add: Rotate_turn)
  then have "session_user (au_sessions w) j \<noteq> None"
    using store.turn_result [of "au_now w" _ j ttl "au_sessions w" "fst r" "snd r"] by auto
  then have d: "drawn_before j w" using sessions_drawnD [OF inv] by blast
  then have n: "token_of (au_rand w (au_drawn w)) \<noteq> Some j"
    using inv next_token_new by (auto simp: sessions_drawn_def)
  have t: "t = w\<lparr>au_sessions := session_step ?p (au_sessions w), au_drawn := Suc (au_drawn w)\<rparr>"
    using ok store_turn [of w j ttl] by (simp add: with_store_def case_prod_beta)
  have "session_user (session_step ?p (au_sessions w)) j = None"
    by (rule store.turn_consumes [OF n])
  with d inv show ?thesis
    unfolding t by (auto simp: auth_inv_defs less_Suc_eq)
qed

lemma sign_gone: "preserves (gone j) (sign_or_revoke L u k)"
  unfolding sign_or_revoke_def signTokenPair_def by (intro preserves_intro)

lemma ParseToken_run:
  "ParseToken L tok w = (case al_parse L (\<lambda>alg. alg = ''RS256'') (au_now w) tok of
     None \<Rightarrow> (Inl ErrUnauthorized, w) | Some cl \<Rightarrow> (Inr cl, w))"
  by (simp add: ParseToken_def bnd_def gets_def ret_def fail_def split: option.split)

lemma rotated_gone:
  assumes "sessions_drawn w" "RotateRefreshToken L tok w = (Inr p, t)"
  shows "\<exists>cl j. al_parse L (\<lambda>alg. alg = ''RS256'') (au_now w) tok = Some cl \<and> claim_str ''typ'' cl = Some ''refresh''
     \<and> claim_str ''refresh_jti'' cl = Some j \<and> j \<noteq> [] \<and> gone j t"
proof -
  obtain cl where cl: "al_parse L (\<lambda>alg. alg = ''RS256'') (au_now w) tok = Some cl"
    using assms(2) by (simp add: RotateRefreshToken_def bnd_def ParseToken_run split: option.splits)
  obtain j where j: "claim_str ''typ'' cl = Some ''refresh''" "claim_str ''refresh_jti'' cl = Some j" "j \<noteq> []"
    using assms(2) by (simp add: RotateRefreshToken_def bnd_def ParseToken_run cl fail_def split: if_splits option.splits)
  obtain r u where r: "with_store (\<lambda>now draw. Rotate now draw j JWTRefreshTTL) w = (r, u)" by fastforce
  obtain k uid where k: "r = Inr (k, uid)" and s: "sign_or_revoke L uid k u = (Inr p, t)"
    using assms(2) by (simp add: RotateRefreshToken_def bnd_def ParseToken_run cl j attempt_def r fail_def
        split: sum.splits prod.splits if_splits)
  have "gone j u" using rotate_consumes [OF assms(1)] r k by blast
  then have "gone j t" using preservesD [OF sign_gone _ s] by blast
  with cl j show ?thesis by blast
qed

section \<open>Sample libraries and states\<close>

text \<open>A key that has signed the tokens of a bootstrap at time 0 and of one refresh, and signs no others.\<close>

definition sample_jti :: "nat \<Rightarrow> string" where
  "sample_jti n = hex_encode (replicate n CHR ''a'')"

definition sample_tokens :: "(claims \<times> string) list" where
  "sample_tokens = [(access_claims 0 1, ''A''), (refresh_claims 0 (sample_jti 2), ''R2''), (refresh_claims 0 (sample_jti 3), ''R3'')]"

definition sample_lib :: auth_lib where
  "sample_lib = \<lparr>al_sign = (\<lambda>cl. case map_of sample_tokens cl of None \<Rightarrow> Inl (Opaque ''sign'') | Some t \<Rightarrow> Inr t),
     al_parse = (\<lambda>kf now tok. case map_of (map (\<lambda>(a, b). (b, a)) sample_tokens) tok of None \<Rightarrow> None
       | Some cl \<Rightarrow> (case map_of cl ''exp'' of Some (ClNum e) \<Rightarrow> if kf ''RS256'' \<and> now < e * second then Some cl else None | _ \<Rightarrow> None)),
     al_generate = (\<lambda>salt p c. Inr (CHR ''$'' # p)), al_compare = (\<lambda>h p. h = CHR ''$'' # p)\<rparr>"

definition sample_auth :: auth_world where
  "sample_auth = database.extend empty_database \<lparr>au_now = 0, au_sessions = Map.empty, au_attempts = (\<lambda>_. []),
     au_rand = (\<lambda>n. Inr (replicate (Suc n) CHR ''a'')), au_drawn = 0\<rparr>"

lemmas token_defs = sample_tokens_def access_claims_def refresh_claims_def sample_jti_def hex_encode_def
  byte_def hex_digit_def unix_def second_def minute_def JWTAccessTTL_def JWTRefreshTTL_def

lemma sample_laws: "jwt_law sample_lib" "jwt_stable sample_lib" "bcrypt_law sample_lib"
proof -
  have p: "tok \<noteq> [] \<and> map_of (map (\<lambda>(a, b). (b, a)) sample_tokens) tok = Some cl" if "(cl, tok) \<in> set sample_tokens" for cl tok
    using that by (auto simp: sample_tokens_def)
  have q: "tok \<noteq> [] \<and> map_of (map (\<lambda>(a, b). (b, a)) sample_tokens) tok = Some cl" if "al_sign sample_lib cl = Inr tok" for cl tok
    using that by (auto simp: sample_lib_def split: option.splits dest!: map_of_SomeD p)
  then show "jwt_law sample_lib"
    unfolding jwt_law_def by (auto dest!: q simp: sample_lib_def)
  show "jwt_stable sample_lib"
    by (auto simp: jwt_stable_def sample_lib_def split: option.splits claim.splits if_splits)
  show "bcrypt_law sample_lib" by (simp add: bcrypt_law_def sample_lib_def)
qed

lemma sample_auth_ok: "draws_differ sample_auth" "au_sessions sample_auth = Map.empty" "no_fault sample_auth" "schema_ok sample_auth"
proof -
  show "draws_differ sample_auth" by (auto simp: draws_differ_def sample_auth_def database.defs empty_database_def dest: arg_cong [of _ _ length])
  show "au_sessions sample_auth = Map.empty" "no_fault sample_auth"
    by (simp_all add: sample_auth_def database.defs empty_database_def no_fault_def)
  show "schema_ok sample_auth"
    by (simp add: schema_defs sample_auth_def database.defs empty_database_def empty_table_def table_ok_def)
qed

section \<open>Runs without statement failures\<close>

definition admin_hash :: "'a database_scheme \<Rightarrow> string" where
  "admin_hash d = (case db_settings d ''admin_password_hash'' of None \<Rightarrow> [] | Some h \<Rightarrow> h)"

definition put_setting :: "string \<Rightarrow> string \<Rightarrow> 'a database_scheme \<Rightarrow> 'a database_scheme" where
  "put_setting k v d = d\<lparr>db_settings := (db_settings d)(k \<mapsto> v)\<rparr>"

lemma put_setting_ok [simp]:
  "no_fault (put_setting k v d) = no_fault d" "schema_ok (put_setting k v d) = schema_ok d"
  "db_settings (put_setting k v d) = (db_settings d)(k \<mapsto> v)"
  by (simp_all add: put_setting_def no_fault_def schema_defs del: ids_ok_parts)

lemma auth_upd_ok [simp]:
  "no_fault (w\<lparr>au_sessions := s\<rparr>) = no_fault w" "schema_ok (w\<lparr>au_sessions := s\<rparr>) = schema_ok w"
  "no_fault (w\<lparr>au_drawn := n\<rparr>) = no_fault w" "schema_ok (w\<lparr>au_drawn := n\<rparr>) = schema_ok w"
  "no_fault (w\<lparr>au_attempts := a\<rparr>) = no_fault w" "schema_ok (w\<lparr>au_attempts := a\<rparr>) = schema_ok w"
  "no_fault (w\<lparr>au_now := t\<rparr>) = no_fault w" "schema_ok (w\<lparr>au_now := t\<rparr>) = schema_ok w"
  by (simp_all add: no_fault_def schema_defs del: ids_ok_parts)

lemma setting_Get_run:
  "no_fault d \<Longrightarrow> setting_Get k d = (Inr (case db_settings d k of None \<Rightarrow> [] | Some v \<Rightarrow> v), ticks 1 d)"
  by (simp add: setting_Get_def bnd_def ret_def tick_ticks)

lemma setting_Set_run:
  assumes "no_fault d" "schema_ok d"
  shows "setting_Set k v d = (Inr (), ticks 1 (put_setting k v d))"
proof -
  have "exec (\<lambda>d. ((), put_setting k v d)) d = (Inr (), ticks 1 (put_setting k v d))"
    by (rule exec_step) (use assms in \<open>simp_all add: put_setting_def ticks_def schema_defs del: ids_ok_parts\<close>)
  then show ?thesis by (simp add: setting_Set_def put_setting_def)
qed

lemma ticks_auth [simp]:
  "au_now (ticks n w) = au_now w" "au_sessions (ticks n w) = au_sessions w" "au_attempts (ticks n w) = au_attempts w"
  "au_rand (ticks n w) = au_rand w" "au_drawn (ticks n w) = au_drawn w"
  by (simp_all add: ticks_def)

lemma put_setting_auth [simp]:
  "au_now (put_setting k v w) = au_now w" "au_sessions (put_setting k v w) = au_sessions w"
  "au_attempts (put_setting k v w) = au_attempts w" "au_rand (put_setting k v w) = au_rand w"
  "au_drawn (put_setting k v w) = au_drawn w"
  by (simp_all add: put_setting_def)

text \<open>The state in which a bootstrap issues its tokens.\<close>

definition bootstrapped :: "string \<Rightarrow> 'a auth_world_scheme \<Rightarrow> 'a auth_world_scheme" where
  "bootstrapped h w = ticks 3 (put_setting ''first_run'' ''false''
     (put_setting ''admin_password_hash'' h (w\<lparr>au_drawn := Suc (au_drawn w)\<rparr>)))"

lemma Bootstrap_run:
  assumes "no_fault w" "schema_ok w"
  shows "Bootstrap L p c w =
    (if admin_hash w \<noteq> [] then (Inl ErrBootstrapDone, ticks 1 w)
     else if length p < 8 \<or> p \<noteq> c then (Inl ErrValidation, ticks 1 w)
     else case al_generate L (au_rand w (au_drawn w)) p 12 of
       Inl e \<Rightarrow> (Inl e, ticks 1 (w\<lparr>au_drawn := Suc (au_drawn w)\<rparr>))
     | Inr h \<Rightarrow> IssueTokens L (bootstrapped h w))"
proof -
  have ticks_put: "put_setting k v (ticks n d) = ticks n (put_setting k v d)"
    "ticks n w\<lparr>au_drawn := m\<rparr> = ticks n (w\<lparr>au_drawn := m\<rparr>)" for k v n m and d :: "'a auth_world_scheme"
    by (simp_all add: put_setting_def ticks_def)
  show ?thesis
  proof (cases "admin_hash w \<noteq> [] \<or> length p < 8 \<or> p \<noteq> c")
    case True
    then show ?thesis using assms by (auto simp: Bootstrap_def bnd_def setting_Get_run admin_hash_def fail_def)
  next
    case False
    then show ?thesis using assms
      by (cases "al_generate L (au_rand w (au_drawn w)) p 12")
        (simp_all add: Bootstrap_def bnd_def setting_Get_run admin_hash_def fail_def HashPassword_def setting_Set_run
          ignore_def attempt_def ret_def ticks_put bootstrapped_def numeral_3_eq_3)
  qed
qed

lemma IssueTokens_run:
  "IssueTokens L w = (case au_rand w (au_drawn w) of
     Inl e \<Rightarrow> (Inl e, w\<lparr>au_drawn := Suc (au_drawn w)\<rparr>)
   | Inr b \<Rightarrow> sign_or_revoke L 1 (hex_encode b) (w\<lparr>au_sessions := (au_sessions w)(hex_encode b \<mapsto>
        \<lparr>se_user = 1, se_created = au_now w, se_expires = au_now w + JWTRefreshTTL\<rparr>), au_drawn := Suc (au_drawn w)\<rparr>))"
  by (simp add: IssueTokens_def issuePairForUser_def ApplianceUserID_def with_store_def bnd_def CreateSession_def
      generateJTI_def split: sum.split)

lemma sign_run:
  "sign_or_revoke L u j w = (case al_sign L (access_claims (au_now w) u) of
     Inl e \<Rightarrow> (Inl e, w\<lparr>au_sessions := Revoke j (au_sessions w)\<rparr>)
   | Inr a \<Rightarrow> (case al_sign L (refresh_claims (au_now w) j) of
       Inl e \<Rightarrow> (Inl e, w\<lparr>au_sessions := Revoke j (au_sessions w)\<rparr>)
     | Inr r \<Rightarrow> (Inr (a, r), w)))"
  by (simp add: sign_or_revoke_def signTokenPair_def attempt_def bnd_def gets_def lift_def ret_def fail_def
      revoke_session_def upd_def split: sum.split)

lemma issued_signed:
  assumes "IssueTokens L w = (Inr (a, r), t)"
  shows "\<exists>b. au_rand w (au_drawn w) = Inr b \<and> al_sign L (access_claims (au_now w) 1) = Inr a
    \<and> al_sign L (refresh_claims (au_now w) (hex_encode b)) = Inr r \<and> au_now t = au_now w"
  using assms by (auto simp: IssueTokens_run sign_run split: sum.splits)

lemma access_claims_sel [simp]:
  "map_of (access_claims now u) ''exp'' = Some (ClNum (unix (now + JWTAccessTTL)))"
  "claim_str ''typ'' (access_claims now u) = Some ''access''"
  "map_of (access_claims now u) ''user_id'' = Some (ClNum u)"
  by (simp_all add: access_claims_def claim_str_def)

lemma refresh_claims_sel [simp]:
  "map_of (refresh_claims now j) ''exp'' = Some (ClNum (unix (now + JWTRefreshTTL)))"
  "claim_str ''typ'' (refresh_claims now j) = Some ''refresh''"
  "claim_str ''refresh_jti'' (refresh_claims now j) = Some j"
  by (simp_all add: refresh_claims_def claim_str_def)

lemma jwt_parse:
  assumes "jwt_law L" "al_sign L cl = Inr tok" "map_of cl ''exp'' = Some (ClNum e)"
  shows "tok \<noteq> []"
    "ParseToken L tok w = (if au_now w < e * second then (Inr cl, w) else (Inl ErrUnauthorized, w))"
  using assms unfolding jwt_law_def by (blast, fastforce simp: ParseToken_run)

section \<open>Properties\<close>

text \<open>C17: a refresh token is good for one use. However the store came about, once the token has been exchanged for a
  new pair no later exchange of it succeeds, whatever happens in between (logins, other refreshes, clean-up,
  the passing of time), as long as the random source does not deliver the same bytes twice.\<close>

theorem refresh_token_single_use:
  assumes "jwt_stable L" "draws_differ w0" "au_sessions w0 = Map.empty"
    and "RotateRefreshToken L tok (run_all L before w0) = (Inr p, w1)"
  shows "fst (RotateRefreshToken L tok (run_all L later w1)) = Inl ErrUnauthorized
    \<and> au_sessions (snd (RotateRefreshToken L tok (run_all L later w1))) = au_sessions (run_all L later w1)"
proof -
  let ?w = "run_all L before w0" and ?v = "run_all L later w1"
  have "sessions_drawn ?w"
    by (rule run_all_preserves [OF run_auth_inv(1)]) (simp add: sessions_drawn_def session_user_def assms)
  from rotated_gone [OF this assms(4)] obtain cl j where
    cl: "al_parse L (\<lambda>alg. alg = ''RS256'') (au_now ?w) tok = Some cl" "claim_str ''typ'' cl = Some ''refresh''"
      "claim_str ''refresh_jti'' cl = Some j" "j \<noteq> []" and g: "gone j w1" by blast
  have "gone j ?v" by (rule run_all_preserves [OF run_auth_inv(2) g])
  then have none: "au_sessions ?v j = None" by (simp add: gone_def session_user_def)
  show ?thesis
  proof (cases "al_parse L (\<lambda>alg. alg = ''RS256'') (au_now ?v) tok")
    case None
    then show ?thesis by (simp add: RotateRefreshToken_def bnd_def ParseToken_run)
  next
    case (Some cl')
    with cl(1) assms(1) have "cl' = cl" unfolding jwt_stable_def by blast
    with Some cl none show ?thesis
      by (simp add: RotateRefreshToken_def bnd_def ParseToken_run attempt_def with_store_def Rotate_def errors_is_def fail_def)
  qed
qed

lemma sample_signed:
  "al_sign sample_lib (access_claims 0 1) = Inr ''A''"
  "al_sign sample_lib (refresh_claims 0 (sample_jti 2)) = Inr ''R2''"
  "al_sign sample_lib (refresh_claims 0 (sample_jti 3)) = Inr ''R3''"
proof -
  have a: "access_claims 0 1 \<noteq> refresh_claims 0 j" "refresh_claims 0 j \<noteq> access_claims 0 1" for j
    by (simp_all add: access_claims_def refresh_claims_def)
  have r: "refresh_claims 0 i = refresh_claims 0 j \<longleftrightarrow> i = j" for i j
    by (simp add: refresh_claims_def)
  have "length (sample_jti n) = 2 * n" for n
    by (induction n) (simp_all add: sample_jti_def hex_encode_def)
  then have "sample_jti 3 \<noteq> sample_jti 2" by (metis num.distinct(5) numeral_eq_iff mult_cancel1 zero_neq_numeral)
  with a r show "al_sign sample_lib (access_claims 0 1) = Inr ''A''"
    "al_sign sample_lib (refresh_claims 0 (sample_jti 2)) = Inr ''R2''"
    "al_sign sample_lib (refresh_claims 0 (sample_jti 3)) = Inr ''R3''"
    by (simp_all add: sample_lib_def sample_tokens_def)
qed

lemma sample_bootstrapped_sel:
  "au_now (bootstrapped h sample_auth) = 0" "au_drawn (bootstrapped h sample_auth) = 1"
  "au_rand (bootstrapped h sample_auth) n = Inr (replicate (Suc n) CHR ''a'')" "au_sessions (bootstrapped h sample_auth) = Map.empty"
  by (simp_all add: bootstrapped_def sample_auth_def database.defs)

lemma sample_bootstrap:
  "Bootstrap sample_lib ''password'' ''password'' sample_auth =
     (Inr (''A'', ''R2''), (bootstrapped ''$password'' sample_auth)\<lparr>au_sessions := [sample_jti 2 \<mapsto>
        \<lparr>se_user = 1, se_created = 0, se_expires = JWTRefreshTTL\<rparr>], au_drawn := 2\<rparr>)"
proof -
  have g: "al_generate sample_lib x p c = Inr (CHR ''$'' # p)" for x p c by (simp add: sample_lib_def)
  have a: "admin_hash sample_auth = []"
    by (simp add: admin_hash_def sample_auth_def database.defs empty_database_def)
  have j: "hex_encode (replicate 2 CHR ''a'') = sample_jti 2" by (simp add: sample_jti_def)
  have "Bootstrap sample_lib ''password'' ''password'' sample_auth = IssueTokens sample_lib (bootstrapped ''$password'' sample_auth)"
    using sample_auth_ok by (simp add: Bootstrap_run a g)
  then show ?thesis
    by (simp add: IssueTokens_run sign_run sample_bootstrapped_sel j sample_signed numeral_2_eq_2 [symmetric]
        del: replicate.simps)
qed

definition sample_after :: auth_world where
  "sample_after = run_all sample_lib [DoBootstrap ''password'' ''password''] sample_auth"

lemma sample_after_eq: "sample_after = snd (Bootstrap sample_lib ''password'' ''password'' sample_auth)"
  by (simp add: sample_after_def run_all_def ignore_ok)

lemma sample_after_sel:
  "au_now sample_after = 0" "au_drawn sample_after = 2" "au_rand sample_after n = Inr (replicate (Suc n) CHR ''a'')"
  "au_sessions sample_after = [sample_jti 2 \<mapsto> \<lparr>se_user = 1, se_created = 0, se_expires = JWTRefreshTTL\<rparr>]"
  by (simp_all add: sample_after_eq sample_bootstrap sample_bootstrapped_sel)

lemma sample_rotate: "fst (RotateRefreshToken sample_lib ''R2'' sample_after) = Inr (''A'', ''R3'')"
proof -
  note p = jwt_parse(2) [OF sample_laws(1) sample_signed(2) refresh_claims_sel(1)]
  have j: "hex_encode (replicate 3 CHR ''a'') = sample_jti 3" "sample_jti 2 \<noteq> []"
    by (simp_all add: sample_jti_def hex_encode_def numeral_2_eq_2)
  have t: "0 < unix JWTRefreshTTL * second" "\<not> 0 > JWTRefreshTTL"
    by (simp_all add: unix_def JWTRefreshTTL_def minute_def second_def)
  show ?thesis
    by (simp add: RotateRefreshToken_def bnd_def p sample_after_sel t j attempt_def with_store_def Rotate_def
        generateJTI_def sign_run sample_signed numeral_3_eq_3 [symmetric] del: replicate.simps)
qed

theorem refresh_token_single_use_witness:
  "fst (RotateRefreshToken sample_lib ''R2'' sample_after) = Inr (''A'', ''R3'')
   \<and> fst (RotateRefreshToken sample_lib ''R2'' (run_all sample_lib [DoWait 5, DoPurge]
        (snd (RotateRefreshToken sample_lib ''R2'' sample_after)))) = Inl ErrUnauthorized"
proof -
  obtain t where r: "RotateRefreshToken sample_lib ''R2'' sample_after = (Inr (''A'', ''R3''), t)"
    using sample_rotate by (metis prod.collapse)
  from refresh_token_single_use [OF sample_laws(2) sample_auth_ok(1,2) r [unfolded sample_after_def], of "[DoWait 5, DoPurge]"]
  show ?thesis by (simp only: r fst_conv snd_conv simp_thms)
qed

text \<open>C18: the tokens a login or a bootstrap hands out. The middlewares accept the access token, as user 1, until it
  expires 15 minutes later and not after; they never accept the refresh token, and the access token cannot be
  exchanged for a new pair.\<close>

theorem issued_pair_accepted:
  assumes "jwt_law L" "IssueTokens L w = (Inr (a, r), t)"
  shows "(JWT L (Some a) v = (if au_now v < unix (au_now w + JWTAccessTTL) * second then (Inr (access_claims (au_now w) 1), v) else (Inl (http_401 ''invalid token''), v)))
    \<and> (WebSocketAuth L (Some a) v = JWT L (Some a) v)
    \<and> (me_handler L (Some a) v = (if au_now v < unix (au_now w + JWTAccessTTL) * second then (Inr 1, v) else (Inl (http_401 ''invalid token''), v)))
    \<and> (fst (JWT L (Some r) v) \<in> {Inl (http_401 ''wrong token''), Inl (http_401 ''invalid token'')})
    \<and> (fst (WebSocketAuth L (Some r) v) = Inl (http_401 ''invalid token''))
    \<and> (RotateRefreshToken L a v = (Inl ErrUnauthorized, v))"
proof -
  obtain b where s: "al_sign L (access_claims (au_now w) 1) = Inr a" "al_sign L (refresh_claims (au_now w) (hex_encode b)) = Inr r"
    using issued_signed [OF assms(2)] by blast
  note p = jwt_parse [OF assms(1) s(1) access_claims_sel(1)] jwt_parse [OF assms(1) s(2) refresh_claims_sel(1)]
  have j: "JWT L (Some a) v = (if au_now v < unix (au_now w + JWTAccessTTL) * second then (Inr (access_claims (au_now w) 1), v) else (Inl (http_401 ''invalid token''), v))"
    by (simp add: JWT_def check_access_def attempt_def p ret_def fail_def)
  have ws: "WebSocketAuth L (Some a) v = JWT L (Some a) v"
    by (simp add: WebSocketAuth_def JWT_def check_access_def attempt_def p ret_def fail_def)
  have me: "me_handler L (Some a) v = (if au_now v < unix (au_now w + JWTAccessTTL) * second then (Inr 1, v) else (Inl (http_401 ''invalid token''), v))"
    by (simp add: me_handler_def bnd_def j ClaimsFromAccess_def ret_def)
  have rf: "fst (JWT L (Some r) v) \<in> {Inl (http_401 ''wrong token''), Inl (http_401 ''invalid token'')}"
    "fst (WebSocketAuth L (Some r) v) = Inl (http_401 ''invalid token'')"
    by (simp_all add: WebSocketAuth_def JWT_def check_access_def attempt_def p fail_def)
  have ro: "RotateRefreshToken L a v = (Inl ErrUnauthorized, v)"
    by (simp add: RotateRefreshToken_def bnd_def p fail_def)
  show ?thesis using j ws me rf ro by blast
qed

theorem issued_pair_accepted_witness:
  "JWT sample_lib (Some ''A'') sample_auth = (Inr (access_claims 0 1), sample_auth)
   \<and> JWT sample_lib (Some ''A'') (sample_auth\<lparr>au_now := JWTAccessTTL\<rparr>) = (Inl (http_401 ''invalid token''), sample_auth\<lparr>au_now := JWTAccessTTL\<rparr>)"
proof -
  obtain t where i: "IssueTokens sample_lib (bootstrapped ''$password'' sample_auth) = (Inr (''A'', ''R2''), t)"
    using sample_bootstrap sample_auth_ok
    by (simp add: Bootstrap_run admin_hash_def sample_auth_def database.defs empty_database_def sample_lib_def)
  have n: "au_now sample_auth = 0" by (simp add: sample_auth_def database.defs)
  have t: "0 < unix JWTAccessTTL * second" "\<not> JWTAccessTTL < unix JWTAccessTTL * second"
    by (simp_all add: unix_def JWTAccessTTL_def minute_def second_def)
  show ?thesis
    by (simp add: issued_pair_accepted [OF sample_laws(1) i] sample_bootstrapped_sel n t)
qed

lemma sample_after_db:
  "admin_hash sample_after = ''$password''" "db_fault sample_after n = None" "au_attempts sample_after ip = []"
proof -
  have "db_fault sample_auth n = None" "au_attempts sample_auth ip = []"
    by (simp_all add: sample_auth_def database.defs empty_database_def)
  then show "admin_hash sample_after = ''$password''" "db_fault sample_after n = None" "au_attempts sample_after ip = []"
    by (simp_all add: sample_after_eq sample_bootstrap bootstrapped_def admin_hash_def put_setting_def)
qed

definition has_admin :: "'a auth_world_scheme \<Rightarrow> bool" where
  "has_admin w \<longleftrightarrow> admin_hash w \<noteq> []"

lemma has_admin_ops:
  assumes "bcrypt_law L" shows "preserves has_admin (run_auth L p)"
proof (rule auth_calls [where H = "\<lambda>h. h \<noteq> []"])
  have c: "clock_free has_admin" by (simp add: clock_free_def has_admin_def admin_hash_def)
  have s: "preserves has_admin (with_store m)" for m :: "int \<Rightarrow> go_error + string \<Rightarrow> (sessions, 'b) call"
    by (auto intro!: preservesI simp: with_store_def has_admin_def admin_hash_def split: prod.splits)
  show "preserves has_admin (with_store (\<lambda>now draw. CreateSession now draw u ttl))"
    "preserves has_admin (with_store (\<lambda>now draw. Rotate now draw k ttl))" for u k ttl
    by (auto intro!: preservesI simp: with_store_def has_admin_def admin_hash_def split: prod.splits)
  show "preserves has_admin (setting_Get n)" for n unfolding setting_Get_def by (intro preserves_intro c)
  show "preserves has_admin (setting_Set n v)" if "v \<noteq> []" for n v
    unfolding setting_Set_def by (rule preserves_exec [OF c]) (use that in \<open>simp add: has_admin_def admin_hash_def\<close>)
  show "h \<noteq> []" if "al_generate L salt p c = Inr h" for salt p c h
    using that assms unfolding bcrypt_law_def by blast
qed (auto intro!: preserves_upd preservesI simp: revoke_session_def set_attempts_def HashPassword_def has_admin_def admin_hash_def upd_def)



subsection \<open>The limit on wrong passwords\<close>

text \<open>A history of logins: the times, the client addresses, the passwords, and the outcomes.\<close>

fun logins :: "auth_lib \<Rightarrow> (int \<times> string \<times> string) list \<Rightarrow> 'a auth_world_scheme \<Rightarrow> (int \<times> string \<times> (go_error + string \<times> string)) list" where
  "logins L [] w = []"
| "logins L ((t, ip, pw) # as) w = (case Login L pw ip (w\<lparr>au_now := t\<rparr>) of (r, v) \<Rightarrow> (t, ip, r) # logins L as v)"

definition wrong_times :: "string \<Rightarrow> (int \<times> string \<times> (go_error + string \<times> string)) list \<Rightarrow> int list" where
  "wrong_times ip rs = map fst (filter (\<lambda>(t, i, r). i = ip \<and> r = Inl ErrInvalidPassword) rs)"

definition in_minute :: "int \<Rightarrow> int \<Rightarrow> bool" where
  "in_minute T t \<longleftrightarrow> T - minute < t \<and> t \<le> T"

definition few_each_minute :: "int list \<Rightarrow> bool" where
  "few_each_minute ts \<longleftrightarrow> (\<forall>T. length (filter (in_minute T) ts) \<le> 5)"

lemma few_each_minute_snoc:
  assumes "few_each_minute ts" "\<forall>s\<in>set ts. s \<le> t" "length (recent t ts) < 5"
  shows "few_each_minute (ts @ [t])"
  unfolding few_each_minute_def
proof
  fix T
  show "length (filter (in_minute T) (ts @ [t])) \<le> 5"
  proof (cases "in_minute T t")
    case False with assms(1) show ?thesis by (simp add: few_each_minute_def)
  next
    case True
    have "filter (in_minute T) ts = filter (in_minute T) (recent t ts)"
      using True assms(2) by (auto simp: recent_def in_minute_def intro!: filter_cong)
    also have "length \<dots> \<le> length (recent t ts)" by simp
    finally show ?thesis using assms(3) True by simp
  qed
qed

text \<open>What one login does, for the client's bucket and the stored password.\<close>

lemma Login_bucket:
  assumes run: "Login L pw ip w = (r, v)" and wrong: "\<not> al_compare L (admin_hash w) pw"
    and driver: "\<forall>n. db_fault w n \<noteq> Some ErrInvalidPassword"
  shows "admin_hash v = admin_hash w" "db_fault v = db_fault w" "i \<noteq> ip \<Longrightarrow> au_attempts v i = au_attempts w i"
    and "au_attempts v ip = recent (au_now w) (au_attempts w ip) @ (if r = Inl ErrInvalidPassword then [au_now w] else [])"
    and "r = Inl ErrInvalidPassword \<Longrightarrow> length (recent (au_now w) (au_attempts w ip)) < 5"
proof -
  let ?u = "w\<lparr>au_attempts := (au_attempts w)(ip := recent (au_now w) (au_attempts w ip))\<rparr>"
  let ?h = "case db_settings w ''admin_password_hash'' of None \<Rightarrow> [] | Some h \<Rightarrow> h"
  have h: "\<not> al_compare L ?h pw" using wrong by (simp add: admin_hash_def)
  have L: "Login L pw ip w =
    (if length (recent (au_now w) (au_attempts w ip)) \<ge> 5 then (Inl ErrRateLimited, ?u)
     else case db_fault w (db_clock w) of Some e \<Rightarrow> (Inl e, tick ?u)
     | None \<Rightarrow> if ?h = [] then (Inl ErrUnauthorized, tick ?u)
        else (Inl ErrInvalidPassword, (tick ?u)\<lparr>au_attempts := (au_attempts w)(ip := recent (au_now w) (au_attempts w ip) @ [au_now w])\<rparr>))"
    unfolding Login_def setting_Get_def query_def
    by (cases "db_fault w (db_clock w)")
      (simp_all add: bnd_def gets_def set_attempts_def upd_def stmt_def ret_def fail_def tick_def h)
  note u = run [unfolded L]
  show "admin_hash v = admin_hash w" "db_fault v = db_fault w" using u
    by (auto simp: admin_hash_def tick_def split: if_splits option.splits)
  show "i \<noteq> ip \<Longrightarrow> au_attempts v i = au_attempts w i" using u
    by (auto simp: tick_def split: if_splits option.splits)
  show "au_attempts v ip = recent (au_now w) (au_attempts w ip) @ (if r = Inl ErrInvalidPassword then [au_now w] else [])"
    using u driver by (auto simp: tick_def split: if_splits option.splits)
  show "r = Inl ErrInvalidPassword \<Longrightarrow> length (recent (au_now w) (au_attempts w ip)) < 5"
    using u driver by (auto split: if_splits option.splits)
qed

lemma logins_few:
  assumes "sorted (map fst as)" "\<forall>t\<in>set ts. t \<le> past" "\<forall>(t, i, pw)\<in>set as. past \<le> t"
    "\<forall>(t, i, pw)\<in>set as. \<not> al_compare L (admin_hash w) pw"
    "\<forall>n. db_fault w n \<noteq> Some ErrInvalidPassword" "few_each_minute ts"
    "\<exists>c \<le> past - minute. au_attempts w ip = filter (\<lambda>t. t > c) ts"
  shows "few_each_minute (ts @ wrong_times ip (logins L as w))"
  using assms
proof (induction as arbitrary: ts past w)
  case Nil
  then show ?case by (simp add: wrong_times_def)
next
  case (Cons a as)
  obtain t i pw where a: "a = (t, i, pw)" by (metis prod_cases3)
  obtain r v where r: "Login L pw i (w\<lparr>au_now := t\<rparr>) = (r, v)" by fastforce
  have w: "\<not> al_compare L (admin_hash (w\<lparr>au_now := t\<rparr>)) pw" "\<forall>n. db_fault (w\<lparr>au_now := t\<rparr>) n \<noteq> Some ErrInvalidPassword"
    using Cons.prems(4,5) a by (simp_all add: admin_hash_def)
  note lb = Login_bucket [OF r w]
  let ?ts = "ts @ (if i = ip \<and> r = Inl ErrInvalidPassword then [t] else [])"
  have le: "past \<le> t" "\<forall>s\<in>set ts. s \<le> t" using Cons.prems(2,3) a by force+
  obtain c where c: "c \<le> past - minute" "au_attempts w ip = filter (\<lambda>t. t > c) ts" using Cons.prems(7) by blast
  have rec: "recent t (au_attempts w ip) = recent t ts" "recent t ts = filter (\<lambda>s. s > t - minute) ts"
    using c(1) le(1) by (auto simp: recent_def c(2) intro!: filter_cong)
  have few: "few_each_minute ?ts"
    using few_each_minute_snoc [OF Cons.prems(6) le(2)] lb(5) Cons.prems(6) rec by auto
  have m: "minute > 0" by (simp add: minute_def second_def)
  have bucket: "\<exists>c \<le> t - minute. au_attempts v ip = filter (\<lambda>t. t > c) ?ts"
  proof (cases "i = ip")
    case True
    then have "au_attempts v ip = filter (\<lambda>s. s > t - minute) ?ts" using lb(4) rec m by auto
    then show ?thesis by blast
  next
    case False
    then have "au_attempts v ip = filter (\<lambda>s. s > c) ?ts" using lb(3) [of ip] c(2) by simp
    with c(1) le(1) show ?thesis by (intro exI [of _ c]) simp
  qed
  have "few_each_minute (?ts @ wrong_times ip (logins L as v))"
  proof (rule Cons.IH [where past = t])
    show "sorted (map fst as)" using Cons.prems(1) by simp
    show "\<forall>s\<in>set ?ts. s \<le> t" using le by auto
    show "\<forall>(s, i, pw)\<in>set as. t \<le> s" using Cons.prems(1) a by fastforce
    show "\<forall>(t, i, pw)\<in>set as. \<not> al_compare L (admin_hash v) pw" using Cons.prems(4) lb(1) by (auto simp: admin_hash_def)
    show "\<forall>n. db_fault v n \<noteq> Some ErrInvalidPassword" using Cons.prems(5) lb(2) by simp
  qed (rule few, rule bucket)
  moreover have "wrong_times ip (logins L (a # as) w) = (if i = ip \<and> r = Inl ErrInvalidPassword then [t] else []) @ wrong_times ip (logins L as v)"
    by (simp add: wrong_times_def a r)
  ultimately show ?case by simp
qed



end
