(* ===== verification/Routes.thy ===== *)
theory Routes
  imports TunnelLife AuthProps
begin

text \<open>
  The handlers of \<open>internal/api/mount/tunnels.go\<close>, behind the token check of \<open>middleware/jwt.go\<close>. A request
  carries its path parameters as text and its body as the outcome of echo's \<open>Bind\<close> (the error it returns, or
  the decoded value). A handler ends with an error, which \<open>ErrorHandler\<close> maps to a response, or with a reply:
  its status and the value that is written as JSON or text, if any (a handler that returns without writing
  answers 200 with an empty body).
\<close>

section \<open>Requests and replies\<close>

datatype 'b reply = Reply (rp_status: int) (rp_body: "'b option")

type_synonym 'b bound = "go_error + 'b"

definition param :: "string \<Rightarrow> ('s, int) call" where
  "param raw = lift (case ParseID64 raw of None \<Rightarrow> Inl (Opaque ''strconv.ParseInt'') | Some i \<Rightarrow> Inr i)"

definition answers :: "int \<Rightarrow> ('a \<Rightarrow> 'b) \<Rightarrow> ('s, 'a) call \<Rightarrow> ('s, 'b reply) call" where
  "answers status f m = bnd m (\<lambda>x. ret (Reply status (Some (f x))))"

definition empty_reply :: "int \<Rightarrow> ('s, 'a) call \<Rightarrow> ('s, 'b reply) call" where
  "empty_reply status m = bnd m (\<lambda>_. ret (Reply status None))"

text \<open>The status the client sees.\<close>

definition http_status :: "go_error + 'b reply \<Rightarrow> int" where
  "http_status r = (case r of Inl e \<Rightarrow> me_status (mapError e) | Inr p \<Rightarrow> rp_status p)"

text \<open>A handler of the group that \<open>middleware.JWT\<close> guards; \<open>tok\<close> is the cookie and \<open>a\<close> the state of the
  authentication service.\<close>

definition with_jwt :: "auth_lib \<Rightarrow> string option \<Rightarrow> 'x auth_world_scheme \<Rightarrow> ('s, 'r) call \<Rightarrow> ('s, 'r) call" where
  "with_jwt L tok a h w = (case fst (JWT L tok a) of Inl e \<Rightarrow> (Inl e, w) | Inr cl \<Rightarrow> h w)"

section \<open>Tunnels\<close>

datatype tunnel_body =
    BTunnels "wg_interface list" | BTunnel wg_interface
  | BSummary "(int \<times> int \<times> int \<times> int) \<times> (int \<rightharpoonup> int \<times> int) option \<times> event list"
  | BNodes "string \<times> tunnel_node list" | BStats "stat_snapshot list"
  | BPeers "wg_peer list" | BPeer wg_peer | BText string

datatype tunnel_request =
    GetTunnels
  | PostTunnel "create_tunnel bound"
  | GetSummary
  | GetTunnelBy string
  | PutTunnel string "wg_interface bound"
  | RemoveTunnel string
  | PostStart string
  | PostStop string
  | GetNodes string
  | PutNodes string "(int list \<times> string) bound"
  | GetStats string string
  | GetPeers string
  | PostPeer string "(string \<times> string \<times> string) bound"
  | GetConfig string string
  | GetMikrotik string string
  | PutPeer string string "wg_peer bound"
  | RemovePeer string string

text \<open>The wiring: the libraries, the id of the manual subscription, the host name that a client is told to
  connect to (\<open>netconf.ResolvePeerEndpointHost\<close> with the process's environment), and the time in the script.\<close>

record 'k wiring =
  wr_env :: "'k env"
  wr_manual :: int
  wr_endpoint :: "string \<Rightarrow> string"
  wr_stamp :: string

definition handle_list :: "('k, 'a, tunnel_body reply) run_call" where
  "handle_list = answers 200 BTunnels tun_List"

definition handle_create :: "'k wiring \<Rightarrow> create_tunnel bound \<Rightarrow> ('k, 'a, tunnel_body reply) run_call" where
  "handle_create W body = bnd (lift body) (\<lambda>inp. answers 201 BTunnel (CreateTunnel (wr_env W) (wr_manual W) inp))"

definition handle_summary :: "('k, 'a, tunnel_body reply) run_call" where
  "handle_summary = answers 200 BSummary StatsSummary"

definition handle_get :: "string \<Rightarrow> ('k, 'a, tunnel_body reply) run_call" where
  "handle_get raw = bnd (param raw) (\<lambda>i. answers 200 BTunnel (bnd (tun_GetByID i) (\<lambda>(iface, _). ret iface)))"

definition handle_put :: "string \<Rightarrow> wg_interface bound \<Rightarrow> ('k, 'a, tunnel_body reply) run_call" where
  "handle_put raw body = bnd (param raw) (\<lambda>i. bnd (lift body) (\<lambda>iface.
     empty_reply 200 (UpdateTunnel i (iface\<lparr>wi_id := i\<rparr>))))"

definition handle_delete :: "'k wiring \<Rightarrow> string \<Rightarrow> ('k, 'a, tunnel_body reply) run_call" where
  "handle_delete W raw = bnd (param raw) (\<lambda>i. empty_reply 200 (DeleteTunnel (wr_env W) i))"

definition handle_start :: "'k wiring \<Rightarrow> string \<Rightarrow> ('k, 'a, tunnel_body reply) run_call" where
  "handle_start W raw = bnd (param raw) (\<lambda>i. empty_reply 200 (Start (wr_env W) i))"

definition handle_stop :: "'k wiring \<Rightarrow> string \<Rightarrow> ('k, 'a, tunnel_body reply) run_call" where
  "handle_stop W raw = bnd (param raw) (\<lambda>i. empty_reply 200 (Stop (wr_env W) i))"

definition handle_nodes :: "'k wiring \<Rightarrow> string \<Rightarrow> ('k, 'a, tunnel_body reply) run_call" where
  "handle_nodes W raw = bnd (param raw) (\<lambda>i. answers 200 BNodes (GetTunnelNodes (wr_env W) i))"

definition handle_set_nodes :: "'k wiring \<Rightarrow> string \<Rightarrow> (int list \<times> string) bound \<Rightarrow> ('k, 'a, tunnel_body reply) run_call" where
  "handle_set_nodes W raw body = bnd (param raw) (\<lambda>i. bnd (lift body) (\<lambda>(ids, strategy).
     empty_reply 204 (SetTunnelNodes (wr_env W) i ids strategy)))"

definition handle_stats :: "string \<Rightarrow> string \<Rightarrow> ('k, 'a, tunnel_body reply) run_call" where
  "handle_stats raw window = bnd (param raw) (\<lambda>i. answers 200 BStats (TunnelStats i window))"

definition handle_peers :: "string \<Rightarrow> ('k, 'a, tunnel_body reply) run_call" where
  "handle_peers raw = bnd (param raw) (\<lambda>i. answers 200 BPeers (ListByInterface i))"

definition handle_create_peer :: "'k wiring \<Rightarrow> string \<Rightarrow> (string \<times> string \<times> string) bound \<Rightarrow> ('k, 'a, tunnel_body reply) run_call" where
  "handle_create_peer W raw body = bnd (param raw) (\<lambda>i. bnd (lift body) (\<lambda>(name, key, addr).
     answers 201 BPeer (peers_Create (wr_env W) i name key addr)))"

definition handle_config :: "'k wiring \<Rightarrow> string \<Rightarrow> string \<Rightarrow> ('k, 'a, tunnel_body reply) run_call" where
  "handle_config W raw praw = bnd (param raw) (\<lambda>i. bnd (param praw) (\<lambda>p.
     answers 200 BText (PeerClientConfig (wr_env W) (wr_endpoint W) i p)))"

definition handle_mikrotik :: "'k wiring \<Rightarrow> string \<Rightarrow> string \<Rightarrow> ('k, 'a, tunnel_body reply) run_call" where
  "handle_mikrotik W raw praw = bnd (param raw) (\<lambda>i. bnd (param praw) (\<lambda>p.
     answers 200 BText (PeerMikrotikScript (wr_env W) (wr_stamp W) (wr_endpoint W) i p)))"

definition handle_put_peer :: "string \<Rightarrow> string \<Rightarrow> wg_peer bound \<Rightarrow> ('k, 'a, tunnel_body reply) run_call" where
  "handle_put_peer raw praw body = bnd (param raw) (\<lambda>i. bnd (param praw) (\<lambda>p. bnd (lift body) (\<lambda>peer.
     empty_reply 200 (UpdateTunnelPeer (peer\<lparr>wp_id := p, wp_iface := i\<rparr>)))))"

definition handle_delete_peer :: "'k wiring \<Rightarrow> string \<Rightarrow> string \<Rightarrow> ('k, 'a, tunnel_body reply) run_call" where
  "handle_delete_peer W raw praw = bnd (param raw) (\<lambda>i. bnd (param praw) (\<lambda>p.
     empty_reply 200 (DeleteTunnelPeer (wr_env W) i p)))"

fun tunnel_route :: "'k wiring \<Rightarrow> tunnel_request \<Rightarrow> ('k, 'a, tunnel_body reply) run_call" where
  "tunnel_route W GetTunnels = handle_list"
| "tunnel_route W (PostTunnel b) = handle_create W b"
| "tunnel_route W GetSummary = handle_summary"
| "tunnel_route W (GetTunnelBy i) = handle_get i"
| "tunnel_route W (PutTunnel i b) = handle_put i b"
| "tunnel_route W (RemoveTunnel i) = handle_delete W i"
| "tunnel_route W (PostStart i) = handle_start W i"
| "tunnel_route W (PostStop i) = handle_stop W i"
| "tunnel_route W (GetNodes i) = handle_nodes W i"
| "tunnel_route W (PutNodes i b) = handle_set_nodes W i b"
| "tunnel_route W (GetStats i win) = handle_stats i win"
| "tunnel_route W (GetPeers i) = handle_peers i"
| "tunnel_route W (PostPeer i b) = handle_create_peer W i b"
| "tunnel_route W (GetConfig i p) = handle_config W i p"
| "tunnel_route W (GetMikrotik i p) = handle_mikrotik W i p"
| "tunnel_route W (PutPeer i p b) = handle_put_peer i p b"
| "tunnel_route W (RemovePeer i p) = handle_delete_peer W i p"

section \<open>Reading requests\<close>

text \<open>A call that changes nothing but the counter of the statements.\<close>

definition only_reads :: "('a database_scheme, 'r) call \<Rightarrow> bool" where
  "only_reads m \<longleftrightarrow> (\<forall>w. \<exists>n. snd (m w) = w\<lparr>db_clock := n\<rparr>)"

named_theorems reads_intro "calls that only read"

lemma only_readsI: "(\<And>w. \<exists>n. snd (m w) = w\<lparr>db_clock := n\<rparr>) \<Longrightarrow> only_reads m"
  by (simp add: only_reads_def)

lemma only_reads_same: "(\<And>w. snd (m w) = w) \<Longrightarrow> only_reads m"
proof (rule only_readsI)
  fix w assume "\<And>w. snd (m w) = w"
  then show "\<exists>n. snd (m w) = w\<lparr>db_clock := n\<rparr>" by (intro exI [of _ "db_clock w"]) simp
qed

lemma only_reads_basic [reads_intro]:
  "only_reads (ret x)" "only_reads (fail e)" "only_reads (gets f)" "only_reads (lift r)"
  by (rule only_reads_same, simp add: ret_def fail_def gets_def lift_def)+

lemma only_reads_query [reads_intro]: "only_reads (query f)"
  by (rule only_readsI) (auto simp: query_def stmt_def tick_def split: option.split)

lemma only_reads_bnd [reads_intro]:
  assumes "only_reads m" "\<And>x. only_reads (f x)" shows "only_reads (bnd m f)"
proof (rule only_readsI)
  fix w
  obtain n where n: "snd (m w) = w\<lparr>db_clock := n\<rparr>" using assms(1) by (auto simp: only_reads_def)
  show "\<exists>n. snd (bnd m f w) = w\<lparr>db_clock := n\<rparr>"
  proof (cases "m w")
    case (Pair r t)
    then have "snd (bnd m f w) = (case r of Inl e \<Rightarrow> t | Inr x \<Rightarrow> snd (f x t))" by (simp add: bnd_def split: sum.split)
    moreover obtain k where "case r of Inl e \<Rightarrow> True | Inr x \<Rightarrow> snd (f x t) = t\<lparr>db_clock := k\<rparr>"
      using assms(2) by (cases r) (auto simp: only_reads_def)
    ultimately show ?thesis using n Pair by (cases r) auto
  qed
qed

lemma only_reads_attempt [reads_intro]:
  assumes "only_reads m" "\<And>r. only_reads (f r)" shows "only_reads (attempt m f)"
proof (rule only_readsI)
  fix w
  obtain n where n: "snd (m w) = w\<lparr>db_clock := n\<rparr>" using assms(1) by (auto simp: only_reads_def)
  obtain k where "snd (f (fst (m w)) (snd (m w))) = (snd (m w))\<lparr>db_clock := k\<rparr>"
    using assms(2) by (auto simp: only_reads_def)
  with n show "\<exists>n. snd (attempt m f w) = w\<lparr>db_clock := n\<rparr>" by (auto simp: attempt_def split: prod.split)
qed

lemma only_reads_cases [reads_intro]:
  "only_reads m \<Longrightarrow> only_reads n \<Longrightarrow> only_reads (if b then m else n)"
  "only_reads m \<Longrightarrow> (\<And>x. only_reads (f x)) \<Longrightarrow> only_reads (case v of None \<Rightarrow> m | Some x \<Rightarrow> f x)"
  "(\<And>e. only_reads (g e)) \<Longrightarrow> (\<And>x. only_reads (h x)) \<Longrightarrow> only_reads (case u of Inl e \<Rightarrow> g e | Inr x \<Rightarrow> h x)"
  "(\<And>x y. only_reads (k x y)) \<Longrightarrow> only_reads (case p of (x, y) \<Rightarrow> k x y)"
  by (simp_all split: option.split sum.split prod.split)

lemma only_reads_repo [reads_intro]:
  "only_reads (tun_GetByID i)" "only_reads tun_List" "only_reads (tun_ListNodes i)" "only_reads (ListByInterface i)"
  "only_reads (peer_GetByID i p)" "only_reads (setting_Get k)" "only_reads DBCounts" "only_reads QueryLatestInterfaceRates"
  "only_reads (QueryInterfaceWindow i a b)" "only_reads log_List" "only_reads (param raw)"
  unfolding tun_GetByID_def tun_List_def tun_ListNodes_def ListByInterface_def peer_GetByID_def setting_Get_def DBCounts_def
    QueryLatestInterfaceRates_def QueryInterfaceWindow_def log_List_def param_def
  by (intro reads_intro)+

lemma only_reads_reply [reads_intro]: "only_reads m \<Longrightarrow> only_reads (answers c f m)"
  unfolding answers_def by (intro reads_intro)

definition read_only :: "tunnel_request \<Rightarrow> bool" where
  "read_only q = (case q of GetTunnels \<Rightarrow> True | GetSummary \<Rightarrow> True | GetTunnelBy i \<Rightarrow> True | GetNodes i \<Rightarrow> True
     | GetStats i w \<Rightarrow> True | GetPeers i \<Rightarrow> True | GetConfig i p \<Rightarrow> True | GetMikrotik i p \<Rightarrow> True | _ \<Rightarrow> False)"

lemma read_only_route: "read_only q \<Longrightarrow> only_reads (tunnel_route W q)"
proof (cases q)
  case GetSummary
  then show ?thesis by (simp add: handle_summary_def StatsSummary_def) (intro reads_intro)
next
  case (GetNodes i)
  then show ?thesis by (simp add: handle_nodes_def GetTunnelNodes_def xray_NodeHealth_def) (intro reads_intro)
next
  case (GetStats i win)
  then show ?thesis by (simp add: handle_stats_def TunnelStats_def) (intro conjI impI reads_intro)
next
  case (GetConfig i p)
  then show ?thesis by (simp add: handle_config_def PeerClientConfig_def ClientConfig_def) (intro reads_intro)
next
  case (GetMikrotik i p)
  then show ?thesis by (simp add: handle_mikrotik_def PeerMikrotikScript_def) (intro reads_intro)
qed (auto simp: read_only_def handle_list_def handle_get_def handle_peers_def intro!: reads_intro)

section \<open>Rejected requests\<close>

fun request_ids :: "tunnel_request \<Rightarrow> string list" where
  "request_ids (GetTunnelBy i) = [i]"
| "request_ids (PutTunnel i b) = [i]"
| "request_ids (RemoveTunnel i) = [i]"
| "request_ids (PostStart i) = [i]"
| "request_ids (PostStop i) = [i]"
| "request_ids (GetNodes i) = [i]"
| "request_ids (PutNodes i b) = [i]"
| "request_ids (GetStats i w) = [i]"
| "request_ids (GetPeers i) = [i]"
| "request_ids (PostPeer i b) = [i]"
| "request_ids (GetConfig i p) = [i, p]"
| "request_ids (GetMikrotik i p) = [i, p]"
| "request_ids (PutPeer i p b) = [i, p]"
| "request_ids (RemovePeer i p) = [i, p]"
| "request_ids q = []"

definition bad_id :: "tunnel_request \<Rightarrow> bool" where
  "bad_id q \<longleftrightarrow> (\<exists>raw\<in>set (request_ids q). ParseID64 raw = None)"

fun body_error :: "tunnel_request \<Rightarrow> go_error option" where
  "body_error (PostTunnel (Inl e)) = Some e"
| "body_error (PutTunnel i (Inl e)) = Some e"
| "body_error (PutNodes i (Inl e)) = Some e"
| "body_error (PostPeer i (Inl e)) = Some e"
| "body_error (PutPeer i p (Inl e)) = Some e"
| "body_error q = None"

fun success_status :: "tunnel_request \<Rightarrow> int" where
  "success_status (PostTunnel b) = 201"
| "success_status (PostPeer i b) = 201"
| "success_status (PutNodes i b) = 204"
| "success_status q = 200"

lemmas handle_defs = handle_list_def handle_create_def handle_summary_def handle_get_def handle_put_def handle_delete_def
  handle_start_def handle_stop_def handle_nodes_def handle_set_nodes_def handle_stats_def handle_peers_def
  handle_create_peer_def handle_config_def handle_mikrotik_def handle_put_peer_def handle_delete_peer_def

lemma param_run: "param raw w = (case ParseID64 raw of None \<Rightarrow> Inl (Opaque ''strconv.ParseInt'') | Some i \<Rightarrow> Inr i, w)"
  by (simp add: param_def lift_def split: option.split)

lemma bad_id_route: "bad_id q \<Longrightarrow> tunnel_route W q w = (Inl (Opaque ''strconv.ParseInt''), w)"
  by (cases q) (auto simp: bad_id_def handle_defs bnd_def param_run split: option.splits)

lemma body_error_route: "body_error q = Some e \<Longrightarrow> \<not> bad_id q \<Longrightarrow> tunnel_route W q w = (Inl e, w)"
  by (cases q rule: body_error.cases) (auto simp: bad_id_def handle_defs bnd_def param_run lift_def)

definition success :: "int \<Rightarrow> ('s, 'b reply) call \<Rightarrow> bool" where
  "success c m \<longleftrightarrow> (\<forall>w w' p. m w = (Inr p, w') \<longrightarrow> rp_status p = c)"

lemma success_intro:
  "success c (answers c f m')" "success c (empty_reply c m)"
  "(\<And>x. success c (g x)) \<Longrightarrow> success c (bnd n g)"
  "(\<And>x y. success c (k x y)) \<Longrightarrow> success c (case z of (x, y) \<Rightarrow> k x y)"
  by (auto simp: success_def answers_def empty_reply_def bnd_ok_iff ret_def split: prod.splits)

lemma route_success: "success (success_status q) (tunnel_route W q)"
  by (cases q) (auto simp: handle_defs intro!: success_intro)

lemma JWT_error:
  assumes "fst (JWT L tok a) = Inl e" shows "me_status (mapError e) = 401"
proof -
  have m: "me_status (mapError (http_401 x)) = 401" for x
    by (simp add: http_401_def mapError_def errors_as_dom_def errors_as_http_def errors_is_def)
  have "\<exists>x. e = http_401 x"
    using assms by (auto simp: JWT_def check_access_def attempt_def fail_def ret_def split: if_splits option.splits prod.splits sum.splits)
  with m show ?thesis by auto
qed

text \<open>What the token check adds to any handler.\<close>

lemma with_jwt_rejects:
  "with_jwt L tok a h w = (r, w') \<Longrightarrow> isl (fst (JWT L tok a)) \<Longrightarrow> http_status r = 401 \<and> w' = w"
  using JWT_error [of L tok a] by (cases "fst (JWT L tok a)") (auto simp: with_jwt_def http_status_def)

lemma with_jwt_passes: "with_jwt L tok a h w = (r, w') \<Longrightarrow> \<not> isl (fst (JWT L tok a)) \<Longrightarrow> h w = (r, w')"
  by (cases "fst (JWT L tok a)") (auto simp: with_jwt_def)

lemma with_jwt_reads:
  assumes "with_jwt L tok a h w = (r, w')" "only_reads h"
  shows "\<exists>n. w' = w\<lparr>db_clock := n\<rparr>"
proof (cases "isl (fst (JWT L tok a))")
  case True
  then have "w' = w" using assms(1) by (auto simp: with_jwt_def split: sum.splits)
  then show ?thesis by (intro exI [of _ "db_clock w"]) simp
next
  case False
  have "\<exists>n. snd (h w) = w\<lparr>db_clock := n\<rparr>" using assms(2) unfolding only_reads_def by blast
  then show ?thesis using with_jwt_passes [OF assms(1) False] by simp
qed

text \<open>C38: what a request to the tunnel routes may do. Without a valid access token it is answered 401 and changes
  nothing. A request that reads changes nothing but the counter of the statements, whatever it is answered. An
  id that is not a decimal 64-bit number changes nothing, and is answered 500, as is every error the mapping
  does not know; a body that does not decode changes nothing and is answered with the decoder's status. A request
  that succeeds is answered 201 when it creates, 204 for the list of nodes, and 200 otherwise.\<close>

theorem tunnel_requests:
  assumes "with_jwt L tok a (tunnel_route W q) w = (r, w')"
  shows "(if isl (fst (JWT L tok a)) then http_status r = 401 \<and> w' = w
      else (bad_id q \<longrightarrow> http_status r = 500 \<and> w' = w)
        \<and> (\<forall>e. body_error q = Some e \<and> \<not> bad_id q \<longrightarrow> http_status r = me_status (mapError e) \<and> w' = w)
        \<and> (\<not> isl r \<longrightarrow> http_status r = success_status q))
    \<and> (read_only q \<longrightarrow> (\<exists>n. w' = w\<lparr>db_clock := n\<rparr>))"
proof -
  have bad: "http_status r = 500 \<and> w' = w" if "bad_id q" "tunnel_route W q w = (r, w')"
    using bad_id_route [OF that(1), of W w] that(2)
    by (auto simp: http_status_def mapError_def errors_as_dom_def errors_as_http_def errors_is_def internal_response_def)
  have body: "http_status r = me_status (mapError e) \<and> w' = w"
    if "body_error q = Some e" "\<not> bad_id q" "tunnel_route W q w = (r, w')" for e
    using body_error_route [of q e W w] that by (auto simp: http_status_def)
  have ok: "http_status r = success_status q" if "\<not> isl r" "tunnel_route W q w = (r, w')"
    using that route_success [of q W] by (cases r) (auto simp: success_def http_status_def)
  show ?thesis
    using with_jwt_rejects [OF assms] with_jwt_passes [OF assms] with_jwt_reads [OF assms read_only_route] bad body ok by auto
qed

definition sample_wiring :: "net_view wiring" where
  "sample_wiring = \<lparr>wr_env = sample_env {}, wr_manual = 1, wr_endpoint = (\<lambda>h. h), wr_stamp = ''now''\<rparr>"

theorem tunnel_requests_witness:
  "(case with_jwt sample_lib None sample_auth (tunnel_route sample_wiring (RemoveTunnel ''1'')) sample_run of
      (r, w) \<Rightarrow> http_status r = 401 \<and> w = sample_run)
   \<and> (case with_jwt sample_lib (Some ''A'') sample_auth (tunnel_route sample_wiring (RemoveTunnel ''1x'')) sample_run of
      (r, w) \<Rightarrow> http_status r = 500 \<and> w = sample_run)"
proof -
  have j: "isl (fst (JWT sample_lib None sample_auth))" "\<not> isl (fst (JWT sample_lib (Some ''A'') sample_auth))"
    "bad_id (RemoveTunnel ''1x'')" by code_simp+
  obtain r w where 1: "with_jwt sample_lib None sample_auth (tunnel_route sample_wiring (RemoveTunnel ''1'')) sample_run = (r, w)" by fastforce
  obtain s v where 2: "with_jwt sample_lib (Some ''A'') sample_auth (tunnel_route sample_wiring (RemoveTunnel ''1x'')) sample_run = (s, v)" by fastforce
  show ?thesis unfolding 1 2 using tunnel_requests [OF 1] tunnel_requests [OF 2] j by simp
qed

end
