(* ===== verification/ApiRoutes.thy ===== *)
theory ApiRoutes
  imports Routes Subscriptions Access
begin

text \<open>
  The remaining handlers of \<open>internal/api/mount\<close>: subscriptions and manual nodes, settings, the audit log, the
  list of peers, and the guard of the WebSocket. Requests, replies and the token check are those of theory
  Routes.
\<close>

section \<open>Subscriptions (mount/subscriptions.go)\<close>

datatype sub_body =
    BSubs "subscription list" | BSub subscription | BNode vless_node | BNodeList "node_with_health list"

text \<open>The body of a manual node: a share link, or the fields of the form.\<close>

type_synonym manual_body = "string \<times> build_input option"

datatype sub_request =
    GetSubs
  | PostSub "(string \<times> string \<times> int) bound"
  | PostManual "manual_body bound"
  | PutManual string "manual_body bound"
  | RemoveManual string
  | GetSub string
  | PutSub string "subscription bound"
  | RemoveSub string
  | PostRefresh string
  | GetSubNodes string

definition manual_param :: "string \<Rightarrow> ('s, int) call" where
  "manual_param raw = (case ParseID64 raw of None \<Rightarrow> fail ErrValidation
     | Some i \<Rightarrow> if i \<le> 0 then fail ErrValidation else ret i)"

definition handle_add_sub :: "(string \<Rightarrow> fetch_result) \<Rightarrow> (string \<times> string \<times> int) bound \<Rightarrow> ('a sub_world_scheme, sub_body reply) call" where
  "handle_add_sub http body = bnd (lift body) (\<lambda>(name, url, refresh). answers 201 BSub (subs_Add http name url refresh))"

definition handle_add_manual :: "manual_body bound \<Rightarrow> ('a sub_world_scheme, sub_body reply) call" where
  "handle_add_manual body = (case body of Inl e \<Rightarrow> fail ErrValidation
     | Inr (uri, manual) \<Rightarrow> answers 201 BNode (case manual of
          Some inp \<Rightarrow> AddManualNodeStructured inp | None \<Rightarrow> AddManualVlessNode uri))"

definition handle_put_manual :: "string \<Rightarrow> manual_body bound \<Rightarrow> ('a sub_world_scheme, sub_body reply) call" where
  "handle_put_manual raw body = bnd (manual_param raw) (\<lambda>i. case body of Inl e \<Rightarrow> fail ErrValidation
     | Inr (uri, manual) \<Rightarrow> answers 200 BNode (case manual of
          Some inp \<Rightarrow> UpdateManualNodeStructured i inp | None \<Rightarrow> UpdateManualVlessNode i uri))"

definition handle_delete_manual :: "string \<Rightarrow> ('a sub_world_scheme, sub_body reply) call" where
  "handle_delete_manual raw = bnd (manual_param raw) (\<lambda>i. empty_reply 204 (DeleteManualVlessNode i))"

definition handle_get_sub :: "string \<Rightarrow> ('a sub_world_scheme, sub_body reply) call" where
  "handle_get_sub raw = bnd (param raw) (\<lambda>i. answers 200 BSub (sub_GetByID i))"

definition handle_put_sub :: "string \<Rightarrow> subscription bound \<Rightarrow> ('a sub_world_scheme, sub_body reply) call" where
  "handle_put_sub raw body = bnd (param raw) (\<lambda>i. bnd (lift body) (\<lambda>su. empty_reply 200 (sub_Update (su\<lparr>sub_id := i\<rparr>))))"

definition handle_delete_sub :: "string \<Rightarrow> ('a sub_world_scheme, sub_body reply) call" where
  "handle_delete_sub raw = bnd (param raw) (\<lambda>i. empty_reply 200 (subs_Delete i))"

definition handle_refresh :: "(string \<Rightarrow> fetch_result) \<Rightarrow> string \<Rightarrow> ('a sub_world_scheme, sub_body reply) call" where
  "handle_refresh http raw = bnd (param raw) (\<lambda>i. empty_reply 200 (FetchAndUpdate http i))"

definition handle_sub_nodes :: "(int \<rightharpoonup> bool \<times> int) \<Rightarrow> string \<Rightarrow> ('a sub_world_scheme, sub_body reply) call" where
  "handle_sub_nodes health raw = bnd (param raw) (\<lambda>i. answers 200 BNodeList (api_ListNodes health i))"

fun sub_route :: "(string \<Rightarrow> fetch_result) \<Rightarrow> (int \<rightharpoonup> bool \<times> int) \<Rightarrow> sub_request \<Rightarrow> ('a sub_world_scheme, sub_body reply) call" where
  "sub_route http health GetSubs = answers 200 BSubs sub_List"
| "sub_route http health (PostSub b) = handle_add_sub http b"
| "sub_route http health (PostManual b) = handle_add_manual b"
| "sub_route http health (PutManual i b) = handle_put_manual i b"
| "sub_route http health (RemoveManual i) = handle_delete_manual i"
| "sub_route http health (GetSub i) = handle_get_sub i"
| "sub_route http health (PutSub i b) = handle_put_sub i b"
| "sub_route http health (RemoveSub i) = handle_delete_sub i"
| "sub_route http health (PostRefresh i) = handle_refresh http i"
| "sub_route http health (GetSubNodes i) = handle_sub_nodes health i"

section \<open>Settings, audit log and peers (mount/settings.go, audit.go, peers.go)\<close>

definition handle_get_settings :: "('a database_scheme, string reply) call" where
  "handle_get_settings = answers 200 (\<lambda>h. h) GetServerHost"

definition handle_put_settings :: "string bound \<Rightarrow> ('a database_scheme, string reply) call" where
  "handle_put_settings body = bnd (lift body) (\<lambda>h. empty_reply 200 (SetServerHost h))"

definition handle_password :: "auth_lib \<Rightarrow> (string \<times> string) bound \<Rightarrow> ('a auth_world_scheme, string reply) call" where
  "handle_password L body = (case body of Inl e \<Rightarrow> fail ErrValidation
     | Inr (old, new) \<Rightarrow> empty_reply 200 (ChangeAdminPassword L old new))"

definition handle_export :: "('a database_scheme, json reply) call" where
  "handle_export = answers 200 (\<lambda>j. j) ExportMinimal"

text \<open>\<open>ReadLimitedBody\<close>: at most \<open>n\<close> bytes of the body, when it can be read.\<close>

definition ReadLimitedBody :: "string bound \<Rightarrow> nat \<Rightarrow> go_error + string" where
  "ReadLimitedBody body n = (case body of Inl e \<Rightarrow> Inl e | Inr b \<Rightarrow> Inr (take n b))"

definition raw_of_text :: "string \<Rightarrow> raw_json" where
  "raw_of_text s = (if s = [] then RawEmpty else case json_parse s of None \<Rightarrow> RawCorrupt | Some j \<Rightarrow> RawDoc j)"

definition handle_import :: "(string \<Rightarrow> fetch_result) \<Rightarrow> string bound \<Rightarrow> ('a sub_world_scheme, string reply) call" where
  "handle_import http body = bnd (lift (ReadLimitedBody body 1048576)) (\<lambda>b. empty_reply 200 (ImportMinimal http (raw_of_text b)))"

text \<open>\<open>n, _ := strconv.Atoi(s)\<close>: a number out of range is the nearest end of the range, anything else that is not a
  number is 0.\<close>

definition atoi_or_zero :: "string \<Rightarrow> int" where
  "atoi_or_zero s = (case atoi s of Some n \<Rightarrow> n | None \<Rightarrow>
     (let neg = (s \<noteq> [] \<and> hd s = CHR ''-''); body = (if s \<noteq> [] \<and> (hd s = CHR ''-'' \<or> hd s = CHR ''+'') then tl s else s)
      in if body = [] then 0 else case digits_val 0 body of
           None \<Rightarrow> 0 | Some n \<Rightarrow> if neg then - (2 ^ 63) else 2 ^ 63 - 1))"

definition handle_audit :: "string \<Rightarrow> string \<Rightarrow> string \<Rightarrow> string \<Rightarrow> ('a database_scheme, (audit_row list \<times> int) reply) call" where
  "handle_audit level search limit offset = answers 200 (\<lambda>p. p) (audit_List
     \<lparr>af_level = level, af_search = search, af_limit = atoi_or_zero limit, af_offset = atoi_or_zero offset\<rparr>)"

definition handle_all_peers :: "('a database_scheme, (wg_peer \<times> string) list reply) call" where
  "handle_all_peers = answers 200 (\<lambda>l. l) ListAllWithTunnel"

section \<open>The WebSocket (mount/websocket.go)\<close>

text \<open>The upgrade: a valid access token, claims that name the user, and an allowed origin (the upgrader answers
  403 otherwise). The result is the user id; \<open>Hub.Register\<close> (theory Hub) follows.\<close>

definition websocket_guard :: "auth_lib \<Rightarrow> string set \<Rightarrow> string option \<Rightarrow> string \<Rightarrow> ('a, int) auth_call" where
  "websocket_guard L allowed cookie origin = bnd (WebSocketAuth L cookie) (\<lambda>cl.
     case ClaimsFromAccess (Some cl) of
       None \<Rightarrow> fail (http_401 ''invalid token'')
     | Some u \<Rightarrow> if AllowOrigin allowed origin then ret u else fail (HTTPErr 403 MsgNil None))"

section \<open>Properties\<close>

lemma only_reads_subs [reads_intro]:
  "only_reads sub_List" "only_reads (sub_GetByID i)" "only_reads (ListNodes i)" "only_reads (api_ListNodes health i)"
  "only_reads (audit_List f)" "only_reads ListAllWithTunnel" "only_reads ExportMinimal"
  unfolding sub_List_def sub_GetByID_def ListNodes_def api_ListNodes_def audit_List_def ListAllWithTunnel_def ExportMinimal_def
  by (intro reads_intro)+

text \<open>The other reading handlers.\<close>

lemma only_reads_handlers:
  "only_reads handle_get_settings" "only_reads handle_export" "only_reads (handle_audit l s n k)" "only_reads handle_all_peers"
  unfolding handle_get_settings_def GetServerHost_def handle_export_def handle_audit_def handle_all_peers_def
  by (intro reads_intro)+

definition sub_reads :: "sub_request \<Rightarrow> bool" where
  "sub_reads q = (case q of GetSubs \<Rightarrow> True | GetSub i \<Rightarrow> True | GetSubNodes i \<Rightarrow> True | _ \<Rightarrow> False)"

text \<open>The error of a request that is rejected before the use case is called.\<close>

definition bad_param :: "string \<Rightarrow> go_error option" where
  "bad_param raw = (if ParseID64 raw = None then Some (Opaque ''strconv.ParseInt'') else None)"

definition bad_manual :: "string \<Rightarrow> go_error option" where
  "bad_manual raw = (case ParseID64 raw of None \<Rightarrow> Some ErrValidation | Some i \<Rightarrow> if i \<le> 0 then Some ErrValidation else None)"

fun sub_rejected :: "sub_request \<Rightarrow> go_error option" where
  "sub_rejected (PostSub (Inl e)) = Some e"
| "sub_rejected (PostManual (Inl e)) = Some ErrValidation"
| "sub_rejected (PutManual i b) = (if bad_manual i = None \<and> isl b then Some ErrValidation else bad_manual i)"
| "sub_rejected (RemoveManual i) = bad_manual i"
| "sub_rejected (GetSub i) = bad_param i"
| "sub_rejected (PutSub i b) = (case bad_param i of Some e \<Rightarrow> Some e | None \<Rightarrow> (case b of Inl e \<Rightarrow> Some e | Inr s \<Rightarrow> None))"
| "sub_rejected (RemoveSub i) = bad_param i"
| "sub_rejected (PostRefresh i) = bad_param i"
| "sub_rejected (GetSubNodes i) = bad_param i"
| "sub_rejected q = None"

fun sub_status_of :: "sub_request \<Rightarrow> int" where
  "sub_status_of (PostSub b) = 201"
| "sub_status_of (PostManual b) = 201"
| "sub_status_of (RemoveManual i) = 204"
| "sub_status_of q = 200"

lemmas sub_handle_defs = handle_add_sub_def handle_add_manual_def handle_put_manual_def handle_delete_manual_def handle_get_sub_def
  handle_put_sub_def handle_delete_sub_def handle_refresh_def handle_sub_nodes_def

lemma sub_reads_route: "sub_reads q \<Longrightarrow> only_reads (sub_route http health q)"
  by (cases q) (auto simp: sub_reads_def sub_handle_defs intro!: reads_intro)

lemma sub_rejected_route: "sub_rejected q = Some e \<Longrightarrow> sub_route http health q w = (Inl e, w)"
  by (cases q rule: sub_rejected.cases)
    (auto simp: sub_handle_defs bad_param_def bad_manual_def manual_param_def bnd_def param_run lift_def fail_def ret_def
      split: option.splits if_splits sum.splits)

lemma success_cases:
  "success c (fail e)" "(\<And>x. success c (h x)) \<Longrightarrow> success c (case u of Inl e \<Rightarrow> fail e' | Inr x \<Rightarrow> h x)"
  by (auto simp: success_def fail_def split: sum.splits)

lemma sub_success: "success (sub_status_of q) (sub_route http health q)"
  by (cases q) (auto simp: sub_handle_defs intro!: success_intro success_cases)

text \<open>C39: the same for the routes of the subscriptions and the manual nodes: 401 and no change without a valid
  token; a reading request changes nothing but the counter of the statements; a malformed id is answered 500 on
  the subscriptions, but a malformed id, an id that is not positive, and an undecodable body 400 on the manual
  nodes, and none of them changes anything; and the statuses of the requests that succeed.\<close>

theorem subscription_requests:
  assumes "with_jwt L tok a (sub_route http health q) w = (r, w')"
  shows "(if isl (fst (JWT L tok a)) then http_status r = 401 \<and> w' = w
      else (\<forall>e. sub_rejected q = Some e \<longrightarrow> http_status r = me_status (mapError e) \<and> w' = w)
        \<and> (\<not> isl r \<longrightarrow> http_status r = sub_status_of q))
    \<and> (sub_reads q \<longrightarrow> (\<exists>n. w' = w\<lparr>db_clock := n\<rparr>))
    \<and> me_status (mapError ErrValidation) = 400 \<and> me_status (mapError (Opaque ''strconv.ParseInt'')) = 500"
proof -
  have codes: "me_status (mapError ErrValidation) = 400" "me_status (mapError (Opaque ''strconv.ParseInt'')) = 500"
    by code_simp+
  have rej: "http_status r = me_status (mapError e) \<and> w' = w"
    if "sub_rejected q = Some e" "sub_route http health q w = (r, w')" for e
    using sub_rejected_route [OF that(1), of http health w] that(2) by (auto simp: http_status_def)
  have ok: "http_status r = sub_status_of q" if "\<not> isl r" "sub_route http health q w = (r, w')"
    using that sub_success [of q http health] by (cases r) (auto simp: success_def http_status_def)
  show ?thesis
    using with_jwt_rejects [OF assms] with_jwt_passes [OF assms] with_jwt_reads [OF assms sub_reads_route] rej ok codes by auto
qed

definition sample_subs :: sub_world where
  "sample_subs = log_world.extend (log_of sample_db) \<lparr>sv_stopped = Map.empty, sv_live = [], sv_next = 0\<rparr>"

theorem subscription_requests_witness:
  "case with_jwt sample_lib (Some ''A'') sample_auth (sub_route (\<lambda>u. Body []) Map.empty (RemoveManual ''-3'')) sample_subs of
     (r, w) \<Rightarrow> http_status r = 400 \<and> w = sample_subs"
proof -
  have j: "\<not> isl (fst (JWT sample_lib (Some ''A'') sample_auth))" "sub_rejected (RemoveManual ''-3'') = Some ErrValidation"
    by code_simp+
  obtain r w where 1: "with_jwt sample_lib (Some ''A'') sample_auth (sub_route (\<lambda>u. Body []) Map.empty (RemoveManual ''-3'')) sample_subs = (r, w)" by fastforce
  show ?thesis unfolding 1 using subscription_requests [OF 1] j by simp
qed

end
