(* ===== verification/Migration.thy ===== *)
theory Migration
  imports TunnelRepo LinkText
begin

text \<open>
  The whole of \<open>AutoMigrate\<close> (\<open>models.go\<close>), which runs at every start of the process: gorm's own migration
  (a parameter: it issues statements, creates what is missing and deletes nothing), the backfill of the
  junction table (theory TunnelRepo), the backfill of the JSON columns of the nodes from their links, and
  the removal of the flat columns that the JSON columns replaced. A \<open>disk\<close> is a database together with the
  columns that the table of the nodes has (\<open>pragma_table_info\<close>).
\<close>

section \<open>The code\<close>

definition needs_backfill :: "vless_node \<Rightarrow> bool" where
  "needs_backfill r \<longleftrightarrow> vn_transport r \<in> {RawEmpty, RawDoc (JObj [])} \<or> vn_sec_config r \<in> {RawEmpty, RawDoc (JObj [])}"

definition set_configs :: "vless_node \<Rightarrow> vless_node \<Rightarrow> vless_node" where
  "set_configs p r = r\<lparr>vn_network := vn_network p, vn_security := vn_security p, vn_flow := vn_flow p,
     vn_encryption := vn_encryption p, vn_packet := vn_packet p, vn_transport := vn_transport p,
     vn_sec_config := vn_sec_config p\<rparr>"

definition backfill_config :: "vless_node \<Rightarrow> ('a database_scheme, unit) call" where
  "backfill_config r = (if trim_space (vn_raw r) = [] then ret ()
     else case ParseURI (vn_raw r) of
       Inl e \<Rightarrow> ret ()
     | Inr p \<Rightarrow> exec (\<lambda>d. ((), d\<lparr>db_nodes := t_update (\<lambda>q. vn_id q = vn_id r) (set_configs p) (db_nodes d)\<rparr>)))"

definition backfillVlessNodeConfigs :: "('a database_scheme, unit) call" where
  "backfillVlessNodeConfigs = bnd (query (\<lambda>d. t_select needs_backfill (db_nodes d))) (for_each backfill_config)"

record disk = database +
  dk_columns :: "string list"

definition legacy_columns :: "string list" where
  "legacy_columns = [''sni'', ''fingerprint'', ''public_key'', ''short_id'', ''spider_x'', ''alpn'']"

definition columnExists :: "string \<Rightarrow> ('a disk_scheme, bool) call" where
  "columnExists c = attempt (query (\<lambda>d. length (filter (\<lambda>x. x = c) (dk_columns d))))
     (\<lambda>r. ret (case r of Inl e \<Rightarrow> False | Inr n \<Rightarrow> 0 < n))"

definition drop_column :: "string \<Rightarrow> ('a disk_scheme, unit) call" where
  "drop_column c = exec (\<lambda>d. ((), d\<lparr>dk_columns := filter (\<lambda>x. x \<noteq> c) (dk_columns d)\<rparr>))"

definition AutoMigrate :: "('a disk_scheme, unit) call \<Rightarrow> ('a disk_scheme, unit) call" where
  "AutoMigrate gorm = bnd gorm (\<lambda>_. bnd migrate_tnodes (\<lambda>_. bnd backfillVlessNodeConfigs (\<lambda>_.
     for_each (\<lambda>c. bnd (columnExists c) (\<lambda>b. if b then ignore (drop_column c) else ret ())) legacy_columns)))"

section \<open>What it does to the rows\<close>

text \<open>The abstract description: one function on each row of the nodes.\<close>

definition relinked :: "vless_node \<Rightarrow> vless_node" where
  "relinked r = (if trim_space (vn_raw r) = [] then r
     else case ParseURI (vn_raw r) of Inl e \<Rightarrow> r | Inr p \<Rightarrow> set_configs p r)"

definition migrated :: "vless_node \<Rightarrow> vless_node" where
  "migrated r = (if needs_backfill r then relinked r else r)"

text \<open>A row whose columns a tunnel can be started from: both names resolve and both columns decode.\<close>

definition columns_typed :: "vless_node \<Rightarrow> bool" where
  "columns_typed r = (case (transport_Resolve (vn_network r), security_Resolve (vn_security r)) of
     (Inr tr, Inr sec) \<Rightarrow> (case (tr_DecodeSpec tr (vn_transport r), sec_DecodeSpec sec (vn_sec_config r)) of
        (Inr t, Inr s) \<Rightarrow> tr_Validate t = None \<and> sec_Validate s = None
      | _ \<Rightarrow> False)
   | _ \<Rightarrow> False)"

lemma set_configs_sel [simp]:
  "vn_id (set_configs p r) = vn_id r" "vn_raw (set_configs p r) = vn_raw r" "vn_sub (set_configs p r) = vn_sub r"
  "vn_display (set_configs p r) = vn_display r" "vn_address (set_configs p r) = vn_address r"
  "vn_port (set_configs p r) = vn_port r" "vn_uuid (set_configs p r) = vn_uuid r" "vn_created (set_configs p r) = vn_created r"
  "set_configs p (set_configs q r) = set_configs p r"
  by (simp_all add: set_configs_def)

lemma relinked_sel [simp]: "vn_id (relinked r) = vn_id r" "vn_raw (relinked r) = vn_raw r" "vn_sub (relinked r) = vn_sub r"
  by (auto simp: relinked_def split: sum.splits)

lemma migrated_sel [simp]: "vn_id (migrated r) = vn_id r" "vn_raw (migrated r) = vn_raw r" "vn_sub (migrated r) = vn_sub r"
  by (auto simp: migrated_def)

lemma relinked_idem [simp]: "relinked (relinked r) = relinked r"
  by (cases "ParseURI (vn_raw r)") (simp_all add: relinked_def)

lemma migrated_idem [simp]: "migrated (migrated r) = migrated r"
  by (simp add: migrated_def)

lemma relinked_typed:
  assumes "trim_space (vn_raw r) \<noteq> []" "ParseURI (vn_raw r) = Inr p"
  shows "columns_typed (relinked r)"
  using assms ParseURI_stored [OF assms(2)]
  by (auto simp: relinked_def columns_typed_def set_configs_def resolve_names)

section \<open>A run without a failing statement\<close>

definition set_nodes :: "vless_node table \<Rightarrow> 'a database_scheme \<Rightarrow> 'a database_scheme" where
  "set_nodes t d = d\<lparr>db_nodes := t\<rparr>"

lemma set_nodes_sel [simp]:
  "db_nodes (set_nodes t d) = t" "no_fault (set_nodes t d) = no_fault d" "set_nodes t (ticks k d) = ticks k (set_nodes t d)"
  "set_nodes t (set_nodes u d) = set_nodes t d" "set_nodes (db_nodes d) d = d" "db_ifaces (set_nodes t d) = db_ifaces d"
  "db_tnodes (set_nodes t d) = db_tnodes d" "db_peers (set_nodes t d) = db_peers d" "db_subs (set_nodes t d) = db_subs d"
  by (simp_all add: set_nodes_def no_fault_def ticks_def)

lemma set_nodes_schema:
  assumes "schema_ok d" "\<And>r. vn_id (f r) = vn_id r"
  shows "schema_ok (set_nodes (t_update P f (db_nodes d)) d)"
proof -
  let ?t = "t_update P f (db_nodes d)"
  have h: "has_id vn_id ?t i = has_id vn_id (db_nodes d) i" for i
    by (rule has_id_update) (rule assms(2))
  then have r: "ref_ok vn_id ?t v = ref_ok vn_id (db_nodes d) v" for v
    by (simp add: ref_ok_def split: option.split)
  have "table_ok vn_id ?t"
    by (rule table_ok_update) (use assms in \<open>simp_all add: schema_ok_def\<close>)
  then show ?thesis
    using assms(1) by (simp add: set_nodes_def schema_ok_def iface_refs_ok_def peer_refs_ok_def tnode_refs_ok_def unique_ok_def
      ids_ok_def h r del: ids_ok_parts)
qed

definition config_step :: "vless_node \<Rightarrow> vless_node table \<Rightarrow> vless_node table" where
  "config_step r t = (if trim_space (vn_raw r) = [] then t
     else case ParseURI (vn_raw r) of Inl e \<Rightarrow> t | Inr p \<Rightarrow> t_update (\<lambda>q. vn_id q = vn_id r) (set_configs p) t)"

lemma backfill_config_run:
  assumes "no_fault d" "schema_ok d"
  shows "\<exists>k. backfill_config r d = (Inr (), ticks k (set_nodes (config_step r (db_nodes d)) d))
    \<and> schema_ok (set_nodes (config_step r (db_nodes d)) d)"
proof (cases "trim_space (vn_raw r) = [] \<or> (\<exists>e. ParseURI (vn_raw r) = Inl e)")
  case True
  then have "backfill_config r d = (Inr (), ticks 0 d)" "config_step r (db_nodes d) = db_nodes d"
    by (auto simp: backfill_config_def config_step_def ret_def)
  then show ?thesis using assms(2) by (intro exI [of _ 0]) simp
next
  case False
  then obtain p where p: "trim_space (vn_raw r) \<noteq> []" "ParseURI (vn_raw r) = Inr p" by (cases "ParseURI (vn_raw r)") auto
  let ?f = "\<lambda>d. d\<lparr>db_nodes := t_update (\<lambda>q. vn_id q = vn_id r) (set_configs p) (db_nodes d)\<rparr>"
  have s: "schema_ok (set_nodes (t_update (\<lambda>q. vn_id q = vn_id r) (set_configs p) (db_nodes d)) d)"
    by (rule set_nodes_schema [OF assms(2)]) simp
  then have "exec (\<lambda>d. ((), ?f d)) d = (Inr (), ticks 1 (?f d))"
    using assms(1) by (intro exec_step) (simp_all add: set_nodes_def ticks_def)
  with p s show ?thesis
    by (intro exI [of _ 1]) (simp add: backfill_config_def config_step_def set_nodes_def)
qed

lemma backfill_loop:
  assumes "no_fault d" "schema_ok d"
  shows "\<exists>k. for_each backfill_config rs d = (Inr (), ticks k (set_nodes (fold config_step rs (db_nodes d)) d))
    \<and> schema_ok (set_nodes (fold config_step rs (db_nodes d)) d)"
  using assms
proof (induction rs arbitrary: d)
  case Nil
  then show ?case by (intro exI [of _ 0]) (simp add: ret_def)
next
  case (Cons r rs)
  let ?d = "set_nodes (config_step r (db_nodes d)) d"
  obtain k where k: "backfill_config r d = (Inr (), ticks k ?d)" "schema_ok ?d"
    using backfill_config_run [OF Cons.prems] by blast
  obtain m where "for_each backfill_config rs (ticks k ?d)
      = (Inr (), ticks m (set_nodes (fold config_step rs (db_nodes (ticks k ?d))) (ticks k ?d)))"
    "schema_ok (set_nodes (fold config_step rs (db_nodes (ticks k ?d))) (ticks k ?d))"
    using Cons.IH [of "ticks k ?d"] Cons.prems k(2) by auto
  moreover have "bnd (backfill_config r) f d = f () (ticks k ?d)" for f :: "unit \<Rightarrow> ('a database_scheme, unit) call"
    by (rule bnd_Inr) (rule k(1))
  ultimately show ?case by (intro exI [of _ "k + m"]) simp
qed

text \<open>Rows that share an id share their link, so that each row gets its own link's columns.\<close>

lemma config_step_rows:
  assumes "\<forall>q\<in>set (t_rows t). vn_id q = vn_id r \<longrightarrow> vn_raw q = vn_raw r"
  shows "config_step r t = t\<lparr>t_rows := map (\<lambda>q. if vn_id q = vn_id r then relinked q else q) (t_rows t)\<rparr>"
proof (cases "trim_space (vn_raw r) = [] \<or> (\<exists>e. ParseURI (vn_raw r) = Inl e)")
  case True
  then have "relinked q = q" if "q \<in> set (t_rows t)" "vn_id q = vn_id r" for q
    using assms that by (auto simp: relinked_def)
  then have "map (\<lambda>q. if vn_id q = vn_id r then relinked q else q) (t_rows t) = t_rows t"
    by (intro map_idI) simp
  moreover have "config_step r t = t" using True by (auto simp: config_step_def)
  ultimately show ?thesis by simp
next
  case False
  then obtain p where p: "trim_space (vn_raw r) \<noteq> []" "ParseURI (vn_raw r) = Inr p" by (cases "ParseURI (vn_raw r)") auto
  then have "relinked q = set_configs p q" if "q \<in> set (t_rows t)" "vn_id q = vn_id r" for q
    using assms that by (simp add: relinked_def)
  then have "map (\<lambda>q. if vn_id q = vn_id r then relinked q else q) (t_rows t)
      = map (\<lambda>q. if vn_id q = vn_id r then set_configs p q else q) (t_rows t)"
    by (intro map_cong) simp_all
  with p show ?thesis by (simp add: config_step_def t_update_def)
qed

lemma config_fold_rows:
  assumes "\<forall>r\<in>set rs. \<forall>q\<in>set (t_rows t). vn_id q = vn_id r \<longrightarrow> vn_raw q = vn_raw r"
  shows "fold config_step rs t = t\<lparr>t_rows := map (\<lambda>q. if vn_id q \<in> vn_id ` set rs then relinked q else q) (t_rows t)\<rparr>"
  using assms
proof (induction rs arbitrary: t)
  case (Cons r rs)
  let ?t = "t\<lparr>t_rows := map (\<lambda>q. if vn_id q = vn_id r then relinked q else q) (t_rows t)\<rparr>"
  have "config_step r t = ?t" by (rule config_step_rows) (use Cons.prems in simp)
  moreover have "fold config_step rs ?t
      = ?t\<lparr>t_rows := map (\<lambda>q. if vn_id q \<in> vn_id ` set rs then relinked q else q) (t_rows ?t)\<rparr>"
    by (rule Cons.IH) (use Cons.prems in auto)
  ultimately show ?case by simp
qed simp

lemma backfill_run:
  assumes "no_fault d" "schema_ok d"
  shows "\<exists>k. backfillVlessNodeConfigs d = (Inr (), ticks k (set_nodes (t_update (\<lambda>_. True) migrated (db_nodes d)) d))"
proof -
  let ?rs = "t_select needs_backfill (db_nodes d)"
  have t: "table_ok vn_id (db_nodes d)" using assms(2) by (simp add: schema_ok_def)
  have "fold config_step ?rs (db_nodes d) =
      (db_nodes d)\<lparr>t_rows := map (\<lambda>q. if vn_id q \<in> vn_id ` set ?rs then relinked q else q) (t_rows (db_nodes d))\<rparr>"
    by (rule config_fold_rows) (auto simp: t_select_def dest: table_ok_inj [OF t])
  moreover have "(if vn_id q \<in> vn_id ` set ?rs then relinked q else q) = migrated q" if "q \<in> set (t_rows (db_nodes d))" for q
  proof -
    have "vn_id q \<in> vn_id ` set ?rs \<longleftrightarrow> needs_backfill q"
      using that table_ok_inj [OF t, of q] by (auto simp: t_select_def)
    then show ?thesis by (simp add: migrated_def)
  qed
  ultimately have f: "fold config_step ?rs (db_nodes d) = t_update (\<lambda>_. True) migrated (db_nodes d)"
    by (simp add: t_update_def cong: map_cong)
  obtain k where "for_each backfill_config ?rs (ticks 1 d)
      = (Inr (), ticks k (set_nodes (fold config_step ?rs (db_nodes (ticks 1 d))) (ticks 1 d)))"
    using backfill_loop [of "ticks 1 d" ?rs] assms by auto
  then show ?thesis
    using assms(1) f by (intro exI [of _ "Suc k"]) (simp add: backfillVlessNodeConfigs_def bnd_def query_step del: no_fault_query)
qed

definition drop_columns :: "string set \<Rightarrow> 'a disk_scheme \<Rightarrow> 'a disk_scheme" where
  "drop_columns cs d = d\<lparr>dk_columns := filter (\<lambda>x. x \<notin> cs) (dk_columns d)\<rparr>"

lemma drop_columns_sel [simp]:
  "dk_columns (drop_columns cs d) = filter (\<lambda>x. x \<notin> cs) (dk_columns d)" "no_fault (drop_columns cs d) = no_fault d"
  "schema_ok (drop_columns cs d) = schema_ok d" "drop_columns cs (ticks k d) = ticks k (drop_columns cs d)"
  "db_nodes (drop_columns cs d) = db_nodes d" "db_ifaces (drop_columns cs d) = db_ifaces d"
  "db_tnodes (drop_columns cs d) = db_tnodes d" "db_peers (drop_columns cs d) = db_peers d"
  "dk_columns (ticks k d) = dk_columns d" "dk_columns (set_nodes t d) = dk_columns d"
  by (simp_all add: drop_columns_def set_nodes_def no_fault_def ticks_def schema_defs del: ids_ok_parts)

lemma drop_columns_drop: "drop_columns cs (drop_columns bs d) = drop_columns (bs \<union> cs) d"
  by (simp add: drop_columns_def conj_commute)

lemma drop_columns_none: "set (dk_columns d) \<inter> cs = {} \<Longrightarrow> drop_columns cs d = d"
proof -
  assume "set (dk_columns d) \<inter> cs = {}"
  then have "filter (\<lambda>x. x \<notin> cs) (dk_columns d) = dk_columns d" by (auto simp: filter_id_conv)
  then show ?thesis by (simp add: drop_columns_def)
qed

lemma drop_column_run: "no_fault d \<Longrightarrow> schema_ok d \<Longrightarrow> drop_column c d = (Inr (), ticks 1 (drop_columns {c} d))"
  using exec_step [of d "drop_columns {c}" "\<lambda>_. ()"] by (simp add: drop_column_def) (simp add: drop_columns_def)

lemma columns_run:
  assumes "no_fault d" "schema_ok d"
  shows "\<exists>k. for_each (\<lambda>c. bnd (columnExists c) (\<lambda>b. if b then ignore (drop_column c) else ret ())) cs d
    = (Inr (), ticks k (drop_columns (set cs) d))"
  using assms
proof (induction cs arbitrary: d)
  case Nil
  then show ?case by (intro exI [of _ 0]) (simp add: ret_def drop_columns_none)
next
  case (Cons c cs)
  let ?step = "\<lambda>c. bnd (columnExists c) (\<lambda>b. if b then ignore (drop_column c) else ret ())"
  have e: "columnExists c d = (Inr (c \<in> set (dk_columns d)), ticks 1 d)"
    using Cons.prems(1) by (auto simp: columnExists_def attempt_def query_step ret_def filter_empty_conv simp del: no_fault_query)
  have "\<exists>k. ?step c d = (Inr (), ticks k (drop_columns {c} d))"
  proof (cases "c \<in> set (dk_columns d)")
    case True
    then show ?thesis using Cons.prems by (intro exI [of _ 2]) (simp add: bnd_def e ignore_ok drop_column_run numeral_2_eq_2)
  next
    case False
    then show ?thesis by (intro exI [of _ 1]) (simp add: bnd_def e ret_def drop_columns_none)
  qed
  then obtain k where k: "?step c d = (Inr (), ticks k (drop_columns {c} d))" by blast
  obtain m where m: "for_each ?step cs (ticks k (drop_columns {c} d))
      = (Inr (), ticks m (drop_columns (set cs) (ticks k (drop_columns {c} d))))"
    using Cons.IH [of "ticks k (drop_columns {c} d)"] Cons.prems by auto
  have "for_each ?step (c # cs) d = for_each ?step cs (ticks k (drop_columns {c} d))" using k by (simp add: bnd_def)
  with m show ?case by (intro exI [of _ "k + m"]) (simp add: drop_columns_drop)
qed

lemma set_nodes_backfilled: "schema_ok d \<Longrightarrow> schema_ok (set_nodes (t_update (\<lambda>_. True) migrated (db_nodes d)) d)"
  by (rule set_nodes_schema) simp_all

lemma backfilled_schema: "schema_ok d \<Longrightarrow> schema_ok (backfill_tnodes d)"
  unfolding backfill_tnodes_def
  by (rule backfill_fold_schema) (auto simp: schema_ok_def iface_refs_ok_def has_id_def)

lemma backfill_one_disk [simp]: "dk_columns (backfill_one w d) = dk_columns d"
  by (simp add: backfill_one_def add_tnode_def split: option.split)

lemma backfill_tnodes_sel [simp]:
  "db_nodes (backfill_tnodes d) = db_nodes d" "no_fault (backfill_tnodes d) = no_fault d"
  "backfill_tnodes (ticks k d) = ticks k (backfill_tnodes d)"
  by (simp_all add: backfill_tnodes_def)

lemma backfill_tnodes_disk [simp]: "dk_columns (backfill_tnodes d) = dk_columns d"
proof -
  have "dk_columns (fold backfill_one ws d) = dk_columns d" for ws by (induction ws arbitrary: d) simp_all
  then show ?thesis by (simp add: backfill_tnodes_def)
qed

definition after_migration :: "'a disk_scheme \<Rightarrow> 'a disk_scheme" where
  "after_migration d = drop_columns (set legacy_columns)
     (set_nodes (t_update (\<lambda>_. True) migrated (db_nodes d)) (backfill_tnodes d))"

lemma after_migration_sel [simp]:
  "db_nodes (after_migration d) = t_update (\<lambda>_. True) migrated (db_nodes d)" "no_fault (after_migration d) = no_fault d"
  "dk_columns (after_migration d) = filter (\<lambda>x. x \<notin> set legacy_columns) (dk_columns d)"
  "schema_ok d \<Longrightarrow> schema_ok (after_migration d)"
  using set_nodes_backfilled [OF backfilled_schema, of d] by (simp_all add: after_migration_def)

lemma AutoMigrate_run:
  assumes "no_fault d" "schema_ok d" "gorm d = (Inr (), ticks k d)"
  shows "\<exists>m. AutoMigrate gorm d = (Inr (), ticks m (after_migration d))"
proof -
  let ?b = "backfill_tnodes d" and ?n = "set_nodes (t_update (\<lambda>_. True) migrated (db_nodes d)) (backfill_tnodes d)"
  have b: "migrate_tnodes (ticks k d) = (Inr (), ticks (Suc k) ?b)"
    using assms backfilled_schema [OF assms(2)]
    by (simp add: migrate_tnodes_def exec_step del: no_fault_exec)
  obtain i where i: "backfillVlessNodeConfigs (ticks (Suc k) ?b) = (Inr (), ticks i (ticks (Suc k) ?n))"
    using backfill_run [of "ticks (Suc k) ?b"] assms backfilled_schema [OF assms(2)] by auto
  obtain j where "for_each (\<lambda>c. bnd (columnExists c) (\<lambda>b. if b then ignore (drop_column c) else ret ())) legacy_columns
      (ticks i (ticks (Suc k) ?n)) = (Inr (), ticks j (drop_columns (set legacy_columns) (ticks i (ticks (Suc k) ?n))))"
    using columns_run [of "ticks i (ticks (Suc k) ?n)" legacy_columns] assms set_nodes_backfilled [OF backfilled_schema [OF assms(2)]]
    by auto
  then show ?thesis
    using assms(3) b i by (intro exI [of _ "Suc k + i + j"]) (simp add: AutoMigrate_def bnd_def after_migration_def)
qed

section \<open>The junction rows after a refresh (tunnel_node_repo.go)\<close>

text \<open>\<open>RemapNodesAfterRefresh\<close>, which nothing in the repository calls (the service restores the rows with the
  operations of theory SubscriptionRepo). The later of two new nodes with one link wins; the errors of the
  deletions and updates are dropped.\<close>

definition uri_to_id :: "int \<Rightarrow> vless_node list \<Rightarrow> string \<rightharpoonup> int" where
  "uri_to_id sid ns = map_of (rev (map (\<lambda>n. (vn_raw n, vn_id n)) (filter (\<lambda>n. vn_sub n = sid) ns)))"

definition del_tnode_row :: "int \<Rightarrow> ('a database_scheme, unit) call" where
  "del_tnode_row k = exec (\<lambda>d. ((), d\<lparr>db_tnodes := t_delete (\<lambda>r. tn_id r = k) (db_tnodes d)\<rparr>))"

definition remap_row :: "(string \<rightharpoonup> int) \<Rightarrow> tunnel_node_row \<Rightarrow> ('a database_scheme, unit) call" where
  "remap_row m row = attempt (query (\<lambda>d. t_find (\<lambda>n. vn_id n = tn_node row) (db_nodes d))) (\<lambda>r.
     case r of Inl e \<Rightarrow> ignore (del_tnode_row (tn_id row))
     | Inr None \<Rightarrow> ignore (del_tnode_row (tn_id row))
     | Inr (Some n) \<Rightarrow> (case m (vn_raw n) of
          None \<Rightarrow> ignore (del_tnode_row (tn_id row))
        | Some newID \<Rightarrow> if newID \<noteq> tn_node row
            then ignore (exec (\<lambda>d. ((), d\<lparr>db_tnodes := t_update (\<lambda>r. tn_id r = tn_id row) (\<lambda>r. r\<lparr>tn_node := newID\<rparr>) (db_tnodes d)\<rparr>)))
            else ret ()))"

definition RemapNodesAfterRefresh :: "int \<Rightarrow> vless_node list \<Rightarrow> ('a database_scheme, unit) call" where
  "RemapNodesAfterRefresh sid newNodes =
     bnd (query (\<lambda>d. t_select (\<lambda>r. \<exists>n\<in>set (t_rows (db_nodes d)). vn_id n = tn_node r \<and> vn_sub n = sid) (db_tnodes d)))
       (for_each (remap_row (uri_to_id sid newNodes)))"

lemma del_tnode_row_schema [preserves_intro]: "preserves schema_ok (del_tnode_row k)"
  unfolding del_tnode_row_def by (rule preserves_exec_schema) (simp add: ids_ok_upd table_ok_delete)

lemma retarget_schema [preserves_intro]:
  "preserves schema_ok (exec (\<lambda>d. ((), d\<lparr>db_tnodes := t_update P (\<lambda>r. r\<lparr>tn_node := k\<rparr>) (db_tnodes d)\<rparr>)))"
  by (rule preserves_exec_schema) (simp add: ids_ok_upd table_ok_update)

lemma RemapNodesAfterRefresh_schema [preserves_intro]: "preserves schema_ok (RemapNodesAfterRefresh sid ns)"
  unfolding RemapNodesAfterRefresh_def remap_row_def by (intro preserves_intro)

text \<open>It never fails once its rows are read.\<close>

lemma RemapNodesAfterRefresh_total: "no_fault d \<Longrightarrow> \<exists>t. RemapNodesAfterRefresh sid ns d = (Inr (), t)"
proof -
  have ok: "\<exists>t. remap_row m row d = (Inr (), t)" for m row and d :: "'b database_scheme"
    by (cases "query (\<lambda>d. t_find (\<lambda>n. vn_id n = tn_node row) (db_nodes d)) d")
      (auto simp: remap_row_def attempt_def ignore_ok ret_def split: sum.split option.split)
  have "\<exists>t. for_each (remap_row m) rows d = (Inr (), t)" for m rows and d :: "'b database_scheme"
  proof (induction rows arbitrary: d)
    case (Cons row rows)
    obtain t where "remap_row m row d = (Inr (), t)" using ok by blast
    then show ?case using Cons.IH [of t] by (simp add: bnd_def)
  qed (simp add: ret_def)
  then show "no_fault d \<Longrightarrow> \<exists>t. RemapNodesAfterRefresh sid ns d = (Inr (), t)"
    by (simp add: RemapNodesAfterRefresh_def bnd_def)
qed

section \<open>Properties\<close>

definition row_migrates :: "vless_node \<Rightarrow> vless_node \<Rightarrow> bool" where
  "row_migrates r n \<longleftrightarrow> vn_id n = vn_id r \<and> vn_raw n = vn_raw r \<and> vn_sub n = vn_sub r
       \<and> (\<not> needs_backfill r \<longrightarrow> n = r)
       \<and> (\<forall>p. needs_backfill r \<and> trim_space (vn_raw r) \<noteq> [] \<and> ParseURI (vn_raw r) = Inr p \<longrightarrow>
            n = set_configs p r \<and> columns_typed n)"


definition sample_disk :: disk where
  "sample_disk = \<lparr>db_now = 5, db_clock = 0, db_fault = (\<lambda>_. None),
     db_subs = empty_table,
     db_nodes = \<lparr>t_rows = [\<lparr>vn_id = 3, vn_sub = 1, vn_display = ''N'', vn_uuid = ''u'', vn_address = ''h'', vn_port = 443,
        vn_flow = [], vn_encryption = [], vn_packet = [], vn_network = ''tcp'', vn_transport = RawEmpty,
        vn_security = [], vn_sec_config = RawEmpty, vn_raw = ''vless://u@h:443?type=ws&path=%2Fa#N'', vn_created = 0\<rparr>], t_seq = 3\<rparr>,
     db_ifaces = empty_table, db_peers = empty_table, db_tnodes = empty_table, db_stats = empty_table,
     db_audit = empty_table, db_settings = Map.empty, dk_columns = [''id'', ''raw_uri'', ''sni'', ''alpn'']\<rparr>"


end
