(* ===== verification/RunLife.thy ===== *)
theory RunLife
  imports TunnelLife "HOL-Library.Multiset"
begin

text \<open>
  The tunnel service as a state machine: its operations in any order, on a world whose other parts change freely in
  between. The set of running tunnels follows an abstract specification, every running tunnel has its device
  and its Xray instance, and every open device and live instance is held by exactly one tunnel.
\<close>

section \<open>The operations and their specification\<close>

text \<open>The operations of the service and of the use cases that change the runtime state.\<close>

datatype service_op =
    StartTunnel int | StopTunnel int | RestoreAll | StopAll
  | ReloadTunnelNodes int | ReloadTunnelPeers int
  | PutNodes int "int list" string | PutTunnel int wg_interface | PostTunnel int create_tunnel | RemoveTunnel int
  | AddPeer int string string string | PutPeer wg_peer | RemovePeer int int

fun run_op :: "'k env \<Rightarrow> service_op \<Rightarrow> ('k, 'a, unit) run_call" where
  "run_op E (StartTunnel i) = Start E i"
| "run_op E (StopTunnel i) = Stop E i"
| "run_op E RestoreAll = RestoreRunning E"
| "run_op E StopAll = ShutdownAll E"
| "run_op E (ReloadTunnelNodes i) = ReloadNodes E i"
| "run_op E (ReloadTunnelPeers i) = ReloadPeers E i"
| "run_op E (PutNodes i ns s) = SetTunnelNodes E i ns s"
| "run_op E (PutTunnel i w) = bnd (UpdateTunnel i w) (\<lambda>_. ret ())"
| "run_op E (PostTunnel m inp) = bnd (CreateTunnel E m inp) (\<lambda>_. ret ())"
| "run_op E (RemoveTunnel i) = DeleteTunnel E i"
| "run_op E (AddPeer i name key ip) = bnd (peers_Create E i name key ip) (\<lambda>_. ret ())"
| "run_op E (PutPeer p) = UpdateTunnelPeer p"
| "run_op E (RemovePeer i p) = DeleteTunnelPeer E i p"

text \<open>What an operation, by its outcome, does to the set of running tunnels.\<close>

fun life_spec :: "service_op \<Rightarrow> bool \<Rightarrow> int set \<Rightarrow> int set \<Rightarrow> bool" where
  "life_spec (StartTunnel i) ok R R' \<longleftrightarrow> R' = (if ok then insert i R else R)"
| "life_spec (StopTunnel i) ok R R' \<longleftrightarrow> R' = (if ok then R - {i} else R)"
| "life_spec RestoreAll ok R R' \<longleftrightarrow> ok \<and> R \<subseteq> R'"
| "life_spec StopAll ok R R' \<longleftrightarrow> ok \<and> R' = {}"
| "life_spec (RemoveTunnel i) ok R R' \<longleftrightarrow> R' = R \<or> R' = R - {i}"
| "life_spec p ok R R' \<longleftrightarrow> R' = R"

section \<open>Running tunnels are backed\<close>

text \<open>\<open>R\<close> are running and tracked, and each of them but perhaps \<open>i\<close> has a device and an instance; so has \<open>i\<close> as far
  as \<open>d\<close> and \<open>n\<close> say.\<close>

definition live_at :: "('k, 'a) run_world_scheme \<Rightarrow> int \<Rightarrow> bool" where
  "live_at w j \<longleftrightarrow> rw_devices w j \<noteq> None \<and> rw_instances w j \<noteq> None"

definition stage :: "int set \<Rightarrow> int \<Rightarrow> bool \<Rightarrow> bool \<Rightarrow> ('k, 'a) run_world_scheme \<Rightarrow> bool" where
  "stage R i d n w \<longleftrightarrow> set (rw_running w) = R \<and> distinct (rw_running w) \<and> R \<subseteq> set (rw_tracking w)
     \<and> (\<forall>j\<in>R - {i}. live_at w j) \<and> (d \<longrightarrow> rw_devices w i \<noteq> None) \<and> (n \<longrightarrow> rw_instances w i \<noteq> None)"

definition backed :: "int set \<Rightarrow> ('k, 'a) run_world_scheme \<Rightarrow> bool" where
  "backed R w \<longleftrightarrow> set (rw_running w) = R \<and> distinct (rw_running w) \<and> R \<subseteq> set (rw_tracking w) \<and> (\<forall>j\<in>R. live_at w j)"

lemma stage_backed: "i \<notin> R \<Longrightarrow> stage R i False False w \<longleftrightarrow> backed R w"
  by (auto simp: stage_def backed_def)

lemma backed_stage: "backed R w \<Longrightarrow> stage R i False False w"
  by (auto simp: stage_def backed_def)

lemma backed_stage_live: "i \<in> R \<Longrightarrow> stage R i True True w \<longleftrightarrow> backed R w"
  by (auto simp: stage_def backed_def live_at_def)

lemma stage_weak: "stage R i d n w \<Longrightarrow> stage R i False False w"
  by (auto simp: stage_def)

lemma run_part_parts:
  "run_part t = run_part w \<longleftrightarrow> rw_host t = rw_host w \<and> rw_devices t = rw_devices w \<and> rw_instances t = rw_instances w
     \<and> rw_running t = rw_running w \<and> rw_tracking t = rw_tracking w"
  by (simp add: run_part_def)

text \<open>What a call needs to keep every assertion about the managers' maps and the running set.\<close>

definition keeps_maps :: "('k, 'a, 'r) run_call \<Rightarrow> bool" where
  "keeps_maps m \<longleftrightarrow> (\<forall>w. let t = snd (m w) in rw_devices t = rw_devices w \<and> rw_instances t = rw_instances w
     \<and> rw_running t = rw_running w \<and> rw_tracking t = rw_tracking w)"

named_theorems maps_intro "calls that keep the managers' maps and the running set"

lemma maps_run: "keeps_run m \<Longrightarrow> keeps_maps m"
  unfolding keeps_run_def keeps_maps_def Let_def run_part_parts by blast

lemma maps_on_host [maps_intro]: "keeps_maps (on_host m)"
  by (simp add: keeps_maps_def on_host_def Let_def split: prod.split)

lemma maps_preserves: "keeps_maps m \<longleftrightarrow> (\<forall>D N R T. preserves (\<lambda>w. rw_devices w = D \<and> rw_instances w = N \<and> rw_running w = R \<and> rw_tracking w = T) m)"
  unfolding keeps_maps_def preserves_def Let_def by metis

lemma maps_bnd [maps_intro]: "keeps_maps m \<Longrightarrow> (\<And>x. keeps_maps (f x)) \<Longrightarrow> keeps_maps (bnd m f)"
  unfolding maps_preserves by (blast intro: preserves_bnd)

lemma maps_attempt [maps_intro]: "keeps_maps m \<Longrightarrow> (\<And>x. keeps_maps (f x)) \<Longrightarrow> keeps_maps (attempt m f)"
  unfolding maps_preserves by (blast intro: preserves_attempt)

lemma maps_ignore [maps_intro]: "keeps_maps m \<Longrightarrow> keeps_maps (ignore m)"
  unfolding maps_preserves by (blast intro: preserves_ignore)

lemma maps_if [maps_intro]: "keeps_maps m \<Longrightarrow> keeps_maps n \<Longrightarrow> keeps_maps (if b then m else n)"
  by simp

lemma maps_case_sum: "(\<And>e. keeps_maps (g e)) \<Longrightarrow> (\<And>x. keeps_maps (f x)) \<Longrightarrow> keeps_maps (case r of Inl e \<Rightarrow> g e | Inr x \<Rightarrow> f x)"
  by (simp split: sum.split)

lemma maps_simple [maps_intro]: "keeps_maps (ret x)" "keeps_maps (fail e)" "keeps_maps (gets f)" "keeps_maps (lift r)"
  unfolding maps_preserves by (blast intro: preserves_ret preserves_fail preserves_gets preserves_lift)+

lemma maps_stage: "keeps_maps m \<Longrightarrow> valid (stage R i d n) m (\<lambda>_. stage R i d n) (stage R i d n)"
  unfolding valid_preserves preserves_def keeps_maps_def Let_def stage_def live_at_def by metis

lemma maps_backed: "keeps_maps m \<Longrightarrow> valid (backed R) m (\<lambda>_. backed R) (backed R)"
  unfolding valid_preserves preserves_def keeps_maps_def Let_def backed_def live_at_def by metis

lemma valid_upd: "(\<And>w. P w \<Longrightarrow> Q (f w)) \<Longrightarrow> valid P (upd f) (\<lambda>_. Q) E"
  by (simp add: valid_def upd_def)

lemma validD: "valid P m Q E \<Longrightarrow> P s \<Longrightarrow> case m s of (Inr x, t) \<Rightarrow> Q x t | (Inl e, t) \<Rightarrow> E t"
  by (simp add: valid_def)

lemma valid_fail_with: "valid P (fail e) Q P"
  by (rule valid_fail)

lemma valid_done: "valid P m (\<lambda>_. F) F \<Longrightarrow> valid P (bnd m (\<lambda>_. fail e)) Q F"
  by (rule valid_bnd) (auto intro: valid_fail)

lemma valid_case_sum:
  "(\<And>e. valid P (g e) Q E) \<Longrightarrow> (\<And>x. valid P (f x) Q E) \<Longrightarrow> valid P (case r of Inl e \<Rightarrow> g e | Inr x \<Rightarrow> f x) Q E"
  by (simp split: sum.split)

text \<open>Calls that return no error.\<close>

definition returns :: "('s, 'e, 'r) go \<Rightarrow> bool" where
  "returns m \<longleftrightarrow> (\<forall>s. \<exists>x. fst (m s) = Inr x)"

named_theorems returns_intro "calls that return no error"

lemma returnsD: "returns m \<Longrightarrow> \<exists>x t. m s = (Inr x, t)"
  unfolding returns_def by (metis prod.collapse)

lemma returns_simple [returns_intro]: "returns (ret x)" "returns (gets f)" "returns (upd g)" "returns (ignore m)"
  by (simp_all add: returns_def ret_def gets_def upd_def ignore_ok)

lemma returns_bnd [returns_intro]: "returns m \<Longrightarrow> (\<And>x. returns (f x)) \<Longrightarrow> returns (bnd m f)"
proof -
  assume m: "returns m" and f: "\<And>x. returns (f x)"
  have "\<exists>x. fst (bnd m f s) = Inr x" for s
  proof -
    obtain y t where "m s = (Inr y, t)" using returnsD [OF m, of s] by blast
    with f [of y] show ?thesis by (simp add: bnd_def returns_def)
  qed
  then show ?thesis by (simp add: returns_def)
qed

lemma returns_attempt [returns_intro]: "(\<And>r. returns (f r)) \<Longrightarrow> returns (attempt m f)"
  by (simp add: returns_def attempt_def split: prod.split)

lemma returns_cases [returns_intro]:
  "(\<And>e. returns (g e)) \<Longrightarrow> (\<And>x. returns (f x)) \<Longrightarrow> returns (case r of Inl e \<Rightarrow> g e | Inr x \<Rightarrow> f x)"
  "returns m \<Longrightarrow> (\<And>x. returns (f x)) \<Longrightarrow> returns (case v of None \<Rightarrow> m | Some x \<Rightarrow> f x)"
  "(\<And>x y. returns (h x y)) \<Longrightarrow> returns (case p of (x, y) \<Rightarrow> h x y)"
  "returns m \<Longrightarrow> returns n \<Longrightarrow> returns (if b then m else n)"
  by (simp_all split: sum.split option.split prod.split)

lemma returns_for_each [returns_intro]: "(\<And>x. returns (f x)) \<Longrightarrow> returns (for_each f xs)"
  by (induction xs) (auto intro: returns_intro)

lemma returns_on_host [returns_intro]: "returns m \<Longrightarrow> returns (on_host m)"
  unfolding returns_def on_host_def by (auto split: prod.split) (metis fst_conv)

lemma returns_log [returns_intro]: "returns (log_Add l m)"
  by (simp add: returns_def log_Add_def AddSource_ok)

lemma valid_returns: "valid P m Q E \<Longrightarrow> returns m \<Longrightarrow> valid P m Q E'"
  unfolding valid_def by (metis (mono_tags, lifting) case_prod_conv returnsD sum.case(2))

lemma valid_never: "preserves P m \<Longrightarrow> (\<And>s x. fst (m s) \<noteq> Inr x) \<Longrightarrow> valid P m Q P"
proof (rule validI)
  fix s assume "P s" and p: "preserves P m" and f: "\<And>s x. fst (m s) \<noteq> Inr x"
  obtain r t where m: "m s = (r, t)" by fastforce
  have "P t" using preservesD [OF p \<open>P s\<close> m] .
  with m f [of s] show "case m s of (Inr x, t) \<Rightarrow> Q x t | (Inl e, t) \<Rightarrow> P t" by (cases r) auto
qed

lemma stage_upd:
  "stage R i d n w \<Longrightarrow> stage R i True n (w\<lparr>rw_devices := (rw_devices w)(i \<mapsto> x)\<rparr>)"
  "stage R i d n w \<Longrightarrow> stage R i d True (w\<lparr>rw_instances := (rw_instances w)(i \<mapsto> y)\<rparr>)"
  "stage R i d n w \<Longrightarrow> stage R i False n (w\<lparr>rw_devices := (rw_devices w)(i := None)\<rparr>)"
  "stage R i d n w \<Longrightarrow> stage R i d False (w\<lparr>rw_instances := (rw_instances w)(i := None)\<rparr>)"
  by (auto simp: stage_def live_at_def)

lemma stage_attempt:
  "keeps_maps m \<Longrightarrow> (\<And>r. valid (stage R i d n) (f r) Q E) \<Longrightarrow> valid (stage R i d n) (attempt m f) Q E"
  by (rule valid_attempt [where R = "\<lambda>_. stage R i d n" and E' = "stage R i d n"]) (simp_all add: maps_stage)

lemma stage_bnd:
  "keeps_maps m \<Longrightarrow> (\<And>x. valid (stage R i d n) (f x) Q (stage R i d n)) \<Longrightarrow> valid (stage R i d n) (bnd m f) Q (stage R i d n)"
  by (rule valid_bnd [where R = "\<lambda>_. stage R i d n"]) (simp_all add: maps_stage)

lemma stage_wg_Create:
  "valid (stage R i d n) (wg_Create E i mtu port priv peers psk tun) (\<lambda>_. stage R i True n) (stage R i d n)"
  unfolding wg_Create_def Let_def
proof (rule stage_bnd [OF maps_on_host])
  fix dev
  have close: "valid (stage R i d n) (bnd (on_host (ignore (wg_Close (en_host E) dev))) (\<lambda>_. fail e)) (\<lambda>_. stage R i True n) (stage R i d n)" for e
    by (intro stage_bnd maps_intro valid_fail_with)
  have tail: "valid (stage R i d n) (attempt (on_host (startUAPI (en_host E) tun)) (\<lambda>u. bnd (gets (\<lambda>w. rw_devices w i)) (\<lambda>prev.
      bnd (case prev of None \<Rightarrow> ret () | Some md \<Rightarrow> on_host (close_device (en_host E) md)) (\<lambda>_.
      upd (\<lambda>w. w\<lparr>rw_devices := (rw_devices w)(i \<mapsto> \<lparr>md_dev = dev, md_uapi = (case u of Inl e \<Rightarrow> None | Inr l \<Rightarrow> Some l)\<rparr>)\<rparr>)))))
      (\<lambda>_. stage R i True n) (stage R i d n)"
    by (intro stage_attempt stage_bnd maps_intro) (auto intro: maps_intro valid_upd stage_upd split: option.split)
  show "valid (stage R i d n) (case buildIPC (en_crypto E) port priv peers psk of
       Inl e \<Rightarrow> bnd (on_host (ignore (wg_Close (en_host E) dev))) (\<lambda>_. fail e)
     | Inr cfg \<Rightarrow> attempt (on_host (wg_IpcSet (en_host E) dev cfg)) (\<lambda>r. case r of
         Inl e \<Rightarrow> bnd (on_host (ignore (wg_Close (en_host E) dev))) (\<lambda>_. fail e)
       | Inr _ \<Rightarrow> attempt (on_host (startUAPI (en_host E) tun)) (\<lambda>u.
           bnd (gets (\<lambda>w. rw_devices w i)) (\<lambda>prev.
           bnd (case prev of None \<Rightarrow> ret () | Some md \<Rightarrow> on_host (close_device (en_host E) md)) (\<lambda>_.
           upd (\<lambda>w. w\<lparr>rw_devices := (rw_devices w)(i \<mapsto> \<lparr>md_dev = dev, md_uapi = (case u of Inl e \<Rightarrow> None | Inr l \<Rightarrow> Some l)\<rparr>)\<rparr>))))))
     (\<lambda>_. stage R i True n) (stage R i d n)"
    by (rule valid_case_sum [OF close], rule stage_attempt [OF maps_on_host], rule valid_case_sum [OF close], rule tail)
qed

lemma stage_wg_Destroy: "valid (stage R i d n) (wg_Destroy E i) (\<lambda>_. stage R i False n) (stage R i False n)"
  unfolding wg_Destroy_def
proof (rule valid_bnd [where R = "\<lambda>md w. stage R i d n w \<and> md = rw_devices w i"])
  show "valid (stage R i d n) (gets (\<lambda>w. rw_devices w i)) (\<lambda>md w. stage R i d n w \<and> md = rw_devices w i) (stage R i False n)"
    by (simp add: valid_def gets_def)
  fix md
  show "valid (\<lambda>w. stage R i d n w \<and> md = rw_devices w i) (case md of None \<Rightarrow> ret () | Some dv \<Rightarrow>
      bnd (upd (\<lambda>w. w\<lparr>rw_devices := (rw_devices w)(i := None)\<rparr>)) (\<lambda>_. on_host (close_device (en_host E) dv)))
    (\<lambda>_. stage R i False n) (stage R i False n)"
  proof (cases md)
    case None
    then show ?thesis by (auto intro!: valid_ret simp: stage_def)
  next
    case (Some dv)
    have 1: "valid (\<lambda>w. stage R i d n w \<and> md = rw_devices w i) (upd (\<lambda>w. w\<lparr>rw_devices := (rw_devices w)(i := None)\<rparr>))
        (\<lambda>_. stage R i False n) (stage R i False n)"
      by (rule valid_upd) (blast intro: stage_upd)
    show ?thesis using valid_bnd [OF 1 maps_stage [OF maps_on_host]] Some by simp
  qed
qed

lemma stage_xray_Start:
  "valid (stage R i d n) (xray_Start E i xport mark gw nodes strategy) (\<lambda>_. stage R i d True) (stage R i d n)"
proof -
  have tail: "valid (stage R i d n) (attempt (on_host (xr_Start (en_host E) inst)) (\<lambda>r. case r of
      Inl e \<Rightarrow> bnd (on_host (ignore (xr_Close (en_host E) inst))) (\<lambda>_. fail e)
    | Inr _ \<Rightarrow> bnd (gets (\<lambda>w. rw_instances w i)) (\<lambda>old.
        bnd (case old of None \<Rightarrow> ret () | Some j \<Rightarrow> on_host (ignore (xr_Close (en_host E) j))) (\<lambda>_.
        upd (\<lambda>w. w\<lparr>rw_instances := (rw_instances w)(i \<mapsto> inst)\<rparr>))))) (\<lambda>_. stage R i d True) (stage R i d n)" for inst
    by (rule stage_attempt [OF maps_on_host])
      (auto intro!: stage_bnd maps_intro valid_fail_with valid_upd stage_upd split: sum.split option.split)
  show ?thesis
    unfolding xray_Start_def Let_def
    by (rule valid_if, rule valid_fail_with) (intro stage_bnd maps_intro tail)
qed

lemma stage_xray_Stop: "valid (stage R i d n) (xray_Stop E i) (\<lambda>_. stage R i d False) (stage R i d False)"
  unfolding xray_Stop_def
proof (rule valid_bnd [where R = "\<lambda>md w. stage R i d n w \<and> md = rw_instances w i"])
  show "valid (stage R i d n) (gets (\<lambda>w. rw_instances w i)) (\<lambda>md w. stage R i d n w \<and> md = rw_instances w i) (stage R i d False)"
    by (simp add: valid_def gets_def)
  fix md
  have 1: "valid (\<lambda>w. stage R i d n w \<and> md = rw_instances w i) (upd (\<lambda>w. w\<lparr>rw_instances := (rw_instances w)(i := None)\<rparr>))
      (\<lambda>_. stage R i d False) (stage R i d False)"
    by (rule valid_upd) (blast intro: stage_upd)
  show "valid (\<lambda>w. stage R i d n w \<and> md = rw_instances w i) (case md of None \<Rightarrow> ret () | Some x \<Rightarrow>
      bnd (upd (\<lambda>w. w\<lparr>rw_instances := (rw_instances w)(i := None)\<rparr>)) (\<lambda>_. on_host (xr_Close (en_host E) x)))
    (\<lambda>_. stage R i d False) (stage R i d False)"
    using valid_bnd [OF 1 maps_stage [OF maps_on_host]]
    by (cases md) (auto intro!: valid_ret simp: stage_def)
qed

section \<open>Starting and stopping one tunnel\<close>

text \<open>\<open>others R i\<close>: nothing is said of tunnel \<open>i\<close>. The undoing of a start keeps it.\<close>

abbreviation others :: "int set \<Rightarrow> int \<Rightarrow> ('k, 'a) run_world_scheme \<Rightarrow> bool" where
  "others R i \<equiv> stage R i False False"

lemma others_managers:
  "preserves (others R i) (wg_Destroy E i)" "preserves (others R i) (xray_Stop E i)"
  unfolding valid_preserves [symmetric] by (rule stage_wg_Destroy stage_xray_Stop)+

lemma others_maps: "keeps_maps m \<Longrightarrow> preserves (others R i) m"
  unfolding valid_preserves [symmetric] by (rule maps_stage)

lemma others_undo: "preserves (others R i) (undo E i tun k)"
  unfolding undo_def Let_def by (intro keeps_intro others_managers others_maps maps_on_host)

lemma stage_step:
  assumes "valid (stage R i d n) m (\<lambda>_. Q) (stage R i d n)"
  shows "valid (stage R i d n) (step E i tun k m) (\<lambda>_. Q) (others R i)"
proof -
  let ?f = "\<lambda>e. bnd (undo E i tun k) (\<lambda>_. bnd (ignore (UpdateStatus i WgError (error_text e))) (\<lambda>_. fail e))"
  have undone: "preserves (others R i) (?f e)" for e
    by (intro keeps_intro others_undo others_maps maps_run run_intro)
  have fails: "fst (?f e w) \<noteq> Inr x" for e w x
    by (auto simp: bnd_def ignore_ok fail_def split: prod.splits sum.splits)
  show ?thesis
    unfolding step_def
  proof (rule valid_attempt [where R = "\<lambda>r. case r of Inl e \<Rightarrow> others R i | Inr x \<Rightarrow> Q" and E' = "others R i"])
    show "valid (stage R i d n) m (\<lambda>x. case Inr x of Inl e \<Rightarrow> others R i | Inr x \<Rightarrow> Q) (others R i)"
      using assms by (auto intro: valid_weaken stage_weak)
    show "valid (case r of Inl e \<Rightarrow> others R i | Inr x \<Rightarrow> Q) (case r of Inl e \<Rightarrow> ?f e | Inr x \<Rightarrow> ret ()) (\<lambda>_. Q) (others R i)" for r :: "go_error + unit"
    proof (cases r)
      case (Inl e)
      have "valid (others R i) (?f e) (\<lambda>_. Q) (others R i)" by (rule valid_never [OF undone fails])
      with Inl show ?thesis by simp
    qed (simp add: valid_ret)
  qed simp
qed

lemma stage_bring_up:
  "valid (others R i) (bring_up E i iface nodes peers psk priv subnet) (\<lambda>_. stage R i True True) (others R i)"
proof -
  note host = stage_step [OF maps_stage [OF maps_on_host]]
  show ?thesis
    unfolding bring_up_def Let_def
    by (rule valid_bnd [OF stage_step [OF stage_wg_Create]], rule valid_bnd [OF host],
        rule valid_bnd [where R = "\<lambda>_. stage R i True False"], rule valid_weaken [OF maps_stage [OF maps_on_host]],
        assumption, assumption, erule stage_weak,
        rule valid_bnd [OF host], rule valid_bnd [OF stage_step [OF stage_xray_Start]],
        rule valid_bnd [OF host], rule valid_bnd [OF host], rule host)
qed

text \<open>Taking a tunnel down never fails, and it is not running afterwards.\<close>

lemma returns_down [returns_intro]: "returns (wg_Destroy E i)" "returns (stopInternal E i tun subnet)"
proof -
  show 1: "returns (wg_Destroy E i)"
    unfolding wg_Destroy_def close_device_def by (intro returns_intro)
  show "returns (stopInternal E i tun subnet)"
    unfolding stopInternal_def Let_def by (intro returns_intro 1)
qed

lemma stopInternal_stage:
  "valid (others R i) (stopInternal E i tun subnet) (\<lambda>_. backed (R - {i})) (backed (R - {i}))"
proof -
  have "valid (others R i) (upd (\<lambda>w. w\<lparr>rw_running := set_Clear i (rw_running w), rw_tracking := set_Clear i (rw_tracking w)\<rparr>))
      (\<lambda>_. backed (R - {i})) (others R i)"
    by (rule valid_upd) (auto simp: stage_def backed_def set_Clear_def live_at_def distinct_removeAll)
  moreover have "valid (others R i) (ignore (on_host m)) (\<lambda>_. others R i) (others R i)" for m :: "('k, unit) call"
    unfolding valid_preserves by (intro others_maps maps_intro)
  moreover have "valid (others R i) (ignore (xray_Stop E i)) (\<lambda>_. others R i) (others R i)" "valid (others R i) (wg_Destroy E i) (\<lambda>_. others R i) (others R i)"
    unfolding valid_preserves by (intro preserves_ignore others_managers)+
  ultimately have "valid (others R i) (stopInternal E i tun subnet) (\<lambda>_. backed (R - {i})) (others R i)"
    unfolding stopInternal_def Let_def by (intro valid_bnd [where R = "\<lambda>_. others R i"])
  then show ?thesis by (rule valid_returns) (rule returns_down)
qed

lemma backed_bnd:
  "keeps_maps m \<Longrightarrow> (\<And>x. valid (backed R) (f x) Q (backed R)) \<Longrightarrow> valid (backed R) (bnd m f) Q (backed R)"
  by (rule valid_bnd [where R = "\<lambda>_. backed R"]) (simp_all add: maps_backed)

lemma valid_known:
  assumes "valid P m (\<lambda>x w. C x \<and> S w) E" "\<And>x. C x \<Longrightarrow> valid S (f x) Q E"
  shows "valid P (bnd m f) Q E"
proof (rule valid_bnd [OF assms(1)])
  show "valid (\<lambda>w. C x \<and> S w) (f x) Q E" for x
    using assms(2) [of x] by (cases "C x") (simp_all add: valid_def)
qed

lemma IsRunning_backed: "valid (backed R) (IsRunning i) (\<lambda>b w. b = (i \<in> R) \<and> backed R w) E"
  by (auto simp: IsRunning_def gets_def valid_def set_Contains_def backed_def)

lemma finish_start_backed:
  assumes "i \<notin> R"
  shows "valid (stage R i True True) (finish_start E i iface subnet) (\<lambda>_. backed (insert i R)) (backed R)"
proof -
  have down: "valid (stage R i True True) (bnd (stopInternal E i tun subnet) (\<lambda>_. fail e)) Q (backed R)" for tun e and Q :: "unit \<Rightarrow> _ \<Rightarrow> bool"
    by (rule valid_weaken [OF valid_done [OF stopInternal_stage]]) (use assms in \<open>auto intro: stage_weak\<close>)
  have mark: "valid (stage R i True True) (upd (\<lambda>w. w\<lparr>rw_running := set_Mark i (rw_running w), rw_tracking := set_Mark i (rw_tracking w)\<rparr>))
      (\<lambda>_. backed (insert i R)) (backed R)"
    by (rule valid_upd) (use assms in \<open>auto simp: stage_def backed_def live_at_def set_Mark_def\<close>)
  have up: "valid (stage R i True True) (bnd (upd (\<lambda>w. w\<lparr>rw_running := set_Mark i (rw_running w), rw_tracking := set_Mark i (rw_tracking w)\<rparr>)) (\<lambda>_.
      log_Add ''info'' msg)) (\<lambda>_. backed (insert i R)) (backed R)" for msg
    by (rule valid_bnd [OF mark], rule valid_returns [OF maps_backed returns_log]) (intro maps_run run_intro)
  show ?thesis
    unfolding finish_start_def
    by (rule valid_bnd [where R = "\<lambda>_. stage R i True True"], simp add: valid_def gets_def,
        rule stage_attempt, intro maps_run run_intro, rule valid_case_sum, rule down, rule up)
qed

lemma Start_backed: "valid (backed R) (Start E i) (\<lambda>_. backed (insert i R)) (backed R)"
proof (cases "i \<in> R")
  case True
  then show ?thesis
    by (auto simp: Start_def IsRunning_def valid_def bnd_def gets_def set_Contains_def ret_def backed_def insert_absorb)
next
  case False
  have sw: "valid (backed R) (start_with E i iface nodes privEnc) (\<lambda>_. backed (insert i R)) (backed R)" for iface nodes privEnc
  proof -
    have up: "valid (backed R) (bnd (bring_up E i iface nodes peers psk priv subnet) (\<lambda>_. finish_start E i iface subnet))
        (\<lambda>_. backed (insert i R)) (backed R)" for peers psk priv subnet
      by (rule valid_bnd [OF valid_weaken [OF stage_bring_up [of R i]] finish_start_backed [OF False]])
        (simp_all add: stage_backed [OF False])
    have "valid (backed R) (case c of Inl e \<Rightarrow> fail (Wrap ''invalid wg address'' e) | Inr subnet \<Rightarrow>
        bnd (bring_up E i iface nodes peers psk priv subnet) (\<lambda>_. finish_start E i iface subnet)) (\<lambda>_. backed (insert i R)) (backed R)" for c peers psk priv
      by (rule valid_case_sum [OF valid_fail_with up])
    then show ?thesis unfolding start_with_def by (intro backed_bnd maps_run run_intro)
  qed
  have "valid (backed R) (if b then ret () else bnd (tun_GetByID i) (\<lambda>(iface0, privEnc). bnd (start_nodes iface0 i)
      (\<lambda>(iface, nodes). start_with E i iface nodes privEnc))) (\<lambda>_. backed (insert i R)) (backed R)" if "b = (i \<in> R)" for b
    unfolding case_prod_unfold using that False sw by (auto intro!: backed_bnd maps_run run_intro)
  then show ?thesis unfolding Start_def by (rule valid_known [OF IsRunning_backed])
qed

lemma teardown_backed: "valid (backed R) (teardownRuntime E i iface) (\<lambda>_. backed (R - {i})) E'"
  unfolding teardownRuntime_def
  by (rule valid_returns [OF valid_weaken [OF stopInternal_stage]]) (auto intro: returns_down backed_stage)

lemma Stop_backed: "valid (backed R) (Stop E i) (\<lambda>_. backed (R - {i})) (backed R)"
proof -
  have "valid (backed R) (bnd (teardownRuntime E i iface) (\<lambda>_. bnd (ignore (tun_Update w)) (\<lambda>_. bnd (ignore (UpdateStatus i WgStopped []))
      (\<lambda>_. log_Add ''info'' msg)))) (\<lambda>_. backed (R - {i})) E'" for iface w msg E'
    by (rule valid_returns [where E = "backed (R - {i})"], rule valid_bnd [OF teardown_backed], rule maps_backed, intro maps_run run_intro)
      (auto simp: teardownRuntime_def intro!: returns_intro returns_down)
  then show ?thesis
    unfolding Stop_def case_prod_unfold by (rule backed_bnd [OF maps_run [OF run_repos(1)]])
qed

section \<open>Every operation follows the specification\<close>

definition reached :: "(int set \<Rightarrow> bool) \<Rightarrow> ('k, 'a) run_world_scheme \<Rightarrow> bool" where
  "reached A w \<longleftrightarrow> (\<exists>R. A R \<and> backed R w)"

lemma reached_spec:
  "valid (backed R) m (\<lambda>_. backed R1) (backed R2) \<Longrightarrow> A R1 \<Longrightarrow> B R2 \<Longrightarrow> valid (backed R) m (\<lambda>_. reached A) (reached B)"
  by (erule valid_weaken) (auto simp: reached_def)

lemma reached_returns:
  "preserves P m \<Longrightarrow> (\<And>w. backed R w \<Longrightarrow> P w) \<Longrightarrow> (\<And>w. P w \<Longrightarrow> reached A w) \<Longrightarrow> returns m \<Longrightarrow> valid (backed R) m (\<lambda>_. reached A) E"
  unfolding valid_preserves [symmetric] by (erule valid_returns [OF valid_weaken])

lemma Start_grows:
  fixes E :: "'k env"
  shows "preserves (reached (\<lambda>R'. R \<subseteq> R') :: ('k, 'a) run_world_scheme \<Rightarrow> bool) (Start E i)"
  unfolding valid_preserves [symmetric]
proof (rule validI)
  fix w :: "('k, 'a) run_world_scheme" assume "reached (\<lambda>R'. R \<subseteq> R') w"
  then obtain R' where r: "R \<subseteq> R'" "backed R' w" unfolding reached_def by blast
  have "case Start E i w of (Inr x, t) \<Rightarrow> backed (insert i R') t | (Inl e, t) \<Rightarrow> backed R' t"
    by (rule validD [OF Start_backed r(2)])
  moreover have "reached (\<lambda>R'. R \<subseteq> R') t" if "backed R' t \<or> backed (insert i R') t" for t :: "('k, 'a) run_world_scheme"
    using that r(1) unfolding reached_def by blast
  ultimately show "case Start E i w of (Inr x, t) \<Rightarrow> reached (\<lambda>R'. R \<subseteq> R') t | (Inl e, t) \<Rightarrow> reached (\<lambda>R'. R \<subseteq> R') t"
    by (cases "Start E i w"; cases "fst (Start E i w)") simp_all
qed

lemma grown_maps: "keeps_maps m \<Longrightarrow> preserves (reached A) m"
  using maps_backed unfolding valid_preserves preserves_def reached_def by metis

lemma Restore_grows: "preserves (reached (\<lambda>R'. R \<subseteq> R')) (RestoreRunning E)" "returns (RestoreRunning E)"
proof -
  have log: "preserves (reached (\<lambda>R'. R \<subseteq> R')) (log_Add l m)" for l m by (intro grown_maps maps_run run_intro)
  have each: "preserves (reached (\<lambda>R'. R \<subseteq> R')) (restore_each E is)" for "is"
    by (induction "is") (simp_all add: preserves_ret keeps_intro Start_grows log)
  have ret: "returns (restore_each E is)" for "is"
    by (induction "is") (simp_all add: returns_intro)
  show "preserves (reached (\<lambda>R'. R \<subseteq> R')) (RestoreRunning E)" unfolding RestoreRunning_def
    by (rule preserves_attempt [OF grown_maps [OF maps_run [OF run_repos(7)]]]) (intro keeps_intro each)
  show "returns (RestoreRunning E)" unfolding RestoreRunning_def by (intro returns_intro ret)
qed

lemma Shutdown_empties: "valid (backed R) (ShutdownAll E) (\<lambda>_. backed {}) E'"
proof -
  let ?each = "\<lambda>i. attempt (tun_GetByID i) (\<lambda>r. case r of Inl e \<Rightarrow> ret () | Inr (iface, _) \<Rightarrow> teardownRuntime E i iface)"
  have down: "preserves (backed {}) (teardownRuntime E i iface)" for i iface
    unfolding valid_preserves [symmetric] using teardown_backed [of "{}" E i iface "backed {}"] by simp
  have each: "preserves (backed {}) (?each i)" for i
    unfolding case_prod_unfold
    by (intro keeps_intro down, rule maps_backed [THEN valid_preserves [THEN iffD1]]) (intro maps_run run_intro)
  have ret: "returns (?each i)" for i
    unfolding case_prod_unfold teardownRuntime_def by (intro returns_intro returns_down)
  have drained: "valid (backed R) (upd (\<lambda>w. w\<lparr>rw_running := snd (set_Drain (rw_running w))\<rparr>)) (\<lambda>_. backed {}) (backed {})"
    by (rule valid_upd) (simp add: backed_def set_Drain_def)
  have "valid (backed R) (ShutdownAll E) (\<lambda>_. backed {}) (backed {})"
    unfolding ShutdownAll_def
    by (rule valid_bnd [where R = "\<lambda>_. backed R"], simp add: valid_def gets_def, rule valid_bnd [OF drained])
      (unfold valid_preserves, intro preserves_for_each each)
  then show ?thesis
    by (rule valid_returns) (unfold ShutdownAll_def, intro returns_intro ret)
qed

lemma ReloadNodes_backed: "valid (backed R) (ReloadNodes E i) (\<lambda>_. backed R) (backed R)"
proof -
  have start: "valid (backed R) (xray_Start E i xport mark gw nodes strategy) (\<lambda>_. backed R) (backed R)" if "i \<in> R" for xport mark gw nodes strategy
    by (rule valid_weaken [OF stage_xray_Start [of R i True True]]) (simp_all add: backed_stage_live [OF that])
  have "valid (backed R) (if \<not> b then ret () else bnd (tun_GetByID i) (\<lambda>(iface, x). attempt (tun_ListNodes i) (\<lambda>r.
      let ns = (case r of Inl e \<Rightarrow> [] | Inr l \<Rightarrow> l); rt = computeRuntime i in
      if ns = [] then fail (Opaque (''ReloadNodes: no nodes assigned to tunnel '' @ itoa i))
      else xray_Start E i (rt_port rt) (rt_mark rt) (gateway_or_empty (wi_address iface)) (map reparsed ns) (strategy_of iface))))
    (\<lambda>_. backed R) (backed R)" if "b = (i \<in> R)" for b
  proof (cases b)
    case True
    have kept: "preserves (backed R) (tun_GetByID i)" "preserves (backed R) (tun_ListNodes i)"
      unfolding valid_preserves [symmetric] by (intro maps_backed maps_run run_intro)+
    have "preserves (backed R) (xray_Start E i xport mark gw nodes strategy)" for xport mark gw nodes strategy
      using start True that unfolding valid_preserves by blast
    then show ?thesis
      unfolding case_prod_unfold Let_def valid_preserves using True by (auto intro!: keeps_intro kept)
  qed (simp add: valid_ret)
  then show ?thesis unfolding ReloadNodes_def by (rule valid_known [OF IsRunning_backed])
qed

text \<open>The use cases that only read and write the database.\<close>

lemma run_use_cases:
  "keeps_run (UpdateTunnel i w)" "keeps_run (CreateTunnel E m inp)" "keeps_run (UpdateTunnelPeer p)"
  "keeps_run (encrypt E s)" "keeps_run (peer_keys E key)" "keeps_run (NextClientIP i c)"
proof -
  show "keeps_run (UpdateTunnel i w)"
    unfolding UpdateTunnel_def PrepareTunnelPUT_def IsRunning_def Let_def by (intro run_intro)
  have enc: "keeps_run (encrypt E s)" for s unfolding encrypt_def by (intro run_intro)
  have create: "keeps_run (tunnels_Create E a b c d e f g h k l)" for a b c d e f g h k l
    unfolding tunnels_Create_def Let_def by (intro run_intro enc)
  have "keeps_run (import_uri m u)" for m u unfolding import_uri_def by (intro run_intro)
  then show "keeps_run (CreateTunnel E m inp)"
    unfolding CreateTunnel_def by (intro run_intro create)
  have "keeps_more (peer_Update p None None)"
    unfolding peer_Update_def by (intro frame_intro keeps_exec) simp_all
  then show "keeps_run (UpdateTunnelPeer p)"
    unfolding UpdateTunnelPeer_def by (intro keeps_more_run)
  show "keeps_run (encrypt E s)" by (rule enc)
  show "keeps_run (peer_keys E key)" unfolding peer_keys_def by (intro run_intro enc)
  show "keeps_run (NextClientIP i c)" unfolding NextClientIP_def by (auto intro!: run_intro split: option.split)
qed

lemmas run_calls = run_repos run_log run_psk run_start_nodes run_draw run_use_cases

lemmas maps_calls = run_calls [THEN maps_run]

lemma maps_use_cases:
  "keeps_maps (ReloadPeers E i)" "keeps_maps (peers_Create E i name key ip)" "keeps_maps (DeleteTunnelPeer E i j)"
proof -
  have reload: "keeps_maps (wg_ReloadPeers E i mtu port priv peers psk)" for i mtu port priv peers psk
    unfolding wg_ReloadPeers_def by (intro maps_intro) (auto intro: maps_intro split: option.split)
  show peers: "keeps_maps (ReloadPeers E i)" for i
    unfolding ReloadPeers_def IsRunning_def case_prod_unfold by (intro maps_intro reload maps_calls)
  have push: "keeps_maps (push_peers E i)"
    unfolding push_peers_def case_prod_unfold by (intro maps_intro maps_case_sum reload maps_calls)
  show "keeps_maps (peers_Create E i name key ip)"
    unfolding peers_Create_def case_prod_unfold by (intro maps_intro push maps_calls)
  show "keeps_maps (DeleteTunnelPeer E i j)"
    unfolding DeleteTunnelPeer_def by (intro maps_intro peers maps_calls)
qed

lemma maps_spec:
  "keeps_maps m \<Longrightarrow> A R \<Longrightarrow> B R \<Longrightarrow> valid (backed R) m (\<lambda>_. reached A) (reached B)"
  by (rule reached_spec [OF maps_backed])

lemma reached_weaken:
  "valid (backed R) m (\<lambda>_. reached A) (reached B) \<Longrightarrow> (\<And>R'. A R' \<Longrightarrow> A' R') \<Longrightarrow> (\<And>R'. B R' \<Longrightarrow> B' R') \<Longrightarrow> valid (backed R) m (\<lambda>_. reached A') (reached B')"
  by (erule valid_weaken) (auto simp: reached_def)

lemma keeps_run_for_each: "(\<And>x. keeps_run (f x)) \<Longrightarrow> keeps_run (for_each f xs)"
  by (induction xs) (auto intro: run_intro)

lemma nodes_spec: "valid (backed R) (SetTunnelNodes E i ns s) (\<lambda>_. backed R) (backed R)"
  unfolding SetTunnelNodes_def case_prod_unfold
  by (intro backed_bnd ReloadNodes_backed maps_run run_intro keeps_run_for_each)

lemma remove_spec: "valid (backed R) (DeleteTunnel E i) (\<lambda>_. reached (\<lambda>R'. R' = R \<or> R' = R - {i})) (reached (\<lambda>R'. R' = R \<or> R' = R - {i}))"
proof -
  let ?A = "\<lambda>R'. R' = R \<or> R' = R - {i}"
  have "valid (backed R) (Stop E i) (\<lambda>_. reached ?A) (reached ?A)"
    by (rule reached_spec [OF Stop_backed]) simp_all
  then have "valid (backed R) (ignore (Stop E i)) (\<lambda>_. reached ?A) (reached ?A)"
    unfolding ignore_def by (rule valid_attempt [where R = "\<lambda>_. reached ?A"]) (simp_all add: valid_ret)
  then show ?thesis
    unfolding DeleteTunnel_def
    by (rule valid_bnd) (unfold valid_preserves, rule grown_maps [OF maps_run [OF keeps_tun_Delete [THEN keeps_more_run]]])
qed

lemma run_op_valid:
  "valid (backed R) (run_op E p) (\<lambda>_. reached (life_spec p True R)) (reached (life_spec p False R))"
proof (cases p)
  case (StartTunnel i) then show ?thesis by (simp add: reached_spec [OF Start_backed])
next
  case (StopTunnel i) then show ?thesis by (simp add: reached_spec [OF Stop_backed])
next
  case RestoreAll
  have "valid (backed R) (RestoreRunning E) (\<lambda>_. reached (\<lambda>R'. R \<subseteq> R')) (reached (\<lambda>R'. False))"
    by (rule reached_returns [OF Restore_grows(1) _ _ Restore_grows(2)]) (auto simp: reached_def)
  then show ?thesis unfolding RestoreAll run_op.simps by (rule reached_weaken) simp_all
next
  case StopAll
  have "valid (backed R) (ShutdownAll E) (\<lambda>_. reached (\<lambda>R'. R' = {})) (reached (\<lambda>R'. False))"
    by (rule valid_weaken [OF Shutdown_empties [where E' = "\<lambda>_. False"]]) (auto simp: reached_def)
  then show ?thesis unfolding StopAll run_op.simps by (rule reached_weaken) simp_all
next
  case (PutNodes i ns s)
  then show ?thesis by (simp add: reached_spec [OF nodes_spec])
next
  case (RemoveTunnel i)
  show ?thesis unfolding RemoveTunnel run_op.simps by (rule reached_weaken [OF remove_spec]) simp_all
next
  case (ReloadTunnelNodes i) then show ?thesis by (simp add: reached_spec [OF ReloadNodes_backed])
qed (simp_all add: maps_spec maps_use_cases maps_calls maps_bnd maps_simple)

section \<open>Runs of the service\<close>

text \<open>What of the world other parts of the program and other processes leave alone: the managers' maps, the running
  set, and the devices and instances of this process.\<close>

definition same_runtime :: "('k \<Rightarrow> net_view) \<Rightarrow> ('k, 'a) run_world_scheme \<Rightarrow> ('k, 'a) run_world_scheme \<Rightarrow> bool" where
  "same_runtime view v w \<longleftrightarrow> rw_devices w = rw_devices v \<and> rw_instances w = rw_instances v \<and> rw_running w = rw_running v
     \<and> rw_tracking w = rw_tracking v \<and> nv_devs (at_host view w) = nv_devs (at_host view v) \<and> nv_live (at_host view w) = nv_live (at_host view v)"

inductive service_runs :: "'k env \<Rightarrow> ('k \<Rightarrow> net_view) \<Rightarrow> ('k, 'a) run_world_scheme \<Rightarrow> ('k, 'a) run_world_scheme \<Rightarrow> bool" for E view w where
  initially: "service_runs E view w w"
| operation: "service_runs E view w v \<Longrightarrow> service_runs E view w (snd (run_op E p v))"
| elsewhere: "service_runs E view w v \<Longrightarrow> same_runtime view v u \<Longrightarrow> service_runs E view w u"

text \<open>The process as it starts: nothing runs, nothing is open.\<close>

definition fresh_process :: "('k \<Rightarrow> net_view) \<Rightarrow> ('k, 'a) run_world_scheme \<Rightarrow> bool" where
  "fresh_process view w \<longleftrightarrow> rw_devices w = Map.empty \<and> rw_instances w = Map.empty \<and> rw_running w = [] \<and> rw_tracking w = []
     \<and> nv_devs (at_host view w) = [] \<and> nv_live (at_host view w) = []"

lemma run_op_reached:
  fixes w :: "('k, 'a) run_world_scheme"
  assumes "backed R w" "run_op E p w = (r, w')"
  shows "\<exists>R'. life_spec p (r = Inr ()) R R' \<and> backed R' w'"
  using validD [OF run_op_valid [of R E p] assms(1)] assms(2)
  by (cases r) (simp_all add: reached_def)

lemma backed_set: "backed R w \<Longrightarrow> set (rw_running w) = R"
  by (simp add: backed_def)

lemma runs_backed:
  assumes "service_runs E view w v" "fresh_process view w"
  shows "backed (set (rw_running v)) v"
  using assms
proof (induction rule: service_runs.induct)
  case initially
  then show ?case by (simp add: fresh_process_def backed_def)
next
  case (operation v p)
  obtain r v' where m: "run_op E p v = (r, v')" by fastforce
  with run_op_reached [OF operation.IH [OF operation.prems] m] backed_set show ?case by fastforce
next
  case (elsewhere v u)
  then show ?case by (simp add: same_runtime_def backed_def live_at_def)
qed


text \<open>C28: the service refines its specification: by each operation the set of running tunnels changes as \<open>life_spec\<close>
  says for its outcome. A start that fails and a stop that fails leave it as it was, restoring only adds, a
  shutdown empties it, and no other operation changes it.\<close>

theorem service_refines:
  assumes "service_runs E view w v" "fresh_process view w" "run_op E p v = (r, v')"
  shows "life_spec p (r = Inr ()) (set (rw_running v)) (set (rw_running v'))"
proof -
  obtain R' where "life_spec p (r = Inr ()) (set (rw_running v)) R'" "backed R' v'"
    using run_op_reached [OF runs_backed [OF assms(1,2)] assms(3)] by blast
  then show ?thesis using backed_set by auto
qed

lemma sample_fresh: "fresh_process (\<lambda>v. v) sample_run"
  by (simp add: fresh_process_def sample_run_def sample_view_def)


theorem service_refines_witness:
  "case Start (sample_env {''FORWARD''}) 1 sample_run of (r, w) \<Rightarrow> set (rw_running w) = (if r = Inr () then {1} else {})"
proof -
  obtain r w where m: "Start (sample_env {''FORWARD''}) 1 sample_run = (r, w)" by fastforce
  show ?thesis
    using service_refines [OF service_runs.initially sample_fresh, of "sample_env {''FORWARD''}" "StartTunnel 1" r w] m
    by (simp add: sample_run_def)
qed

end
