(* ===== verification/Ownership.thy ===== *)
theory Ownership
  imports RunLife
begin

text \<open>
  Who owns the devices and the instances: in every state the service can reach, the open WireGuard devices and the
  live Xray instances are exactly those in the managers' maps, one per tunnel, so that none leaks and none is
  closed twice.
\<close>

section \<open>Counting\<close>

definition held :: "('b \<Rightarrow> nat) \<Rightarrow> (int \<rightharpoonup> 'b) \<Rightarrow> nat multiset" where
  "held f m = image_mset (\<lambda>i. f (the (m i))) (mset_set (dom m))"

lemma held_none [simp]: "held f Map.empty = {#}"
  by (simp add: held_def)

lemma held_insert:
  assumes "finite (dom m)"
  shows "held f (m(i \<mapsto> x)) = add_mset (f x) (held f (m(i := None)))"
proof -
  let ?d = "dom m - {i}" and ?m = "m(i \<mapsto> x)"
  have d: "dom ?m = insert i ?d" by auto
  have ms: "mset_set (insert i ?d) = add_mset i (mset_set ?d)" by (rule mset_set.insert) (use assms in auto)
  have "held f ?m = add_mset (f x) (image_mset (\<lambda>j. f (the (?m j))) (mset_set ?d))"
    unfolding held_def d ms by simp
  also have "image_mset (\<lambda>j. f (the (?m j))) (mset_set ?d) = image_mset (\<lambda>j. f (the ((m(i := None)) j))) (mset_set ?d)"
    using assms by (intro image_mset_cong) auto
  also have "\<dots> = held f (m(i := None))" by (simp add: held_def)
  finally show ?thesis .
qed

lemma held_remove:
  assumes "finite (dom m)"
  shows "held f (m(i := None)) = (case m i of None \<Rightarrow> held f m | Some y \<Rightarrow> held f m - {#f y#})"
proof (cases "m i")
  case None
  then have "m(i := None) = m" by auto
  with None show ?thesis by simp
next
  case (Some y)
  then have "m(i \<mapsto> y) = m" by auto
  with held_insert [OF assms, of f i y] Some show ?thesis by simp
qed

lemma held_member: "finite (dom m) \<Longrightarrow> m i = Some y \<Longrightarrow> f y \<in># held f m"
  unfolding held_def by (force simp: domI)

section \<open>The invariant\<close>

definition owned :: "('k \<Rightarrow> net_view) \<Rightarrow> ('k, 'a) run_world_scheme \<Rightarrow> bool" where
  "owned view w \<longleftrightarrow> finite (dom (rw_devices w)) \<and> finite (dom (rw_instances w))
     \<and> mset (nv_devs (at_host view w)) = held md_dev (rw_devices w)
     \<and> mset (nv_live (at_host view w)) = held (\<lambda>x. x) (rw_instances w)"

text \<open>\<open>core.New\<close> makes a new instance, not one that is live already.\<close>

definition new_law :: "'k host \<Rightarrow> ('k \<Rightarrow> net_view) \<Rightarrow> bool" where
  "new_law H view \<longleftrightarrow> (\<forall>c k x k'. xr_New H c k = (Inr x, k') \<longrightarrow> x \<notin> set (nv_live (view k)))"

text \<open>Inside an operation: the maps are \<open>D\<close> and \<open>N\<close>, the open devices \<open>A\<close>, the live instances \<open>B\<close>.\<close>

definition counts :: "nat multiset \<Rightarrow> nat multiset \<Rightarrow> net_view \<Rightarrow> bool" where
  "counts A B v \<longleftrightarrow> mset (nv_devs v) = A \<and> mset (nv_live v) = B"

definition at_maps :: "('k \<Rightarrow> net_view) \<Rightarrow> (int \<rightharpoonup> managed_device) \<Rightarrow> (int \<rightharpoonup> nat) \<Rightarrow> (net_view \<Rightarrow> bool) \<Rightarrow> ('k, 'a) run_world_scheme \<Rightarrow> bool" where
  "at_maps view D N P w \<longleftrightarrow> rw_devices w = D \<and> rw_instances w = N \<and> P (at_host view w)"

lemma counts_devs_only: "devs_only (counts A B)"
  by (simp add: devs_only_def counts_def)

lemma owned_at:
  "owned view w \<longleftrightarrow> finite (dom (rw_devices w)) \<and> finite (dom (rw_instances w))
     \<and> at_maps view (rw_devices w) (rw_instances w) (counts (held md_dev (rw_devices w)) (held (\<lambda>x. x) (rw_instances w))) w"
  by (simp add: owned_def at_maps_def counts_def)

lemma owned_preserves:
  fixes m :: "('k, 'a, 'r) run_call"
  assumes "\<And>D N. finite (dom D) \<Longrightarrow> finite (dom N) \<Longrightarrow>
    valid (at_maps view D N (counts (held md_dev D) (held (\<lambda>x. x) N))) m (\<lambda>_. owned view) (owned view)"
  shows "preserves (owned view) m"
  unfolding valid_preserves [symmetric]
proof (rule validI)
  fix w :: "('k, 'a) run_world_scheme" assume w: "owned view w"
  then have f: "finite (dom (rw_devices w))" "finite (dom (rw_instances w))" by (simp_all add: owned_def)
  from validD [OF assms [OF f]] w show "case m w of (Inr x, t) \<Rightarrow> owned view t | (Inl e, t) \<Rightarrow> owned view t"
    by (simp add: owned_at)
qed

lemma at_on_host:
  assumes "vtriple view P m Q F"
  shows "valid (at_maps view D N P) (on_host m) (\<lambda>x. at_maps view D N (Q x)) (at_maps view D N F)"
proof (rule validI)
  fix w assume "at_maps view D N P w"
  then have w: "rw_devices w = D" "rw_instances w = N" "P (view (rw_host w))" by (simp_all add: at_maps_def)
  have "case m (rw_host w) of (Inr x, t) \<Rightarrow> Q x (view t) | (Inl e, t) \<Rightarrow> F (view t)"
    using assms w(3) unfolding vtriple_def by (rule validD)
  with w(1,2) show "case on_host m w of (Inr x, t) \<Rightarrow> at_maps view D N (Q x) t | (Inl e, t) \<Rightarrow> at_maps view D N F t"
    by (cases "m (rw_host w)"; cases "fst (m (rw_host w))") (simp_all add: on_host_def at_maps_def)
qed

lemma owned_run: "keeps_run m \<Longrightarrow> preserves (owned view) m"
  unfolding keeps_run_def preserves_def owned_def run_part_parts by simp

lemma owned_on_host:
  fixes m :: "('k, 'r) call"
  assumes "\<And>A B. preserves (\<lambda>k. counts A B (view k)) m"
  shows "preserves (owned view) (on_host m)"
  unfolding preserves_def owned_def
proof (intro allI impI)
  fix w :: "('k, 'a) run_world_scheme"
  assume w: "finite (dom (rw_devices w)) \<and> finite (dom (rw_instances w)) \<and> mset (nv_devs (at_host view w)) = held md_dev (rw_devices w)
     \<and> mset (nv_live (at_host view w)) = held (\<lambda>x. x) (rw_instances w)"
  obtain r h where m: "m (rw_host w) = (r, h)" by fastforce
  have "counts (held md_dev (rw_devices w)) (held (\<lambda>x. x) (rw_instances w)) (view h)"
    by (rule preservesD [OF assms _ m]) (use w in \<open>simp add: counts_def\<close>)
  with w m show "finite (dom (rw_devices (snd (on_host m w)))) \<and> finite (dom (rw_instances (snd (on_host m w))))
     \<and> mset (nv_devs (at_host view (snd (on_host m w)))) = held md_dev (rw_devices (snd (on_host m w)))
     \<and> mset (nv_live (at_host view (snd (on_host m w)))) = held (\<lambda>x. x) (rw_instances (snd (on_host m w)))"
    by (simp add: on_host_def counts_def)
qed

lemma valid_preserves_any: "valid P m (\<lambda>_. Q) Q \<longleftrightarrow> (\<forall>s. P s \<longrightarrow> Q (snd (m s)))"
proof -
  have "(case x of (Inr y, t) \<Rightarrow> Q t | (Inl e, t) \<Rightarrow> Q t) = Q (snd x)" for x :: "('b + 'c) \<times> 'a"
    by (cases x; cases "fst x") simp_all
  then show ?thesis by (simp add: valid_def)
qed

section \<open>The operations keep it\<close>

lemma vt_counts:
  assumes "dev_law H view"
  shows "vtriple view (counts A B) (wg_CreateTUN H n mtu) (\<lambda>d. counts (add_mset d A) B) (counts A B)"
    "vtriple view (counts A B) (ignore (wg_Close H d)) (\<lambda>_. counts (A - {#d#}) B) F"
    "vtriple view (counts A B) (ignore (xr_Close H i)) (\<lambda>_. counts A (B - {#i#})) F"
    "vtriple view (counts A B) (xr_Start H i) (\<lambda>_. counts A (add_mset i B)) (counts A B)"
    "vtriple view (counts A B) (wg_IpcSet H d s) (\<lambda>_. counts A B) (counts A B)"
    "vtriple view (counts A B) (wg_UAPIOpen H tun) (\<lambda>_. counts A B) (counts A B)"
    "vtriple view (counts A B) (wg_UAPIListen H tun u) (\<lambda>_. counts A B) (counts A B)"
    "vtriple view (counts A B) (wg_UAPIClose H u) (\<lambda>_. counts A B) (counts A B)"
    "vtriple view (counts A B) (xr_Load H j) (\<lambda>_. counts A B) (counts A B)"
proof -
  note law = dev_laws [OF assms]
  show "vtriple view (counts A B) (wg_CreateTUN H n mtu) (\<lambda>d. counts (add_mset d A) B) (counts A B)"
    by (rule vt_acts [OF law(1)]) (simp_all add: counts_def)
  show "vtriple view (counts A B) (ignore (wg_Close H d)) (\<lambda>_. counts (A - {#d#}) B) F"
    by (rule vt_ignore) (simp add: vtriple_def valid_preserves_any law(2) counts_def)
  show "vtriple view (counts A B) (ignore (xr_Close H i)) (\<lambda>_. counts A (B - {#i#})) F"
    by (rule vt_ignore) (simp add: vtriple_def valid_preserves_any law(10) counts_def)
  show "vtriple view (counts A B) (xr_Start H i) (\<lambda>_. counts A (add_mset i B)) (counts A B)"
    by (rule vt_acts [OF law(9)]) (simp_all add: counts_def)
qed (rule vt_frame, rule dev_laws [OF assms])+

lemma vt_uapi:
  assumes "dev_law H view"
  shows "vtriple view (counts A B) (startUAPI H tun) (\<lambda>_. counts A B) (counts A B)"
  unfolding startUAPI_def
  by (rule vt_attempt [where R = "\<lambda>_. counts A B"], rule vt_counts [OF assms], assumption)
    (auto intro!: vt_fail vt_ret vt_attempt [where R = "\<lambda>_. counts A B", OF vt_counts(7) [OF assms]] vt_bnd [OF vt_ignore [OF vt_counts(8) [OF assms]]] split: sum.split)

lemma vt_close_device:
  assumes "dev_law H view"
  shows "vtriple view (counts A B) (close_device H md) (\<lambda>_. counts (A - {#md_dev md#}) B) F"
  unfolding close_device_def
  by (rule vt_bnd [where R = "\<lambda>_. counts A B"])
    (auto intro: vt_ret vt_ignore vt_counts [OF assms] split: option.split)

text \<open>Swapping the device or the instance of a tunnel: the old one is closed, then the new one takes its place.\<close>

lemma diff_add_member: "y \<in># M \<Longrightarrow> add_mset x M - {#y#} = add_mset x (M - {#y#})"
  by (simp add: multiset_diff_union_assoc)

lemma swap_device:
  assumes "dev_law (en_host E) view" "finite (dom D)" "finite (dom N)"
  shows "valid (at_maps view D N (counts (add_mset dev (held md_dev D)) (held (\<lambda>x. x) N)))
     (bnd (gets (\<lambda>w. rw_devices w i)) (\<lambda>prev.
      bnd (case prev of None \<Rightarrow> ret () | Some md \<Rightarrow> on_host (close_device (en_host E) md)) (\<lambda>_.
      upd (\<lambda>w. w\<lparr>rw_devices := (rw_devices w)(i \<mapsto> \<lparr>md_dev = dev, md_uapi = u\<rparr>)\<rparr>)))) (\<lambda>_. owned view) (owned view)"
proof (rule valid_known [where C = "\<lambda>prev. prev = D i"])
  let ?P = "at_maps view D N (counts (add_mset dev (held md_dev D)) (held (\<lambda>x. x) N))"
  show "valid ?P (gets (\<lambda>w. rw_devices w i)) (\<lambda>x w. x = D i \<and> ?P w) (owned view)"
    by (simp add: valid_def gets_def at_maps_def)
  fix prev assume prev: "prev = D i"
  let ?H = "held md_dev (D(i := None))"
  have "valid ?P (case prev of None \<Rightarrow> ret () | Some md \<Rightarrow> on_host (close_device (en_host E) md))
      (\<lambda>_. at_maps view D N (counts (add_mset dev ?H) (held (\<lambda>x. x) N))) (owned view)"
  proof (cases prev)
    case None
    then show ?thesis using prev held_remove [OF assms(2), of md_dev i] by (auto intro: valid_ret)
  next
    case (Some md)
    have h: "add_mset dev (held md_dev D) - {#md_dev md#} = add_mset dev ?H"
      using held_remove [OF assms(2), of md_dev i] held_member [OF assms(2), of i md md_dev] Some prev
      by (simp add: diff_add_member)
    have "valid ?P (on_host (close_device (en_host E) md))
        (\<lambda>_. at_maps view D N (counts (add_mset dev ?H) (held (\<lambda>x. x) N))) (at_maps view D N (counts {#} {#}))"
      using at_on_host [OF vt_close_device [OF assms(1)]] unfolding h [symmetric] .
    then have "valid ?P (on_host (close_device (en_host E) md))
        (\<lambda>_. at_maps view D N (counts (add_mset dev ?H) (held (\<lambda>x. x) N))) (owned view)"
      by (rule valid_returns) (unfold close_device_def, intro returns_intro)
    then show ?thesis by (simp add: Some)
  qed
  moreover have "valid (at_maps view D N (counts (add_mset dev ?H) (held (\<lambda>x. x) N)))
      (upd (\<lambda>w. w\<lparr>rw_devices := (rw_devices w)(i \<mapsto> \<lparr>md_dev = dev, md_uapi = u\<rparr>)\<rparr>)) (\<lambda>_. owned view) (owned view)"
    by (rule valid_upd) (use assms(2,3) in \<open>simp add: at_maps_def owned_def counts_def held_insert\<close>)
  ultimately show "valid ?P (bnd (case prev of None \<Rightarrow> ret () | Some md \<Rightarrow> on_host (close_device (en_host E) md)) (\<lambda>_.
      upd (\<lambda>w. w\<lparr>rw_devices := (rw_devices w)(i \<mapsto> \<lparr>md_dev = dev, md_uapi = u\<rparr>)\<rparr>))) (\<lambda>_. owned view) (owned view)"
    by (rule valid_bnd)
qed

lemma swap_instance:
  assumes "dev_law (en_host E) view" "finite (dom D)" "finite (dom N)"
  shows "valid (at_maps view D N (counts (held md_dev D) (add_mset inst (held (\<lambda>x. x) N))))
     (bnd (gets (\<lambda>w. rw_instances w i)) (\<lambda>old.
      bnd (case old of None \<Rightarrow> ret () | Some x \<Rightarrow> on_host (ignore (xr_Close (en_host E) x))) (\<lambda>_.
      upd (\<lambda>w. w\<lparr>rw_instances := (rw_instances w)(i \<mapsto> inst)\<rparr>)))) (\<lambda>_. owned view) (owned view)"
proof (rule valid_known [where C = "\<lambda>old. old = N i"])
  let ?P = "at_maps view D N (counts (held md_dev D) (add_mset inst (held (\<lambda>x. x) N)))"
  show "valid ?P (gets (\<lambda>w. rw_instances w i)) (\<lambda>x w. x = N i \<and> ?P w) (owned view)"
    by (simp add: valid_def gets_def at_maps_def)
  fix old assume old: "old = N i"
  let ?H = "held (\<lambda>x. x) (N(i := None))"
  have "valid ?P (case old of None \<Rightarrow> ret () | Some x \<Rightarrow> on_host (ignore (xr_Close (en_host E) x)))
      (\<lambda>_. at_maps view D N (counts (held md_dev D) (add_mset inst ?H))) (owned view)"
  proof (cases old)
    case None
    then show ?thesis using old held_remove [OF assms(3), of "\<lambda>x. x" i] by (auto intro: valid_ret)
  next
    case (Some x)
    have h: "add_mset inst (held (\<lambda>x. x) N) - {#x#} = add_mset inst ?H"
      using held_remove [OF assms(3), of "\<lambda>x. x" i] held_member [OF assms(3), of i x "\<lambda>x. x"] Some old
      by (simp add: diff_add_member)
    have "valid ?P (on_host (ignore (xr_Close (en_host E) x)))
        (\<lambda>_. at_maps view D N (counts (held md_dev D) (add_mset inst ?H))) (at_maps view D N (counts {#} {#}))"
      using at_on_host [OF vt_counts(3) [OF assms(1)]] unfolding h [symmetric] .
    then have "valid ?P (on_host (ignore (xr_Close (en_host E) x)))
        (\<lambda>_. at_maps view D N (counts (held md_dev D) (add_mset inst ?H))) (owned view)"
      by (rule valid_returns) (intro returns_intro)
    then show ?thesis by (simp add: Some)
  qed
  moreover have "valid (at_maps view D N (counts (held md_dev D) (add_mset inst ?H)))
      (upd (\<lambda>w. w\<lparr>rw_instances := (rw_instances w)(i \<mapsto> inst)\<rparr>)) (\<lambda>_. owned view) (owned view)"
    by (rule valid_upd) (use assms(2,3) in \<open>simp add: at_maps_def owned_def counts_def held_insert\<close>)
  ultimately show "valid ?P (bnd (case old of None \<Rightarrow> ret () | Some x \<Rightarrow> on_host (ignore (xr_Close (en_host E) x))) (\<lambda>_.
      upd (\<lambda>w. w\<lparr>rw_instances := (rw_instances w)(i \<mapsto> inst)\<rparr>))) (\<lambda>_. owned view) (owned view)"
    by (rule valid_bnd)
qed

lemma owned_wg_Create:
  assumes "dev_law (en_host E) view"
  shows "preserves (owned view) (wg_Create E i mtu port priv peers psk tun)"
proof (rule owned_preserves)
  fix D :: "int \<rightharpoonup> managed_device" and N :: "int \<rightharpoonup> nat"
  assume f: "finite (dom D)" "finite (dom N)"
  let ?P = "\<lambda>A. at_maps view D N (counts A (held (\<lambda>x. x) N))"
  let ?A = "held md_dev D"
  have owned: "owned view w" if "?P ?A w" for w using that f by (simp add: at_maps_def owned_def counts_def)
  note host = at_on_host [where view = view and D = D and N = N]
  have create: "valid (?P ?A) (on_host (wg_CreateTUN (en_host E) tun mtu)) (\<lambda>dev. ?P (add_mset dev ?A)) (owned view)"
    by (rule valid_weaken [OF host [OF vt_counts(1) [OF assms]]]) (auto intro: owned)
  have ipc: "valid (?P (add_mset dev ?A)) (on_host (wg_IpcSet (en_host E) dev cfg)) (\<lambda>_. ?P (add_mset dev ?A)) (?P (add_mset dev ?A))" for dev cfg
    by (rule host [OF vt_counts(5) [OF assms]])
  have uapi: "valid (?P (add_mset dev ?A)) (on_host (startUAPI (en_host E) tun)) (\<lambda>_. ?P (add_mset dev ?A)) (?P (add_mset dev ?A))" for dev
    by (rule host [OF vt_uapi [OF assms]])
  have close: "valid (?P (add_mset dev ?A)) (bnd (on_host (ignore (wg_Close (en_host E) dev))) (\<lambda>_. fail e)) (\<lambda>_. owned view) (owned view)" for dev and e :: go_error
  proof (rule valid_done)
    have "valid (?P (add_mset dev ?A)) (on_host (ignore (wg_Close (en_host E) dev))) (\<lambda>_. ?P ?A) (?P ?A)"
      using host [OF vt_counts(2) [OF assms], of "add_mset dev ?A" "held (\<lambda>x. x) N" dev "counts ?A (held (\<lambda>x. x) N)"] by simp
    then show "valid (?P (add_mset dev ?A)) (on_host (ignore (wg_Close (en_host E) dev))) (\<lambda>_. owned view) (owned view)"
      by (rule valid_weaken) (auto intro: owned)
  qed
  show "valid (?P ?A) (wg_Create E i mtu port priv peers psk tun) (\<lambda>_. owned view) (owned view)"
    unfolding wg_Create_def Let_def
    by (rule valid_bnd [OF create], rule valid_case_sum [OF close],
        rule valid_attempt [where R = "\<lambda>_. ?P (add_mset dev ?A)" for dev, OF ipc], assumption, rule valid_case_sum [OF close],
        rule valid_attempt [where R = "\<lambda>_. ?P (add_mset dev ?A)" for dev, OF uapi], assumption, rule swap_device [OF assms f])
qed

lemma owned_xray_Start:
  assumes "dev_law (en_host E) view" "new_law (en_host E) view"
  shows "preserves (owned view) (xray_Start E i xport mark gw nodes strategy)"
proof (rule owned_preserves)
  fix D :: "int \<rightharpoonup> managed_device" and N :: "int \<rightharpoonup> nat"
  assume f: "finite (dom D)" "finite (dom N)"
  let ?A = "held md_dev D" and ?B = "held (\<lambda>x. x) N"
  let ?P = "\<lambda>B. at_maps view D N (counts ?A B)"
  have owned: "owned view w" if "?P ?B w" for w using that f by (simp add: at_maps_def owned_def counts_def)
  note host = at_on_host [where view = view and D = D and N = N]
  have load: "valid (?P ?B) (on_host (xr_Load (en_host E) raw)) (\<lambda>_. ?P ?B) (owned view)" for raw
    by (rule valid_weaken [OF host [OF vt_counts(9) [OF assms(1)]]]) (auto intro: owned)
  have new: "valid (?P ?B) (on_host (xr_New (en_host E) cfg)) (\<lambda>inst w. inst \<notin># ?B \<and> ?P ?B w) (owned view)" for cfg
  proof (rule valid_weaken [OF host])
    show "vtriple view (counts ?A ?B) (xr_New (en_host E) cfg) (\<lambda>inst v. inst \<notin># ?B \<and> counts ?A ?B v) (counts ?A ?B)"
      unfolding vtriple_def
    proof (rule validI)
      fix k assume k: "counts ?A ?B (view k)"
      obtain r k' where m: "xr_New (en_host E) cfg k = (r, k')" by fastforce
      have v: "view k' = view k"
        using spec [OF dev_laws(8) [OF assms(1), of cfg, unfolded acts_def], of k] m by (cases r) simp_all
      have "x \<notin># ?B" if "r = Inr x" for x
        using assms(2) m that k unfolding new_law_def counts_def by (metis set_mset_mset)
      with k v m show "case xr_New (en_host E) cfg k of (Inr x, t) \<Rightarrow> x \<notin># ?B \<and> counts ?A ?B (view t) | (Inl e, t) \<Rightarrow> counts ?A ?B (view t)"
        by (cases r) simp_all
    qed
  qed (auto simp: at_maps_def intro: owned)
  have run: "valid (?P ?B) (attempt (on_host (xr_Start (en_host E) inst)) (\<lambda>r. case r of
      Inl e \<Rightarrow> bnd (on_host (ignore (xr_Close (en_host E) inst))) (\<lambda>_. fail e)
    | Inr _ \<Rightarrow> bnd (gets (\<lambda>w. rw_instances w i)) (\<lambda>old.
        bnd (case old of None \<Rightarrow> ret () | Some x \<Rightarrow> on_host (ignore (xr_Close (en_host E) x))) (\<lambda>_.
        upd (\<lambda>w. w\<lparr>rw_instances := (rw_instances w)(i \<mapsto> inst)\<rparr>))))) (\<lambda>_. owned view) (owned view)" if "inst \<notin># ?B" for inst
  proof (rule valid_attempt [where R = "\<lambda>r. case r of Inl e \<Rightarrow> ?P ?B | Inr x \<Rightarrow> ?P (add_mset inst ?B)" and E' = "?P ?B"])
    show "valid (?P ?B) (on_host (xr_Start (en_host E) inst)) (\<lambda>x. case Inr x of Inl e \<Rightarrow> ?P ?B | Inr x \<Rightarrow> ?P (add_mset inst ?B)) (?P ?B)"
      using host [OF vt_counts(4) [OF assms(1)]] by simp
    have close: "valid (?P ?B) (bnd (on_host (ignore (xr_Close (en_host E) inst))) (\<lambda>_. fail e)) (\<lambda>_. owned view) (owned view)" for e :: go_error
    proof (rule valid_done)
      have "valid (?P ?B) (on_host (ignore (xr_Close (en_host E) inst))) (\<lambda>_. ?P ?B) (?P ?B)"
        using host [OF vt_counts(3) [OF assms(1)], of ?A ?B inst "counts ?A ?B"] that by (simp add: diff_single_trivial)
      then show "valid (?P ?B) (on_host (ignore (xr_Close (en_host E) inst))) (\<lambda>_. owned view) (owned view)"
        by (rule valid_weaken) (auto intro: owned)
    qed
    show "valid (case r of Inl e \<Rightarrow> ?P ?B | Inr x \<Rightarrow> ?P (add_mset inst ?B)) (case r of
      Inl e \<Rightarrow> bnd (on_host (ignore (xr_Close (en_host E) inst))) (\<lambda>_. fail e)
    | Inr _ \<Rightarrow> bnd (gets (\<lambda>w. rw_instances w i)) (\<lambda>old.
        bnd (case old of None \<Rightarrow> ret () | Some x \<Rightarrow> on_host (ignore (xr_Close (en_host E) x))) (\<lambda>_.
        upd (\<lambda>w. w\<lparr>rw_instances := (rw_instances w)(i \<mapsto> inst)\<rparr>)))) (\<lambda>_. owned view) (owned view)" for r :: "go_error + unit"
      using close swap_instance [OF assms(1) f] by (cases r) simp_all
  qed simp
  show "valid (?P ?B) (xray_Start E i xport mark gw nodes strategy) (\<lambda>_. owned view) (owned view)"
    unfolding xray_Start_def Let_def
    by (rule valid_if, rule valid_fail, erule owned, rule valid_bnd [where R = "\<lambda>_. ?P ?B"], rule valid_lift, erule owned, assumption,
        rule valid_bnd [OF load], rule valid_known [OF new], erule run)
qed

lemma owned_stops:
  assumes "dev_law (en_host E) view"
  shows "preserves (owned view) (wg_Destroy E i)" "preserves (owned view) (xray_Stop E i)"
proof -
  note host = at_on_host [where view = view]
  show "preserves (owned view) (wg_Destroy E i)"
  proof (rule owned_preserves)
    fix D :: "int \<rightharpoonup> managed_device" and N :: "int \<rightharpoonup> nat"
    assume f: "finite (dom D)" "finite (dom N)"
    let ?P = "\<lambda>D A. at_maps view D N (counts A (held (\<lambda>x. x) N))"
    let ?D = "D(i := None)"
    have get: "valid (?P D (held md_dev D)) (gets (\<lambda>w. rw_devices w i)) (\<lambda>md w. md = D i \<and> ?P D (held md_dev D) w) (owned view)"
      by (simp add: valid_def gets_def at_maps_def)
    have cut: "valid (?P D (held md_dev D)) (upd (\<lambda>w. w\<lparr>rw_devices := (rw_devices w)(i := None)\<rparr>)) (\<lambda>_. ?P ?D (held md_dev D)) (owned view)"
      by (rule valid_upd) (simp add: at_maps_def)
    have close: "valid (?P ?D (held md_dev D)) (on_host (close_device (en_host E) md)) (\<lambda>_. owned view) (owned view)" if "D i = Some md" for md
    proof (rule valid_returns [OF valid_weaken [OF host [OF vt_close_device [OF assms]]]])
      show "owned view w" if "at_maps view ?D N (counts (held md_dev D - {#md_dev md#}) (held (\<lambda>x. x) N)) w" for w
        using that \<open>D i = Some md\<close> f held_remove [OF f(1), of md_dev i] by (simp add: at_maps_def owned_def counts_def)
    qed (simp_all add: close_device_def returns_intro)
    have owned: "owned view w" if "?P D (held md_dev D) w" for w using that f by (simp add: at_maps_def owned_def counts_def)
    show "valid (?P D (held md_dev D)) (wg_Destroy E i) (\<lambda>_. owned view) (owned view)"
      unfolding wg_Destroy_def
      by (rule valid_known [OF get], rule valid_case_option, rule valid_ret, erule owned, rule valid_bnd [OF cut], rule close, simp)
  qed
  show "preserves (owned view) (xray_Stop E i)"
  proof (rule owned_preserves)
    fix D :: "int \<rightharpoonup> managed_device" and N :: "int \<rightharpoonup> nat"
    assume f: "finite (dom D)" "finite (dom N)"
    let ?P = "\<lambda>N B. at_maps view D N (counts (held md_dev D) B)"
    let ?B = "held (\<lambda>x. x) N" and ?N = "N(i := None)"
    have get: "valid (?P N ?B) (gets (\<lambda>w. rw_instances w i)) (\<lambda>md w. md = N i \<and> ?P N ?B w) (owned view)"
      by (simp add: valid_def gets_def at_maps_def)
    have cut: "valid (?P N ?B) (upd (\<lambda>w. w\<lparr>rw_instances := (rw_instances w)(i := None)\<rparr>)) (\<lambda>_. ?P ?N ?B) (owned view)"
      by (rule valid_upd) (simp add: at_maps_def)
    have close: "valid (?P ?N ?B) (on_host (xr_Close (en_host E) x)) (\<lambda>_. owned view) (owned view)" if "N i = Some x" for x
    proof (rule valid_weaken [OF host])
      show "vtriple view (counts (held md_dev D) ?B) (xr_Close (en_host E) x) (\<lambda>_. counts (held md_dev D) (?B - {#x#})) (counts (held md_dev D) (?B - {#x#}))"
        by (simp add: vtriple_def valid_preserves_any dev_laws(10) [OF assms] counts_def)
      show "owned view w" if "at_maps view D ?N (counts (held md_dev D) (?B - {#x#})) w" for w
        using that \<open>N i = Some x\<close> f held_remove [OF f(2), of "\<lambda>x. x" i] by (simp add: at_maps_def owned_def counts_def)
      then show "owned view w" if "at_maps view D ?N (counts (held md_dev D) (?B - {#x#})) w" for w
        using that .
    qed
    have owned: "owned view w" if "?P N ?B w" for w using that f by (simp add: at_maps_def owned_def counts_def)
    show "valid (?P N ?B) (xray_Stop E i) (\<lambda>_. owned view) (owned view)"
      unfolding xray_Stop_def
      by (rule valid_known [OF get], rule valid_case_option, rule valid_ret, erule owned, rule valid_bnd [OF cut], rule close, simp)
  qed
qed

text \<open>The functions of netconf and the reloading of peers open and close nothing.\<close>

lemma owned_netconf:
  assumes "host_law (en_host E) view"
  shows "preserves (owned view) (on_host (SetupForwardRules (en_host E) tun))" "preserves (owned view) (on_host (TeardownForwardRules (en_host E) tun))"
    "preserves (owned view) (on_host (SetupNATMasquerade (en_host E) tun sub))" "preserves (owned view) (on_host (TeardownNATMasquerade (en_host E) tun sub))"
    "preserves (owned view) (on_host (SetupTProxy (en_host E) i tun port mark gw flow mss))" "preserves (owned view) (on_host (TeardownTProxy (en_host E) i tun mark))"
    "preserves (owned view) (on_host (SetupReturnRoute (en_host E) mark t))" "preserves (owned view) (on_host (TeardownReturnRoute (en_host E) mark t))"
    "preserves (owned view) (on_host (AssignTUN (en_host E) tun cidr))" "preserves (owned view) (on_host (PrepareTunForTransparentProxy (en_host E) tun))"
    "preserves (owned view) (on_host (wg_IpcSet (en_host E) d s))"
proof -
  have laws: "ipt_law (en_host E) view" "net_law (en_host E) view" "dev_law (en_host E) view" using assms by (simp_all add: host_law_def)
  note net = netconf_keeps [OF laws(1) disjI2, OF counts_devs_only] route_keeps [OF laws(2) disjI2, OF counts_devs_only] address_keeps [OF laws(2)]
  show "preserves (owned view) (on_host (SetupForwardRules (en_host E) tun))" "preserves (owned view) (on_host (TeardownForwardRules (en_host E) tun))"
    "preserves (owned view) (on_host (SetupNATMasquerade (en_host E) tun sub))" "preserves (owned view) (on_host (TeardownNATMasquerade (en_host E) tun sub))"
    "preserves (owned view) (on_host (SetupTProxy (en_host E) i tun port mark gw flow mss))" "preserves (owned view) (on_host (TeardownTProxy (en_host E) i tun mark))"
    "preserves (owned view) (on_host (SetupReturnRoute (en_host E) mark t))" "preserves (owned view) (on_host (TeardownReturnRoute (en_host E) mark t))"
    "preserves (owned view) (on_host (AssignTUN (en_host E) tun cidr))" "preserves (owned view) (on_host (PrepareTunForTransparentProxy (en_host E) tun))"
    by (rule owned_on_host, rule net)+
  show "preserves (owned view) (on_host (wg_IpcSet (en_host E) d s))"
    by (rule owned_on_host) (rule vt_counts(5) [OF laws(3), unfolded vt_keeps])
qed

lemmas own_repos = run_calls [THEN owned_run]

lemma owned_marks:
  "preserves (owned view) (upd (\<lambda>w. w\<lparr>rw_running := f w, rw_tracking := g w\<rparr>))" "preserves (owned view) (upd (\<lambda>w. w\<lparr>rw_running := f w\<rparr>))"
  by (rule preserves_upd; simp add: owned_def)+

lemma preserves_case_prod: "(\<And>x y. preserves I (f x y)) \<Longrightarrow> preserves I (case p of (x, y) \<Rightarrow> f x y)"
  by (simp split: prod.split)

lemma owned_run_op:
  assumes "host_law (en_host E) view" "new_law (en_host E) view"
  shows "preserves (owned view) (run_op E p)"
proof -
  have dev: "dev_law (en_host E) view" using assms(1) by (simp add: host_law_def)
  note net = owned_netconf [OF assms(1)]
  note mgr = owned_wg_Create [OF dev] owned_xray_Start [OF dev assms(2)] owned_stops [OF dev]
  note code = keeps_intro preserves_case_prod preserves_case_option preserves_gets preserves_for_each
  have undo: "preserves (owned view) (undo E i tun n)" for i tun n
    unfolding undo_def Let_def by (intro code net mgr)
  have step: "preserves (owned view) (step E i tun n m)" if "preserves (owned view) m" for i tun n m
    unfolding step_def by (intro code undo that own_repos)
  have up: "preserves (owned view) (bring_up E i iface nodes peers psk priv subnet)" for i iface nodes peers psk priv subnet
    unfolding bring_up_def Let_def by (intro code step net mgr)
  have down: "preserves (owned view) (stopInternal E i tun subnet)" for i tun subnet
    unfolding stopInternal_def Let_def by (intro code net mgr owned_marks)
  have start: "preserves (owned view) (Start E i)" for i
    unfolding Start_def IsRunning_def start_with_def finish_start_def by (intro code up down own_repos owned_marks)
  have stop: "preserves (owned view) (Stop E i)" for i
    unfolding Stop_def teardownRuntime_def by (intro code down own_repos)
  have restore: "preserves (owned view) (restore_each E is)" for "is"
    by (induction "is") (auto intro!: code start own_repos)
  have nodes: "preserves (owned view) (ReloadNodes E i)" for i
    unfolding ReloadNodes_def IsRunning_def Let_def by (intro code mgr own_repos)
  have ipc: "preserves (owned view) (wg_ReloadPeers E i mtu port priv peers psk)" for i mtu port priv peers psk
    unfolding wg_ReloadPeers_def by (intro code net)
  have peers: "preserves (owned view) (ReloadPeers E i)" for i
    unfolding ReloadPeers_def IsRunning_def by (intro code ipc own_repos)
  have push: "preserves (owned view) (push_peers E i)" for i
    unfolding push_peers_def by (intro code ipc own_repos)
  show ?thesis
  proof (cases p)
    case RestoreAll
    show ?thesis unfolding RestoreAll run_op.simps RestoreRunning_def by (intro code restore own_repos)
  next
    case StopAll
    have "preserves (owned view) (teardownRuntime E i iface)" for i iface unfolding teardownRuntime_def by (rule down)
    then show ?thesis unfolding StopAll run_op.simps ShutdownAll_def by (intro code own_repos owned_marks)
  next
    case (PutNodes i ns s)
    show ?thesis unfolding PutNodes run_op.simps SetTunnelNodes_def by (intro code nodes own_repos)
  next
    case (RemoveTunnel i)
    show ?thesis unfolding RemoveTunnel run_op.simps DeleteTunnel_def by (intro code stop own_repos)
  next
    case (AddPeer i name key ip)
    show ?thesis unfolding AddPeer run_op.simps peers_Create_def by (intro code push own_repos)
  next
    case (RemovePeer i j)
    show ?thesis unfolding RemovePeer run_op.simps DeleteTunnelPeer_def by (intro code peers own_repos)
  next
    case (PutTunnel i w)
    show ?thesis unfolding PutTunnel run_op.simps by (intro code own_repos)
  next
    case (PostTunnel m inp)
    show ?thesis unfolding PostTunnel run_op.simps by (intro code own_repos)
  next
    case (PutPeer q)
    show ?thesis unfolding PutPeer run_op.simps by (intro code own_repos)
  qed (simp_all add: start stop nodes peers)
qed

lemma runs_owned:
  assumes "host_law (en_host E) view" "new_law (en_host E) view" "service_runs E view w v" "fresh_process view w"
  shows "owned view v"
  using assms(3,4)
proof (induction rule: service_runs.induct)
  case initially
  then show ?case by (simp add: fresh_process_def owned_def)
next
  case (operation v p)
  then show ?case using owned_run_op [OF assms(1,2)] unfolding preserves_def by blast
next
  case (elsewhere v u)
  then show ?case by (simp add: same_runtime_def owned_def)
qed

section \<open>The property\<close>


lemma sample_new_law: "new_law (en_host (sample_env bad)) (\<lambda>v. v)"
proof -
  have le: "x \<in> set xs \<or> x \<le> a \<Longrightarrow> x \<le> fold max xs a" for x a and xs :: "nat list"
    by (induction xs arbitrary: a) (auto simp: max_def)
  have "Suc (fold max xs 0) \<notin> set xs" for xs :: "nat list"
    using le [of "Suc (fold max xs 0)" xs 0] by auto
  then show ?thesis by (auto simp: new_law_def sample_env_def sample_host_def split: if_splits)
qed


section \<open>Deleting a tunnel that cannot be stopped\<close>

lemma tun_Delete_gone: "valid (\<lambda>_. True) (tun_Delete i) (\<lambda>_ d. \<not> has_id wi_id (db_ifaces d) i) (\<lambda>_. True)"
proof -
  let ?gone = "\<lambda>d :: 'a database_scheme. \<not> has_id wi_id (db_ifaces d) i"
  have "valid (\<lambda>_. True) (exec (\<lambda>d. (t_count (\<lambda>r. wi_id r = i) (db_ifaces d), del_iface i d))) (\<lambda>_. ?gone) (\<lambda>_. True)"
    by (rule valid_exec) (auto simp: del_iface_def has_id_def t_delete_def)
  then have "valid (\<lambda>_. True) (affected (exec (\<lambda>d. (t_count (\<lambda>r. wi_id r = i) (db_ifaces d), del_iface i d)))) (\<lambda>_. ?gone) (\<lambda>_. True)"
    unfolding affected_def by (rule valid_bnd) (auto intro: valid_fail valid_ret)
  then show ?thesis
    unfolding tun_Delete_def by (intro valid_tx valid_bnd [where R = "\<lambda>_ _. True"]) (auto simp: valid_def split: prod.split sum.split)
qed

lemma Stop_fails:
  assumes "Stop E i w = (Inl e, w1)" shows "tun_GetByID i w = (Inl e, w1)"
proof -
  let ?rest = "\<lambda>iface. bnd (teardownRuntime E i iface) (\<lambda>_.
     bnd (ignore (tun_Update (iface\<lparr>wi_status := WgStopped, wi_error := [], wi_uptime := None\<rparr>))) (\<lambda>_.
     bnd (ignore (UpdateStatus i WgStopped [])) (\<lambda>_.
     log_Add ''info'' (''tunnel stopped ('' @ itoa i @ '')''))))"
  obtain r t where g: "tun_GetByID i w = (r, t)" by fastforce
  show ?thesis
  proof (cases r)
    case (Inr x)
    have g': "tun_GetByID i w = (Inr x, t)" using g Inr by simp
    have "Stop E i w = ?rest (fst x) t" by (simp only: Stop_def bnd_def [of "tun_GetByID i"] g' case_prod_unfold prod.sel sum.case)
    moreover have "returns (?rest (fst x))" unfolding teardownRuntime_def by (intro returns_intro returns_down)
    ultimately obtain y u where "Stop E i w = (Inr y, u)" using returnsD by metis
    with assms show ?thesis by simp
  next
    case (Inl x)
    with g have "Stop E i w = (Inl x, t)" by (simp add: Stop_def bnd_Inl)
    with assms g Inl show ?thesis by simp
  qed
qed

text \<open>C29: when the first step of a deletion, the stop, fails (it only reads the tunnel's row before it takes anything
  down), the row is deleted all the same: the tunnel goes on running with its device, its instance and its rules
  on the host, and no later stop can take it down, since each looks the row up first.\<close>

theorem delete_orphans_running:
  fixes w :: "('k, 'a) run_world_scheme"
  assumes "Stop E i w = (Inl e, w1)" "DeleteTunnel E i w = (Inr (), t)"
  shows "rw_host t = rw_host w \<and> rw_devices t = rw_devices w \<and> rw_instances t = rw_instances w \<and> rw_running t = rw_running w
    \<and> (\<forall>u :: ('k, 'a) run_world_scheme. db_ifaces u = db_ifaces t \<longrightarrow> no_fault u \<longrightarrow> Stop E i u = (Inl ErrNotFound, tick u))"
proof -
  have r1: "run_part w1 = run_part w" by (rule keeps_runD [OF run_repos(1) Stop_fails [OF assms(1)]])
  have d: "tun_Delete i w1 = (Inr (), t)"
    using assms by (simp add: DeleteTunnel_def bnd_def ignore_ok)
  have r2: "run_part t = run_part w1" by (rule keeps_runD [OF keeps_tun_Delete [THEN keeps_more_run] d])
  have "\<not> has_id wi_id (db_ifaces t) i" using validD [OF tun_Delete_gone [of i], where s = w1] d by simp
  then have "t_find (\<lambda>r. wi_id r = i) (db_ifaces t) = None"
    by (auto simp: t_find_def has_id_def find_None_iff)
  then have "Stop E i u = (Inl ErrNotFound, tick u)" if "db_ifaces u = db_ifaces t" "no_fault u" for u :: "('k, 'a) run_world_scheme"
    using that by (simp add: Stop_def tun_GetByID_def bnd_def fail_def)
  with r1 r2 show ?thesis by (auto simp: run_part_parts)
qed

text \<open>A running tunnel whose row the first statement of the deletion cannot read.\<close>

definition busy_run :: "net_view run_world" where
  "busy_run = sample_run\<lparr>db_fault := (\<lambda>n. if n = 0 then Some (Opaque ''database is locked'') else None), rw_running := [1],
     rw_devices := [1 \<mapsto> \<lparr>md_dev = 0, md_uapi = None\<rparr>], rw_instances := [1 \<mapsto> 0], rw_tracking := [1]\<rparr>"

theorem delete_orphans_running_witness:
  "\<exists>t. DeleteTunnel (sample_env {}) 1 busy_run = (Inr (), t) \<and> rw_running t = [1] \<and> rw_devices t 1 \<noteq> None
     \<and> fst (Stop (sample_env {}) 1 (t\<lparr>db_fault := \<lambda>_. None\<rparr>)) = Inl ErrNotFound"
proof -
  obtain r t where d: "DeleteTunnel (sample_env {}) 1 busy_run = (r, t)" by fastforce
  have "fst (DeleteTunnel (sample_env {}) 1 busy_run) = Inr ()" by code_simp
  with d have d': "DeleteTunnel (sample_env {}) 1 busy_run = (Inr (), t)" by simp
  have "Stop (sample_env {}) 1 busy_run = (Inl (Opaque ''database is locked''), tick busy_run)"
    by (simp add: Stop_def tun_GetByID_def bnd_def query_def stmt_def busy_run_def sample_run_def)
  note f = delete_orphans_running [OF this d']
  let ?u = "t\<lparr>db_fault := \<lambda>_. None\<rparr>"
  have "Stop (sample_env {}) 1 ?u = (Inl ErrNotFound, tick ?u)"
    using f by (elim conjE allE [of _ ?u]) (simp add: no_fault_def)
  moreover have "rw_running t = [1]" "rw_devices t 1 \<noteq> None" using f by (simp_all add: busy_run_def)
  ultimately show ?thesis using d' by auto
qed

end
