(* ===== verification/Hub.thy ===== *)
theory Hub
  imports Domain "HOL-Library.Sublist"
begin

text \<open>
  The hub that fans the statistics out to the WebSocket clients, \<open>ws/hub.go\<close>, with the two goroutines of a client
  (\<open>api/mount/websocket.go\<close>). One goroutine runs the loop; the others hand it connections and messages through
  buffered channels. Each case of a select is a step, so that the order in which the loop takes ready cases is
  open, as it is in Go. A connection is a number; which writes fail is open as well.
\<close>

section \<open>The hub\<close>

record tunnel_rate =
  tr_id :: int
  tr_rx :: int
  tr_tx :: int

record message =
  ms_type :: string
  ms_tunnels :: "tunnel_rate list"
  ms_ts :: int

text \<open>\<open>hb_clients\<close> is \<open>None\<close> when the map is nil. Of the connections the model also keeps which were
  opened, which have a reader goroutine, and which were closed; and, as history, what was taken from the broadcast
  channel and what was written to each connection.\<close>

record hub =
  hb_clients :: "nat list option"
  hb_register :: "nat list"
  hb_unregister :: "nat list"
  hb_broadcast :: "message list"
  hb_cancelled :: bool
  hb_running :: bool
  hb_opened :: "nat list"
  hb_readers :: "nat list"
  hb_closed :: "nat list"
  hb_log :: "message list"
  hb_sent :: "nat \<Rightarrow> message list"

definition NewHub :: hub where
  "NewHub = \<lparr>hb_clients = Some [], hb_register = [], hb_unregister = [], hb_broadcast = [], hb_cancelled = False, hb_running = True,
     hb_opened = [], hb_readers = [], hb_closed = [], hb_log = [], hb_sent = (\<lambda>_. [])\<rparr>"

definition clients :: "hub \<Rightarrow> nat list" where
  "clients h = (case hb_clients h of None \<Rightarrow> [] | Some cs \<Rightarrow> cs)"

definition close_conns :: "nat list \<Rightarrow> hub \<Rightarrow> hub" where
  "close_conns cs h = h\<lparr>hb_closed := hb_closed h @ cs\<rparr>"

section \<open>The run loop, case by case\<close>

definition on_register :: "nat \<Rightarrow> hub \<Rightarrow> hub" where
  "on_register c h = h\<lparr>hb_register := tl (hb_register h),
     hb_clients := (case hb_clients h of None \<Rightarrow> None | Some cs \<Rightarrow> Some (if c \<in> set cs then cs else cs @ [c]))\<rparr>"

definition on_unregister :: "nat \<Rightarrow> hub \<Rightarrow> hub" where
  "on_unregister c h = close_conns [c] (h\<lparr>hb_unregister := tl (hb_unregister h),
     hb_clients := map_option (removeAll c) (hb_clients h)\<rparr>)"

text \<open>\<open>ok c\<close>: the write to \<open>c\<close> succeeds. Marshalling a message never fails.\<close>

definition on_broadcast :: "(nat \<Rightarrow> bool) \<Rightarrow> message \<Rightarrow> hub \<Rightarrow> hub" where
  "on_broadcast ok m h = (let b = m\<lparr>ms_type := ''stats_update''\<rparr>; cs = clients h in
     close_conns (filter (\<lambda>c. \<not> ok c) cs) (h\<lparr>hb_broadcast := tl (hb_broadcast h), hb_log := hb_log h @ [b],
       hb_clients := map_option (filter ok) (hb_clients h),
       hb_sent := (\<lambda>c. if c \<in> set cs \<and> ok c then hb_sent h c @ [b] else hb_sent h c)\<rparr>))"

definition on_done :: "hub \<Rightarrow> hub" where
  "on_done h = close_conns (clients h) (h\<lparr>hb_clients := None, hb_running := False\<rparr>)"

section \<open>The calls of the other goroutines\<close>

definition Shutdown :: "hub \<Rightarrow> hub" where
  "Shutdown h = h\<lparr>hb_cancelled := True\<rparr>"

text \<open>A call that finds a channel full waits, unless the hub was cancelled. When both cases of its select are ready
  either may be taken.\<close>

definition chan_cap :: nat where "chan_cap = 32"

definition broadcast_cap :: nat where "broadcast_cap = 64"

text \<open>The handler: the upgraded connection is registered, then its reader starts; when the reader ends it unregisters.\<close>

definition Register_queue :: "nat \<Rightarrow> hub \<Rightarrow> hub option" where
  "Register_queue c h = (if length (hb_register h) < chan_cap
     then Some (h\<lparr>hb_register := hb_register h @ [c], hb_opened := c # hb_opened h, hb_readers := c # hb_readers h\<rparr>) else None)"

definition Register_done :: "nat \<Rightarrow> hub \<Rightarrow> hub option" where
  "Register_done c h = (if hb_cancelled h
     then Some (close_conns [c] (h\<lparr>hb_opened := c # hb_opened h, hb_readers := c # hb_readers h\<rparr>)) else None)"

definition Unregister_queue :: "nat \<Rightarrow> hub \<Rightarrow> hub option" where
  "Unregister_queue c h = (if c \<in> set (hb_readers h) \<and> length (hb_unregister h) < chan_cap
     then Some (h\<lparr>hb_unregister := hb_unregister h @ [c], hb_readers := removeAll c (hb_readers h)\<rparr>) else None)"

definition Unregister_done :: "nat \<Rightarrow> hub \<Rightarrow> hub option" where
  "Unregister_done c h = (if c \<in> set (hb_readers h) \<and> hb_cancelled h
     then Some (h\<lparr>hb_readers := removeAll c (hb_readers h)\<rparr>) else None)"

text \<open>A message for a full channel is dropped.\<close>

definition Broadcast_queue :: "message \<Rightarrow> hub \<Rightarrow> hub" where
  "Broadcast_queue m h = (if length (hb_broadcast h) < broadcast_cap then h\<lparr>hb_broadcast := hb_broadcast h @ [m]\<rparr> else h)"

section \<open>The steps\<close>

text \<open>The steps of the loop, and those of the others.\<close>

inductive loop_step :: "hub \<Rightarrow> hub \<Rightarrow> bool" where
  take_register: "hb_running h \<Longrightarrow> hb_register h = c # q \<Longrightarrow> loop_step h (on_register c h)"
| take_unregister: "hb_running h \<Longrightarrow> hb_unregister h = c # q \<Longrightarrow> loop_step h (on_unregister c h)"
| take_broadcast: "hb_running h \<Longrightarrow> hb_broadcast h = m # q \<Longrightarrow> (\<forall>c. ok c \<longrightarrow> c \<notin> set (hb_closed h)) \<Longrightarrow> loop_step h (on_broadcast ok m h)"
| take_done: "hb_running h \<Longrightarrow> hb_cancelled h \<Longrightarrow> loop_step h (on_done h)"

inductive call_step :: "hub \<Rightarrow> hub \<Rightarrow> bool" where
  shut_down: "call_step h (Shutdown h)"
| register: "c \<notin> set (hb_opened h) \<Longrightarrow> Register_queue c h = Some h' \<Longrightarrow> call_step h h'"
| register_late: "c \<notin> set (hb_opened h) \<Longrightarrow> Register_done c h = Some h' \<Longrightarrow> call_step h h'"
| unregister: "Unregister_queue c h = Some h' \<Longrightarrow> call_step h h'"
| unregister_late: "Unregister_done c h = Some h' \<Longrightarrow> call_step h h'"
| broadcast: "call_step h (Broadcast_queue m h)"
| broadcast_late: "hb_cancelled h \<Longrightarrow> call_step h h"

inductive hub_reaches :: "hub \<Rightarrow> hub \<Rightarrow> bool" for h where
  start: "hub_reaches h h"
| loop: "hub_reaches h k \<Longrightarrow> loop_step k l \<Longrightarrow> hub_reaches h l"
| call: "hub_reaches h k \<Longrightarrow> call_step k l \<Longrightarrow> hub_reaches h l"

inductive_cases loop_stepE: "loop_step h k"
inductive_cases call_stepE: "call_step h k"

lemmas hub_defs = on_register_def on_unregister_def on_broadcast_def on_done_def Shutdown_def Register_queue_def Register_done_def
  Unregister_queue_def Unregister_done_def Broadcast_queue_def close_conns_def clients_def Let_def

section \<open>Invariants\<close>

text \<open>The channels stay within their capacity; a connection that was opened is waiting, served or closed; a nil map
  belongs to an ended loop; a served connection that is open has got everything since some moment.\<close>

definition hub_ok :: "hub \<Rightarrow> bool" where
  "hub_ok h \<longleftrightarrow> length (hb_register h) \<le> chan_cap \<and> length (hb_unregister h) \<le> chan_cap \<and> length (hb_broadcast h) \<le> broadcast_cap
     \<and> (hb_clients h = None \<longleftrightarrow> \<not> hb_running h) \<and> (\<not> hb_running h \<longrightarrow> hb_cancelled h)
     \<and> set (hb_opened h) \<subseteq> set (hb_register h) \<union> set (clients h) \<union> set (hb_closed h)
     \<and> set (hb_register h) \<union> set (clients h) \<union> set (hb_closed h) \<union> set (hb_unregister h) \<union> set (hb_readers h) \<subseteq> set (hb_opened h)"

definition delivered :: "nat list \<Rightarrow> nat list \<Rightarrow> nat set \<Rightarrow> message list \<Rightarrow> (nat \<Rightarrow> message list) \<Rightarrow> bool" where
  "delivered reg opened cs log sent \<longleftrightarrow> distinct reg \<and> (\<forall>c. c \<in> set reg \<or> c \<notin> set opened \<longrightarrow> c \<notin> cs \<and> sent c = [])
     \<and> (\<forall>c. sublist (sent c) log) \<and> (\<forall>c\<in>cs. suffix (sent c) log)"

definition delivery_ok :: "hub \<Rightarrow> bool" where
  "delivery_ok h \<longleftrightarrow> delivered (hb_register h) (hb_opened h) (set (clients h)) (hb_log h) (hb_sent h)"

lemma loop_step_ok: "loop_step h k \<Longrightarrow> hub_ok h \<Longrightarrow> hub_ok k"
  by (induction rule: loop_step.induct) (auto simp: hub_ok_def hub_defs split: option.splits if_splits)

lemma call_step_ok: "call_step h k \<Longrightarrow> hub_ok h \<Longrightarrow> hub_ok k"
  by (induction rule: call_step.induct) (auto simp: hub_ok_def hub_defs split: option.splits if_splits)

lemma suffix_snoc: "suffix xs ys \<Longrightarrow> suffix (xs @ [b]) (ys @ [b])"
  by (auto simp: suffix_def)

lemma sublist_snoc: "sublist xs ys \<Longrightarrow> sublist xs (ys @ [b])"
  by (auto simp: sublist_def) (metis append_assoc)

lemma suffix_sublist_snoc: "suffix xs ys \<Longrightarrow> sublist (xs @ [b]) (ys @ [b])"
  by (simp add: suffix_snoc suffix_imp_sublist)

lemma delivered_register:
  "delivered (c # q) opened cs log sent \<Longrightarrow> c \<in> set opened \<Longrightarrow> delivered q opened (insert c cs) log sent"
  by (auto simp: delivered_def)

lemma delivered_fewer: "delivered reg opened cs log sent \<Longrightarrow> cs' \<subseteq> cs \<Longrightarrow> delivered reg opened cs' log sent"
  unfolding delivered_def by blast

lemma delivered_open:
  "delivered reg opened cs log sent \<Longrightarrow> c \<notin> set opened \<Longrightarrow> set reg \<subseteq> set opened \<Longrightarrow> delivered (reg @ [c]) (c # opened) cs log sent"
  "delivered reg opened cs log sent \<Longrightarrow> c \<notin> set opened \<Longrightarrow> delivered reg (c # opened) cs log sent"
  unfolding delivered_def by auto

lemma delivered_broadcast:
  "delivered reg opened cs log sent \<Longrightarrow>
     delivered reg opened {c \<in> cs. ok c} (log @ [b]) (\<lambda>c. if c \<in> cs \<and> ok c then sent c @ [b] else sent c)"
  unfolding delivered_def by (auto simp: suffix_snoc sublist_snoc suffix_sublist_snoc)

lemma clients_upd [simp]:
  "clients (h\<lparr>hb_register := r\<rparr>) = clients h" "clients (h\<lparr>hb_unregister := r\<rparr>) = clients h" "clients (h\<lparr>hb_broadcast := b\<rparr>) = clients h"
  "clients (h\<lparr>hb_cancelled := x\<rparr>) = clients h" "clients (h\<lparr>hb_opened := o'\<rparr>) = clients h" "clients (h\<lparr>hb_readers := o'\<rparr>) = clients h"
  "clients (h\<lparr>hb_closed := o'\<rparr>) = clients h" "clients (h\<lparr>hb_clients := x'\<rparr>) = (case x' of None \<Rightarrow> [] | Some cs \<Rightarrow> cs)"
  "clients (h\<lparr>hb_running := x\<rparr>) = clients h" "clients (h\<lparr>hb_log := l\<rparr>) = clients h" "clients (h\<lparr>hb_sent := f\<rparr>) = clients h"
  by (simp_all add: clients_def)

lemma loop_step_delivery: "loop_step h k \<Longrightarrow> hub_ok h \<Longrightarrow> delivery_ok h \<Longrightarrow> delivery_ok k"
proof (induction rule: loop_step.induct)
  case (take_register h c q)
  then obtain cs where "hb_clients h = Some cs" by (auto simp: hub_ok_def)
  then show ?case
    using take_register delivered_register [of c q "hb_opened h" "set (clients h)" "hb_log h" "hb_sent h"]
    by (auto simp: delivery_ok_def on_register_def clients_def insert_absorb hub_ok_def)
next
  case (take_unregister h c q)
  then show ?case
    by (auto simp: delivery_ok_def on_unregister_def close_conns_def clients_def split: option.split elim!: delivered_fewer)
next
  case (take_broadcast h m q ok)
  then show ?case
    using delivered_broadcast [of "hb_register h" "hb_opened h" "set (clients h)" "hb_log h" "hb_sent h" ok "m\<lparr>ms_type := ''stats_update''\<rparr>"]
    by (cases "hb_clients h") (auto simp: delivery_ok_def on_broadcast_def close_conns_def Let_def clients_def)
next
  case (take_done h)
  then show ?case by (auto simp: delivery_ok_def on_done_def close_conns_def elim!: delivered_fewer)
qed

lemma call_step_delivery: "call_step h k \<Longrightarrow> hub_ok h \<Longrightarrow> delivery_ok h \<Longrightarrow> delivery_ok k"
proof (induction rule: call_step.induct)
  case (register c h h')
  then show ?case
    using delivered_open(1) [of "hb_register h" "hb_opened h" "set (clients h)" "hb_log h" "hb_sent h" c]
    by (auto simp: delivery_ok_def hub_ok_def Register_queue_def split: if_splits)
next
  case (register_late c h h')
  then show ?case
    using delivered_open(2) [of "hb_register h" "hb_opened h" "set (clients h)" "hb_log h" "hb_sent h" c]
    by (auto simp: delivery_ok_def Register_done_def close_conns_def split: if_splits)
qed (auto simp: delivery_ok_def Shutdown_def Unregister_queue_def Unregister_done_def Broadcast_queue_def split: if_splits)

lemma hub_invariants: "hub_reaches NewHub h \<Longrightarrow> hub_ok h \<and> delivery_ok h"
proof (induction rule: hub_reaches.induct)
  case start
  show ?case by (simp add: hub_ok_def delivery_ok_def delivered_def NewHub_def clients_def)
qed (auto intro: loop_step_ok call_step_ok loop_step_delivery call_step_delivery)

section \<open>Properties\<close>


text \<open>What is left to do for the loop.\<close>

definition pending :: "hub \<Rightarrow> nat" where
  "pending h = (if hb_running h then 1 + length (hb_register h) + length (hb_unregister h) + length (hb_broadcast h) else 0)"

lemma loop_step_pending: "loop_step h k \<Longrightarrow> pending k < pending h"
  by (induction rule: loop_step.induct) (auto simp: pending_def hub_defs)

lemma loop_steps_pending: "(loop_step ^^ n) h k \<Longrightarrow> n + pending k \<le> pending h"
proof (induction n arbitrary: k)
  case (Suc n)
  then obtain l where "(loop_step ^^ n) h l" "loop_step l k" by auto
  with Suc.IH loop_step_pending show ?case by fastforce
qed simp

lemma loop_step_possible: "(\<exists>k. loop_step h k) \<longleftrightarrow> hb_running h \<and> (hb_cancelled h \<or> hb_register h \<noteq> [] \<or> hb_unregister h \<noteq> [] \<or> hb_broadcast h \<noteq> [])"
proof
  show "\<exists>k. loop_step h k \<Longrightarrow> hb_running h \<and> (hb_cancelled h \<or> hb_register h \<noteq> [] \<or> hb_unregister h \<noteq> [] \<or> hb_broadcast h \<noteq> [])"
    by (auto elim!: loop_stepE)
  assume "hb_running h \<and> (hb_cancelled h \<or> hb_register h \<noteq> [] \<or> hb_unregister h \<noteq> [] \<or> hb_broadcast h \<noteq> [])"
  then show "\<exists>k. loop_step h k"
    using take_broadcast [of h _ _ "\<lambda>_. False"]
    by (auto simp: neq_Nil_conv intro: take_register take_unregister take_done)
qed

text \<open>C32: the loop never blocks and always catches up: from every state that can be reached it can take at most 129
  steps without new calls, and when it cannot take another one, either it has ended, with every
  client closed, or nobody cancelled it and nothing waits.\<close>

theorem hub_catches_up:
  assumes "hub_reaches NewHub h" "(loop_step ^^ n) h k"
  shows "n \<le> 129 \<and> ((\<exists>l. loop_step k l) \<or> \<not> hb_running k \<and> hb_clients k = None
     \<or> \<not> hb_cancelled k \<and> hb_register k = [] \<and> hb_unregister k = [] \<and> hb_broadcast k = [])"
proof -
  have ok: "hub_ok h" using hub_invariants [OF assms(1)] by blast
  have "hub_ok k" using assms(2) ok
  proof (induction n arbitrary: k)
    case (Suc n)
    then show ?case by (auto intro: loop_step_ok)
  qed simp
  moreover have "pending h \<le> 129" using ok by (auto simp: hub_ok_def pending_def chan_cap_def broadcast_cap_def)
  ultimately show ?thesis
    using loop_steps_pending [OF assms(2)] loop_step_possible [of k] by (auto simp: hub_ok_def)
qed

text \<open>C33: once the loop has ended nothing closes a connection that was not closed before: one that was handed over while
  the hub was being cancelled stays in the channel, open, and its reader goes on reading.\<close>

theorem late_registration_leaks:
  assumes "\<not> hb_running h" "c \<in> set (hb_opened h)" "c \<notin> set (hb_closed h)" "hub_reaches h k"
  shows "c \<notin> set (hb_closed k) \<and> \<not> hb_running k"
proof -
  have "\<not> hb_running k \<and> c \<in> set (hb_opened k) \<and> c \<notin> set (hb_closed k)"
    using assms(4)
  proof (induction rule: hub_reaches.induct)
    case start
    show ?case using assms(1-3) by simp
  next
    case (loop k l)
    then show ?case by (auto elim!: loop_stepE)
  next
    case (call k l)
    then show ?case
      by (auto elim!: call_stepE simp: Register_done_def Register_queue_def Unregister_queue_def Unregister_done_def Shutdown_def
          Broadcast_queue_def close_conns_def split: if_splits)
  qed
  then show ?thesis by blast
qed

text \<open>Two clients, a message, and one that fails to be written to the second.\<close>

definition sample_message :: message where
  "sample_message = \<lparr>ms_type = [], ms_tunnels = [\<lparr>tr_id = 1, tr_rx = 10, tr_tx = 20\<rparr>], ms_ts = 7\<rparr>"

definition sample_hub :: hub where
  "sample_hub = on_broadcast (\<lambda>c. c = 1) sample_message (on_register 2 (on_register 1 (Broadcast_queue sample_message
     (the (Register_queue 2 (the (Register_queue 1 NewHub)))))))"

lemmas sample_hub_defs = NewHub_def sample_message_def hub_defs chan_cap_def broadcast_cap_def

lemma sample_hub_reached: "hub_reaches NewHub sample_hub"
proof -
  let ?a = "the (Register_queue 1 NewHub)" let ?b = "the (Register_queue 2 ?a)"
  let ?c = "Broadcast_queue sample_message ?b" let ?d = "on_register 1 ?c" let ?e = "on_register 2 ?d"
  have "call_step NewHub ?a" by (rule register [of 1]) (simp_all add: sample_hub_defs)
  moreover have "call_step ?a ?b" by (rule register [of 2]) (simp_all add: sample_hub_defs)
  moreover have "call_step ?b ?c" by (rule broadcast)
  moreover have "loop_step ?c ?d" by (rule take_register) (simp_all add: sample_hub_defs)
  moreover have "loop_step ?d ?e" by (rule take_register) (simp_all add: sample_hub_defs)
  moreover have "loop_step ?e sample_hub" unfolding sample_hub_def by (rule take_broadcast) (simp_all add: sample_hub_defs)
  ultimately show ?thesis by (meson hub_reaches.intros)
qed


theorem hub_catches_up_witness:
  "\<not> (\<exists>l. loop_step sample_hub l) \<and> hb_register sample_hub = []"
proof -
  have "\<not> (\<exists>l. loop_step sample_hub l)" unfolding loop_step_possible by (simp add: sample_hub_def sample_hub_defs)
  with hub_catches_up [OF sample_hub_reached, of 0 sample_hub] show ?thesis
    by (simp add: sample_hub_def sample_hub_defs)
qed

definition ended_hub :: hub where
  "ended_hub = on_done (Shutdown (the (Register_queue 5 NewHub)))"

theorem late_registration_leaks_witness:
  "hub_reaches NewHub ended_hub \<and> 5 \<in> set (hb_opened ended_hub) \<and> {k. hub_reaches ended_hub k \<and> 5 \<in> set (hb_closed k)} = {}"
proof -
  have "call_step NewHub (the (Register_queue 5 NewHub))" by (rule register [of 5]) (simp_all add: sample_hub_defs)
  moreover have "call_step (the (Register_queue 5 NewHub)) (Shutdown (the (Register_queue 5 NewHub)))" by (rule shut_down)
  moreover have "loop_step (Shutdown (the (Register_queue 5 NewHub))) ended_hub"
    unfolding ended_hub_def by (rule take_done) (simp_all add: sample_hub_defs)
  ultimately have "hub_reaches NewHub ended_hub" by (meson hub_reaches.intros)
  moreover have "\<not> hb_running ended_hub" "5 \<in> set (hb_opened ended_hub)" "5 \<notin> set (hb_closed ended_hub)"
    by (simp_all add: ended_hub_def sample_hub_defs)
  ultimately show ?thesis using late_registration_leaks [of ended_hub 5] by blast
qed

end
