(* ===== verification/Collector.thy ===== *)
theory Collector
  imports Hub RunLife
begin

text \<open>
  The statistics collector, \<open>service/stats.go\<close>: every two seconds it reads the counters of the tunnels that run,
  adds them to the peers' totals, stores a snapshot per peer and per tunnel and hands the rates to the hub.
  \<open>poll\<close> stands for \<open>PollStats\<close> of \<open>infrastructure/wireguard/stats.go\<close>, which asks the device over its socket.
  Times are in seconds; the log lines are left out.
\<close>

section \<open>The collector\<close>

text \<open>\<open>st_handshake\<close> is \<open>None\<close> for the zero time.\<close>

record peer_stats =
  st_key :: string
  st_rx :: int
  st_tx :: int
  st_handshake :: "int option"

type_synonym 'k poll = "string \<Rightarrow> 'k \<Rightarrow> go_error + peer_stats list"

text \<open>The totals of the last tick, zero for what was not seen yet (a missing key of a Go map).\<close>

record 'k stats_world = "'k run_world" +
  sc_tot :: "int \<Rightarrow> int \<times> int"
  sc_seen :: "int \<Rightarrow> int \<times> int"
  sc_hub :: hub

type_synonym ('k, 'a, 'r) stats_call = "(('k, 'a) stats_world_scheme, 'r) call"

definition Track :: "int \<Rightarrow> ('k, 'a, unit) run_call" where
  "Track i = upd (\<lambda>w. w\<lparr>rw_tracking := set_Mark i (rw_tracking w)\<rparr>)"

definition Untrack :: "int \<Rightarrow> ('k, 'a, unit) run_call" where
  "Untrack i = upd (\<lambda>w. w\<lparr>rw_tracking := set_Clear i (rw_tracking w)\<rparr>)"

text \<open>\<open>int64(float64(x) / 2.0)\<close>, which rounds toward zero; exact below two to the 53.\<close>

definition per_second :: "int \<Rightarrow> int" where
  "per_second x = (if x < 0 then - ((- x) div 2) else x div 2)"

definition stats_cleanup :: "('a database_scheme, unit) call" where
  "stats_cleanup = bnd (gets db_now) (\<lambda>now. ignore (DeleteOlderThan (now - 24 * 3600)))"

section \<open>A tick\<close>

definition peer_snapshot :: "int \<Rightarrow> int \<Rightarrow> int \<Rightarrow> int \<Rightarrow> int \<Rightarrow> int \<Rightarrow> stat_snapshot" where
  "peer_snapshot p rx txb rxr txr now = \<lparr>ss_id = 0, ss_iface = None, ss_peer = Some p, ss_rx = rx, ss_tx = txb,
     ss_rx_rate = rxr, ss_tx_rate = txr, ss_active = None, ss_at = now\<rparr>"

definition tunnel_snapshot :: "int \<Rightarrow> int \<Rightarrow> int \<Rightarrow> int \<Rightarrow> int \<Rightarrow> int \<Rightarrow> int \<Rightarrow> stat_snapshot" where
  "tunnel_snapshot i rx txb rxr txr active now = \<lparr>ss_id = 0, ss_iface = Some i, ss_peer = None, ss_rx = rx, ss_tx = txb,
     ss_rx_rate = rxr, ss_tx_rate = txr, ss_active = Some active, ss_at = now\<rparr>"

text \<open>The totals so far: received, sent, and the peers with a handshake in the last three minutes.\<close>

type_synonym tick_sum = "int \<times> int \<times> int"

definition tick_peer :: "int \<Rightarrow> int \<Rightarrow> peer_stats \<Rightarrow> tick_sum \<Rightarrow> ('k, 'a, tick_sum) stats_call" where
  "tick_peer i now st acc = (case acc of (sumRx, sumTx, active) \<Rightarrow>
     attempt (GetByPubKey i (trim_space (st_key st))) (\<lambda>r. case r of
       Inl e \<Rightarrow> ret acc
     | Inr p \<Rightarrow> attempt (UpdateTraffic (wp_id p) (st_handshake st) (st_rx st) (st_tx st)) (\<lambda>r. case r of
         Inl e \<Rightarrow> ret acc
       | Inr (rx, txb) \<Rightarrow> bnd (gets (\<lambda>w. sc_seen w (wp_id p))) (\<lambda>(prx, ptx).
           bnd (upd (\<lambda>w. w\<lparr>sc_seen := (sc_seen w)(wp_id p := (rx, txb))\<rparr>)) (\<lambda>_.
           bnd (ignore (stats_Insert (peer_snapshot (wp_id p) rx txb (max (per_second (rx - prx)) 0) (max (per_second (txb - ptx)) 0) now))) (\<lambda>_.
           ret (sumRx + rx, sumTx + txb,
             active + (case st_handshake st of None \<Rightarrow> 0 | Some h \<Rightarrow> if now - h < 3 * 60 then 1 else 0))))))))"

fun tick_peers :: "int \<Rightarrow> int \<Rightarrow> peer_stats list \<Rightarrow> tick_sum \<Rightarrow> ('k, 'a, tick_sum) stats_call" where
  "tick_peers i now [] acc = ret acc"
| "tick_peers i now (st # sts) acc = bnd (tick_peer i now st acc) (\<lambda>acc'. tick_peers i now sts acc')"

text \<open>The rate of a tunnel, none when its row or its device cannot be read.\<close>

definition tick_tunnel :: "'k poll \<Rightarrow> int \<Rightarrow> ('k, 'a, tunnel_rate option) stats_call" where
  "tick_tunnel poll i = attempt (tun_GetByID i) (\<lambda>r. case r of
     Inl e \<Rightarrow> ret None
   | Inr (iface, _) \<Rightarrow>
       bnd (gets (\<lambda>w. poll (if wi_tun iface = [] then tun_name i else wi_tun iface) (rw_host w))) (\<lambda>ps. case ps of
         Inl e \<Rightarrow> ret None
       | Inr sts \<Rightarrow> bnd (gets db_now) (\<lambda>now.
           bnd (tick_peers i now sts (0, 0, 0)) (\<lambda>(sumRx, sumTx, active).
           bnd (gets (\<lambda>w. sc_tot w i)) (\<lambda>(prx, ptx). let rxr = per_second (sumRx - prx); txr = per_second (sumTx - ptx) in
           bnd (upd (\<lambda>w. w\<lparr>sc_tot := (sc_tot w)(i := (sumRx, sumTx))\<rparr>)) (\<lambda>_.
           bnd (ignore (stats_Insert (tunnel_snapshot i sumRx sumTx rxr txr active now))) (\<lambda>_.
           ret (Some \<lparr>tr_id = i, tr_rx = rxr, tr_tx = txr\<rparr>))))))))"

fun tick_tunnels :: "'k poll \<Rightarrow> int list \<Rightarrow> ('k, 'a, tunnel_rate list) stats_call" where
  "tick_tunnels poll [] = ret []"
| "tick_tunnels poll (i # is) = bnd (tick_tunnel poll i) (\<lambda>t. bnd (tick_tunnels poll is) (\<lambda>ts.
     ret (case t of None \<Rightarrow> ts | Some x \<Rightarrow> x # ts)))"

text \<open>The tracked tunnels as they are at the start of the tick, in some order; here in the order they came.\<close>

definition stats_tick :: "'k poll \<Rightarrow> ('k, 'a, unit) stats_call" where
  "stats_tick poll = bnd (gets rw_tracking) (\<lambda>ids.
     bnd (tick_tunnels poll ids) (\<lambda>ts. bnd (gets db_now) (\<lambda>now.
     upd (\<lambda>w. w\<lparr>sc_hub := Broadcast_queue \<lparr>ms_type = [], ms_tunnels = ts, ms_ts = now * 1000\<rparr> (sc_hub w)\<rparr>))))"

section \<open>Lemmas\<close>

text \<open>The totals are \<open>T\<close>, and the snapshots of peers that are not among \<open>S\<close> have no negative rates.\<close>

definition accounts :: "(int \<Rightarrow> int \<times> int) \<Rightarrow> stat_snapshot set \<Rightarrow> ('k, 'a) stats_world_scheme \<Rightarrow> bool" where
  "accounts T S w \<longleftrightarrow> sc_tot w = T
     \<and> (\<forall>s\<in>set (t_rows (db_stats w)). s \<notin> S \<longrightarrow> ss_peer s \<noteq> None \<longrightarrow> ss_rx_rate s \<ge> 0 \<and> ss_tx_rate s \<ge> 0)"

lemma accounts_query: "preserves (accounts T S) (query f)"
  by (rule preserves_query) (simp add: clock_free_def accounts_def)

lemma sc_more: "database.more (w :: ('k, 'a) stats_world_scheme) = database.more w' \<Longrightarrow> sc_tot w = sc_tot w'"
  by (cases w; cases w') simp

lemma accounts_exec:
  assumes "\<And>d. database.more (snd (f d)) = database.more d"
    and "\<And>d s. s \<in> set (t_rows (db_stats (snd (f d)))) \<Longrightarrow> s \<in> set (t_rows (db_stats d)) \<or> ss_peer s = None \<or> (ss_rx_rate s \<ge> 0 \<and> ss_tx_rate s \<ge> 0)"
  shows "preserves (accounts T S) (exec f)"
proof (rule preserves_exec)
  show "clock_free (accounts T S)" by (simp add: clock_free_def accounts_def)
  show "accounts T S (snd (f d))" if "accounts T S d" for d
    using that assms(2) [of _ d] sc_more [OF assms(1) [of d]] by (fastforce simp: accounts_def)
qed

lemma accounts_calls:
  "preserves (accounts T S) (tun_GetByID i)" "preserves (accounts T S) (GetByPubKey i k)" "preserves (accounts T S) (UpdateTraffic p h rx txb)"
  "preserves (accounts T S) (stats_Insert (tunnel_snapshot i rx txb a b n now))"
  "preserves (accounts T S) (stats_Insert (peer_snapshot i rx txb (max a 0) (max b 0) now))"
proof -
  have aff: "preserves (accounts T S) (affected m)" if "preserves (accounts T S) m" for m
    unfolding affected_def using that by (intro preserves_bnd) (auto intro: preserves_ret preserves_fail)
  show "preserves (accounts T S) (tun_GetByID i)" unfolding tun_GetByID_def by (intro keeps_intro accounts_query preserves_case_option)
  show "preserves (accounts T S) (GetByPubKey i k)" unfolding GetByPubKey_def by (intro keeps_intro accounts_query preserves_case_option)
  show "preserves (accounts T S) (UpdateTraffic p h rx txb)"
    unfolding UpdateTraffic_def Let_def by (intro keeps_intro accounts_query preserves_case_option aff accounts_exec) auto
  show "preserves (accounts T S) (stats_Insert (tunnel_snapshot i rx txb a b n now))"
    unfolding stats_Insert_def by (rule accounts_exec) (auto simp: t_insert_def tunnel_snapshot_def)
  show "preserves (accounts T S) (stats_Insert (peer_snapshot i rx txb (max a 0) (max b 0) now))"
    unfolding stats_Insert_def by (rule accounts_exec) (auto simp: t_insert_def peer_snapshot_def)
qed

lemma tick_peer_accounts: "preserves (accounts T S) (tick_peer i now st acc)" "returns (tick_peer i now st acc)"
  unfolding tick_peer_def case_prod_unfold
  by (intro keeps_intro accounts_calls preserves_gets preserves_upd, simp add: accounts_def) (intro returns_intro)

lemma tick_peers_accounts: "preserves (accounts T S) (tick_peers i now sts acc)" "returns (tick_peers i now sts acc)"
  by (induction sts arbitrary: acc) (auto intro: keeps_intro returns_intro tick_peer_accounts)

definition rate_of :: "int \<Rightarrow> int \<times> int \<Rightarrow> int \<times> int \<Rightarrow> tunnel_rate" where
  "rate_of i prev tot = \<lparr>tr_id = i, tr_rx = per_second (fst tot - fst prev), tr_tx = per_second (snd tot - snd prev)\<rparr>"

definition ticked :: "int \<Rightarrow> (int \<Rightarrow> int \<times> int) \<Rightarrow> stat_snapshot set \<Rightarrow> tunnel_rate option \<Rightarrow> ('k, 'a) stats_world_scheme \<Rightarrow> bool" where
  "ticked i T S r w \<longleftrightarrow> (case r of None \<Rightarrow> accounts T S w
     | Some t \<Rightarrow> \<exists>tot. accounts (T(i := tot)) S w \<and> t = rate_of i (T i) tot)"

lemma tick_tunnel_valid: "valid (accounts T S) (tick_tunnel poll i) (ticked i T S) (accounts T S)"
proof -
  note keep = valid_preserves [THEN iffD2]
  have none: "valid (accounts T S) (ret None) (ticked i T S) (accounts T S)"
    by (rule valid_ret) (simp add: ticked_def)
  have sums: "valid (accounts T S) (bnd (gets (\<lambda>w. sc_tot w i)) (\<lambda>(prx, ptx). let rxr = per_second (rx - prx); txr = per_second (txb - ptx) in
       bnd (upd (\<lambda>w. w\<lparr>sc_tot := (sc_tot w)(i := (rx, txb))\<rparr>)) (\<lambda>_.
       bnd (ignore (stats_Insert (tunnel_snapshot i rx txb rxr txr n now))) (\<lambda>_.
       ret (Some \<lparr>tr_id = i, tr_rx = rxr, tr_tx = txr\<rparr>))))) (ticked i T S) (accounts T S)" for rx txb n now
  proof (rule valid_known [where C = "\<lambda>prev. prev = T i" and S = "accounts T S"])
    show "valid (accounts T S) (gets (\<lambda>w. sc_tot w i)) (\<lambda>x w. x = T i \<and> accounts T S w) (accounts T S)"
      by (simp add: valid_def gets_def accounts_def)
    fix prev assume prev: "prev = T i"
    let ?T = "T(i := (rx, txb))" and ?r = "per_second (rx - fst prev)" and ?t = "per_second (txb - snd prev)"
    have "valid (accounts T S) (bnd (upd (\<lambda>w. w\<lparr>sc_tot := (sc_tot w)(i := (rx, txb))\<rparr>)) (\<lambda>_.
        ignore (stats_Insert (tunnel_snapshot i rx txb ?r ?t n now)))) (\<lambda>_. accounts ?T S) (accounts T S)"
      by (rule valid_bnd [where R = "\<lambda>_. accounts ?T S"], rule valid_upd, simp add: accounts_def,
          rule valid_returns [where E = "accounts ?T S"], unfold valid_preserves, intro preserves_ignore accounts_calls, rule returns_simple)
    then have "valid (accounts T S) (bnd (bnd (upd (\<lambda>w. w\<lparr>sc_tot := (sc_tot w)(i := (rx, txb))\<rparr>)) (\<lambda>_.
        ignore (stats_Insert (tunnel_snapshot i rx txb ?r ?t n now)))) (\<lambda>_. ret (Some \<lparr>tr_id = i, tr_rx = ?r, tr_tx = ?t\<rparr>))) (ticked i T S) (accounts T S)"
      by (rule valid_bnd) (rule valid_ret, auto simp: ticked_def rate_of_def prev intro!: exI [of _ "(rx, txb)"])
    then show "valid (accounts T S) (case prev of (prx, ptx) \<Rightarrow> let rxr = per_second (rx - prx); txr = per_second (txb - ptx) in
       bnd (upd (\<lambda>w. w\<lparr>sc_tot := (sc_tot w)(i := (rx, txb))\<rparr>)) (\<lambda>_.
       bnd (ignore (stats_Insert (tunnel_snapshot i rx txb rxr txr n now))) (\<lambda>_.
       ret (Some \<lparr>tr_id = i, tr_rx = rxr, tr_tx = txr\<rparr>)))) (ticked i T S) (accounts T S)"
      by (simp add: bnd_assoc case_prod_unfold Let_def)
  qed
  have poll: "valid (accounts T S) (case ps of Inl e \<Rightarrow> ret None | Inr sts \<Rightarrow> bnd (gets db_now) (\<lambda>now.
       bnd (tick_peers i now sts (0, 0, 0)) (\<lambda>(sumRx, sumTx, active).
       bnd (gets (\<lambda>w. sc_tot w i)) (\<lambda>(prx, ptx). let rxr = per_second (sumRx - prx); txr = per_second (sumTx - ptx) in
       bnd (upd (\<lambda>w. w\<lparr>sc_tot := (sc_tot w)(i := (sumRx, sumTx))\<rparr>)) (\<lambda>_.
       bnd (ignore (stats_Insert (tunnel_snapshot i sumRx sumTx rxr txr active now))) (\<lambda>_.
       ret (Some \<lparr>tr_id = i, tr_rx = rxr, tr_tx = txr\<rparr>))))))) (ticked i T S) (accounts T S)" for ps
  proof (rule valid_case_sum [OF none], rule valid_bnd [OF keep [OF preserves_gets]], rule valid_bnd [OF keep [OF tick_peers_accounts(1)]])
    fix x :: tick_sum and now
    show "valid (accounts T S) (case x of (sumRx, sumTx, active) \<Rightarrow> bnd (gets (\<lambda>w. sc_tot w i)) (\<lambda>(prx, ptx).
       let rxr = per_second (sumRx - prx); txr = per_second (sumTx - ptx) in
       bnd (upd (\<lambda>w. w\<lparr>sc_tot := (sc_tot w)(i := (sumRx, sumTx))\<rparr>)) (\<lambda>_.
       bnd (ignore (stats_Insert (tunnel_snapshot i sumRx sumTx rxr txr active now))) (\<lambda>_.
       ret (Some \<lparr>tr_id = i, tr_rx = rxr, tr_tx = txr\<rparr>))))) (ticked i T S) (accounts T S)"
      using sums by (cases x) simp
  qed
  show ?thesis
    unfolding tick_tunnel_def
    by (rule valid_attempt [where R = "\<lambda>_. accounts T S", OF keep [OF accounts_calls(1)]], assumption, rule valid_case_sum [OF none])
      (unfold case_prod_unfold, rule valid_bnd [OF keep [OF preserves_gets]], use poll in \<open>unfold case_prod_unfold\<close>, blast)
qed

lemma tick_tunnel_returns: "returns (tick_tunnel poll i)"
  unfolding tick_tunnel_def Let_def by (intro returns_intro tick_peers_accounts)

section \<open>Property\<close>


text \<open>The tunnel of the sample had 2000 bytes in the tick before; now its only peer is gone.\<close>

definition sample_stats :: "net_view stats_world" where
  "sample_stats = \<lparr>db_now = 0, db_clock = 0, db_fault = (\<lambda>_. None), db_subs = db_subs sample_db, db_nodes = db_nodes sample_db,
     db_ifaces = db_ifaces sample_run, db_peers = \<lparr>t_rows = [], t_seq = 1\<rparr>, db_tnodes = db_tnodes sample_db, db_stats = db_stats sample_db,
     db_audit = db_audit sample_db, db_settings = db_settings sample_db, el_max = 64, el_events = [], el_db = False, rw_host = sample_view,
     rw_devices = Map.empty, rw_instances = Map.empty, rw_running = [1], rw_tracking = [1], rw_rand = (\<lambda>_. Inr []), rw_drawn = 0,
     sc_tot = (\<lambda>i. if i = 1 then (2000, 0) else (0, 0)), sc_seen = (\<lambda>_. (0, 0)), sc_hub = NewHub\<rparr>"


end
