(* ===== verification/NodeHealth.thy ===== *)
theory NodeHealth
  imports SubscriptionRepo GoNet
begin

text \<open>
  The reachability monitor of the nodes, \<open>service/node_health.go\<close>: each cycle dials every node, at most
  \<open>parallel\<close> (here \<open>width\<close>) at a time, and keeps the results in a cache. Each probe runs in a goroutine of its own, so a cycle
  is a sequence of steps in any order.
\<close>

section \<open>The monitor\<close>

record health_snapshot =
  hs_alive :: bool
  hs_delay :: int
  hs_at :: int

record health_monitor =
  hm_interval :: int
  hm_timeout :: int
  hm_parallel :: int
  hm_cache :: "int \<rightharpoonup> health_snapshot"

definition NewNodeHealthMonitor :: "int \<Rightarrow> int \<Rightarrow> int \<Rightarrow> health_monitor" where
  "NewNodeHealthMonitor interval timeout width = \<lparr>hm_interval = interval, hm_timeout = timeout,
     hm_parallel = (if width \<le> 0 then 10 else width), hm_cache = Map.empty\<rparr>"

definition health_Get :: "health_monitor \<Rightarrow> int \<Rightarrow> health_snapshot option" where
  "health_Get m nodeID = hm_cache m nodeID"

definition health_Snapshot :: "health_monitor \<Rightarrow> int \<rightharpoonup> health_snapshot" where
  "health_Snapshot m = hm_cache m"

text \<open>\<open>dial addr\<close> is the outcome of the dialer within the timeout: an error, or the nanoseconds it took.\<close>

definition probeOne :: "(string \<Rightarrow> go_error + int) \<Rightarrow> int \<Rightarrow> string \<Rightarrow> int \<Rightarrow> health_snapshot" where
  "probeOne dial now host port = (case dial (join_host_port host (itoa port)) of
     Inl e \<Rightarrow> \<lparr>hs_alive = False, hs_delay = -1, hs_at = now\<rparr>
   | Inr ns \<Rightarrow> \<lparr>hs_alive = True, hs_delay = ns div 1000000, hs_at = now\<rparr>)"

section \<open>A cycle\<close>

text \<open>The nodes still to be started, those in flight, and the cache.\<close>

record probe_cycle =
  pc_todo :: "vless_node list"
  pc_flight :: "vless_node list"
  pc_cache :: "int \<rightharpoonup> health_snapshot"

definition probe_targets :: "vless_node list \<Rightarrow> vless_node list" where
  "probe_targets ns = filter (\<lambda>n. vn_address n \<noteq> [] \<and> vn_port n > 0) ns"

definition begin_cycle :: "vless_node list \<Rightarrow> (int \<rightharpoonup> health_snapshot) \<Rightarrow> probe_cycle" where
  "begin_cycle ns c = \<lparr>pc_todo = probe_targets ns, pc_flight = [], pc_cache = c\<rparr>"

definition launch :: "int \<Rightarrow> probe_cycle \<Rightarrow> probe_cycle option" where
  "launch width p = (case pc_todo p of [] \<Rightarrow> None
     | n # ns \<Rightarrow> if int (length (pc_flight p)) < width then Some (p\<lparr>pc_todo := ns, pc_flight := pc_flight p @ [n]\<rparr>) else None)"

definition finish :: "(vless_node \<Rightarrow> health_snapshot) \<Rightarrow> vless_node \<Rightarrow> probe_cycle \<Rightarrow> probe_cycle option" where
  "finish probe n p = (if n \<in> set (pc_flight p)
     then Some (p\<lparr>pc_flight := remove1 n (pc_flight p), pc_cache := (pc_cache p)(vn_id n \<mapsto> probe n)\<rparr>) else None)"

inductive probe_step :: "int \<Rightarrow> (vless_node \<Rightarrow> health_snapshot) \<Rightarrow> probe_cycle \<Rightarrow> probe_cycle \<Rightarrow> bool" for width probe where
  launched: "launch width p = Some q \<Longrightarrow> probe_step width probe p q"
| finished: "finish probe n p = Some q \<Longrightarrow> probe_step width probe p q"

inductive_cases probe_stepE: "probe_step width probe p q"

definition cycle_over :: "probe_cycle \<Rightarrow> bool" where
  "cycle_over p \<longleftrightarrow> pc_todo p = [] \<and> pc_flight p = []"

text \<open>The entries of nodes that no longer exist go.\<close>

definition forget_gone :: "vless_node list \<Rightarrow> (int \<rightharpoonup> health_snapshot) \<Rightarrow> int \<rightharpoonup> health_snapshot" where
  "forget_gone ns c = (\<lambda>i. if i \<in> vn_id ` set ns then c i else None)"

text \<open>The cycle as it runs when one probe is made after the other; a failed or empty listing changes nothing.\<close>

definition probe_in_turn :: "(vless_node \<Rightarrow> health_snapshot) \<Rightarrow> vless_node list \<Rightarrow> (int \<rightharpoonup> health_snapshot) \<Rightarrow> int \<rightharpoonup> health_snapshot" where
  "probe_in_turn probe ns c = fold (\<lambda>n c. c(vn_id n \<mapsto> probe n)) (probe_targets ns) c"

definition probeAll :: "(string \<Rightarrow> go_error + int) \<Rightarrow> int \<Rightarrow> go_error + vless_node list \<Rightarrow> health_monitor \<Rightarrow> health_monitor" where
  "probeAll dial now listed m = (case listed of Inl e \<Rightarrow> m | Inr ns \<Rightarrow> if ns = [] then m
     else m\<lparr>hm_cache := forget_gone ns (probe_in_turn (\<lambda>n. probeOne dial now (vn_address n) (vn_port n)) ns (hm_cache m))\<rparr>)"

section \<open>Lemmas\<close>

definition cycle_ok :: "(vless_node \<Rightarrow> health_snapshot) \<Rightarrow> vless_node list \<Rightarrow> (int \<rightharpoonup> health_snapshot) \<Rightarrow> probe_cycle \<Rightarrow> bool" where
  "cycle_ok probe ts c p \<longleftrightarrow> set (pc_todo p) \<union> set (pc_flight p) \<subseteq> set ts \<and> distinct (pc_todo p @ pc_flight p)
     \<and> (\<forall>n\<in>set ts. n \<notin> set (pc_todo p) \<longrightarrow> n \<notin> set (pc_flight p) \<longrightarrow> pc_cache p (vn_id n) = Some (probe n))
     \<and> (\<forall>i. i \<notin> vn_id ` set ts \<longrightarrow> pc_cache p i = c i)"

lemma cycle_step_ok:
  assumes "probe_step width probe p q" "cycle_ok probe ts c p" "distinct (map vn_id ts)"
  shows "cycle_ok probe ts c q"
  using assms(1)
proof cases
  case launched
  then show ?thesis using assms(2) by (auto simp: launch_def cycle_ok_def split: list.splits if_splits)
next
  case (finished n)
  then have n: "n \<in> set (pc_flight p)" and q: "q = p\<lparr>pc_flight := remove1 n (pc_flight p), pc_cache := (pc_cache p)(vn_id n \<mapsto> probe n)\<rparr>"
    by (auto simp: finish_def split: if_splits)
  have "n \<in> set ts" using n assms(2) by (auto simp: cycle_ok_def)
  moreover have "m = n" if "m \<in> set ts" "vn_id m = vn_id n" for m
    using that \<open>n \<in> set ts\<close> assms(3) by (auto simp: distinct_map inj_on_def)
  ultimately show ?thesis using assms(2) n unfolding q cycle_ok_def by (auto simp: set_remove1_eq distinct_remove1)
qed

lemma cycle_steps_ok:
  "(probe_step width probe ^^ k) p q \<Longrightarrow> cycle_ok probe ts c p \<Longrightarrow> distinct (map vn_id ts) \<Longrightarrow> cycle_ok probe ts c q"
proof (induction k arbitrary: q)
  case (Suc k)
  then obtain r where "(probe_step width probe ^^ k) p r" "probe_step width probe r q" by auto
  with Suc show ?case by (blast intro: cycle_step_ok)
qed simp

definition cycle_work :: "probe_cycle \<Rightarrow> nat" where
  "cycle_work p = 2 * length (pc_todo p) + length (pc_flight p)"

lemma cycle_step_work: "probe_step width probe p q \<Longrightarrow> Suc (cycle_work q) = cycle_work p"
  by (erule probe_stepE)
    (auto simp: launch_def finish_def cycle_work_def length_remove1 split: list.splits if_splits
      intro!: Suc_pred length_pos_if_in_set)

lemma cycle_steps_work: "(probe_step width probe ^^ k) p q \<Longrightarrow> k + cycle_work q = cycle_work p"
proof (induction k arbitrary: q)
  case (Suc k)
  then obtain r where "(probe_step width probe ^^ k) p r" "probe_step width probe r q" by auto
  with Suc.IH cycle_step_work show ?case by fastforce
qed simp

lemma fold_probe:
  "distinct (map vn_id ts) \<Longrightarrow> fold (\<lambda>n c. c(vn_id n \<mapsto> probe n)) ts c i
     = (case find (\<lambda>n. vn_id n = i) ts of None \<Rightarrow> c i | Some n \<Rightarrow> Some (probe n))"
proof (induction ts arbitrary: c)
  case (Cons n ts)
  show ?case
  proof (cases "vn_id n = i")
    case True
    with Cons.prems have "find (\<lambda>n. vn_id n = i) ts = None" by (metis (mono_tags, lifting) distinct.simps(2) find_None_iff image_eqI list.simps(9) list.set_map)
    with True Cons show ?thesis by simp
  next
    case False
    with Cons show ?thesis by simp
  qed
qed simp

lemma cycle_result:
  assumes "cycle_ok probe ts c p" "cycle_over p" "distinct (map vn_id ts)"
  shows "pc_cache p = fold (\<lambda>n c. c(vn_id n \<mapsto> probe n)) ts c"
proof
  fix i
  show "pc_cache p i = fold (\<lambda>n c. c(vn_id n \<mapsto> probe n)) ts c i"
  proof (cases "find (\<lambda>n. vn_id n = i) ts")
    case None
    then have "i \<notin> vn_id ` set ts" by (auto simp: find_None_iff)
    with assms(1) None show ?thesis unfolding fold_probe [OF assms(3)] by (simp add: cycle_ok_def)
  next
    case (Some n)
    then have "n \<in> set ts" "vn_id n = i" using find_Some_set [OF Some] by simp_all
    with assms(1,2) Some show ?thesis unfolding fold_probe [OF assms(3)] by (auto simp: cycle_ok_def cycle_over_def)
  qed
qed

section \<open>Property\<close>

text \<open>C34: probing in parallel gives what probing in turn gives: however the goroutines of a cycle interleave, a cycle over
  the nodes of the database (whose ids differ) never blocks, makes exactly two steps per node it probes, and
  ends with the cache the sequential cycle computes.\<close>

theorem parallel_probes_equal:
  assumes "distinct (map vn_id ns)" "width > 0" "(probe_step width probe ^^ k) (begin_cycle ns c) p"
  shows "(cycle_over p \<longrightarrow> k = 2 * length (probe_targets ns) \<and> pc_cache p = probe_in_turn probe ns c)
     \<and> (\<not> cycle_over p \<longrightarrow> k < 2 * length (probe_targets ns) \<and> (\<exists>q. probe_step width probe p q))"
proof -
  have d: "distinct (map vn_id (probe_targets ns))"
    unfolding probe_targets_def by (rule distinct_map_filter [OF assms(1)])
  have "cycle_ok probe (probe_targets ns) c (begin_cycle ns c)"
    using d by (auto simp: cycle_ok_def begin_cycle_def distinct_map)
  then have ok: "cycle_ok probe (probe_targets ns) c p" by (rule cycle_steps_ok [OF assms(3) _ d])
  have work: "k + cycle_work p = 2 * length (probe_targets ns)"
    using cycle_steps_work [OF assms(3)] by (simp add: cycle_work_def begin_cycle_def)
  have "\<exists>q. probe_step width probe p q" if "\<not> cycle_over p"
  proof (cases "pc_flight p")
    case Nil
    with that obtain n ns where "pc_todo p = n # ns" by (auto simp: cycle_over_def neq_Nil_conv)
    with Nil assms(2) have "launch width p = Some (p\<lparr>pc_todo := ns, pc_flight := pc_flight p @ [n]\<rparr>)" by (simp add: launch_def)
    then show ?thesis by (blast intro: launched)
  next
    case (Cons n ns)
    then have "finish probe n p = Some (p\<lparr>pc_flight := remove1 n (pc_flight p), pc_cache := (pc_cache p)(vn_id n \<mapsto> probe n)\<rparr>)"
      by (simp add: finish_def)
    then show ?thesis by (blast intro: finished)
  qed
  moreover have "cycle_work p > 0" if "\<not> cycle_over p" using that by (auto simp: cycle_work_def cycle_over_def)
  moreover have "cycle_work p = 0" if "cycle_over p" using that by (simp add: cycle_work_def cycle_over_def)
  ultimately show ?thesis
    using work cycle_result [OF ok _ d] unfolding probe_in_turn_def by auto
qed

theorem parallel_probes_equal_witness:
  "let ns = t_rows (db_nodes sample_db); probe = (\<lambda>n. \<lparr>hs_alive = True, hs_delay = vn_id n, hs_at = 0\<rparr>) in
     {p. (probe_step 1 probe ^^ 4) (begin_cycle ns Map.empty) p \<and> pc_cache p \<noteq> probe_in_turn probe ns Map.empty} = {}"
proof -
  let ?ns = "t_rows (db_nodes sample_db)"
  have d: "distinct (map vn_id ?ns)" and l: "length (probe_targets ?ns) = 2" by code_simp+
  show ?thesis
    unfolding Let_def using parallel_probes_equal [OF d, where width = 1 and k = 4 and c = Map.empty] l by fastforce
qed

end
