(* ===== verification/PeerProps.thy ===== *)
theory PeerProps
  imports TunnelLife
begin

text \<open>
  Properties of the peer service: the address a new peer gets, and the texts made for the client.
\<close>

section \<open>The address of a new peer\<close>

lemma find_upt_cases:
  assumes "find P [m..<n] = r"
  shows "case r of None \<Rightarrow> (\<forall>b. m \<le> b \<longrightarrow> b < n \<longrightarrow> \<not> P b)
    | Some b \<Rightarrow> m \<le> b \<and> b < n \<and> P b \<and> (\<forall>c. m \<le> c \<longrightarrow> c < b \<longrightarrow> \<not> P c)"
proof (cases r)
  case None
  with assms show ?thesis by (auto simp: find_None_iff)
next
  case (Some b)
  with assms obtain k where k: "k < n - m" "P (m + k)" "b = m + k" "\<forall>j<k. \<not> P (m + j)"
    by (auto simp: find_Some_iff)
  have "\<not> P c" if "m \<le> c" "c < b" for c
    using k(3,4) that by (metis add_diff_inverse_nat le_add_diff_inverse less_diff_conv2 add.commute)
  with k Some show ?thesis by simp
qed

text \<open>The peers of tunnel \<open>i\<close> that have host number \<open>b\<close> in the net with the three leading bytes \<open>pre\<close>.\<close>

definition host_taken :: "'a database_scheme \<Rightarrow> int \<Rightarrow> ip \<Rightarrow> nat \<Rightarrow> bool" where
  "host_taken d i pre b \<longleftrightarrow> (\<exists>p\<in>set (t_rows (db_peers d)). wp_iface p = i \<and> used_host pre (wp_address p) = Some b)"

lemma used_of_address:
  assumes "length pre = 3" "octets pre" "b \<le> 254"
  shows "used_host pre (cidr4 (pre @ [b]) 32) = Some b"
proof -
  have "length (pre @ [b]) = 4" "octets (pre @ [b])" using assms by (simp_all add: octets_def)
  from ParseCIDR_cidr4 [OF this, of 32] show ?thesis
    using assms by (simp add: used_host_def to4_def v4_prefix_def nth_append)
qed

lemma NextClientIP_run:
  assumes "no_fault d" "length q = 4" "octets q" "n \<le> 32"
  shows "NextClientIP i (cidr4 q n) d = (case find (\<lambda>b. \<not> host_taken d i (take 3 (mask_bytes n q)) b) [2..<255] of
      None \<Rightarrow> (Inl ErrConflict, tick d)
    | Some b \<Rightarrow> (Inr (cidr4 (take 3 (mask_bytes n q) @ [b]) 32), tick d))"
proof -
  let ?pre = "take 3 (mask_bytes n q)"
  let ?peers = "map peerRow (sort_key wp_id (t_select (\<lambda>p. wp_iface p = i) (db_peers d)))"
  have "b \<in> set (List.map_filter (\<lambda>p. used_host ?pre (wp_address p)) ?peers) \<longleftrightarrow> host_taken d i ?pre b" for b
    by (auto simp: set_map_filter_Some host_taken_def t_select_def peerRow_def wg_peer.defs)
  then have f: "free_host (List.map_filter (\<lambda>p. used_host ?pre (wp_address p)) ?peers) = find (\<lambda>b. \<not> host_taken d i ?pre b) [2..<255]"
    by (simp add: free_host_def)
  have "nat_digits 32 = ''32''" by code_simp
  then have s: "dotted x @ ''/32'' = cidr4 x 32" for x by (simp add: cidr4_def)
  have p: "ParseCIDR (cidr4 q n) = Some (v4_prefix @ q, \<lparr>in_ip = mask_bytes n q, in_ones = n\<rparr>)" by (rule ParseCIDR_cidr4 [OF assms(2-4)])
  have t: "to4 (mask_bytes n q) = Some (mask_bytes n q)" using assms(2) by (simp add: to4_def)
  have l: "ListByInterface i d = (Inr ?peers, tick d)" using assms(1) by (simp add: ListByInterface_def)
  show ?thesis
    unfolding NextClientIP_def p option.case prod.case ip_net.simps t bnd_def l sum.case f
    by (cases "find (\<lambda>b. \<not> host_taken d i (take 3 (mask_bytes n q)) b) [2..<255]")
      (simp_all only: option.case s ret_def fail_def)
qed

text \<open>C30: a new peer of a tunnel with address a.b.c.d/n gets the first of the addresses with host number 2 to 254 in the
  first 256 of the network that no peer of the tunnel has; there is one whenever the tunnel has fewer than 253
  peers, and when all are taken the answer is a conflict. Neither the size of the network nor the tunnel's
  own address is looked at.\<close>

theorem next_client_ip:
  assumes "no_fault d" "length q = 4" "octets q" "n \<le> 32"
  shows "\<exists>pre r t. NextClientIP i (cidr4 q n) d = (r, t) \<and> pre = take 3 (mask_bytes n q)
    \<and> (r = Inl ErrConflict \<and> (\<forall>b\<in>{2..254}. host_taken d i pre b)
       \<or> (\<exists>b\<in>{2..254}. r = Inr (cidr4 (pre @ [b]) 32) \<and> \<not> host_taken d i pre b \<and> (\<forall>c\<in>{2..<b}. host_taken d i pre c)
            \<and> used_host pre (cidr4 (pre @ [b]) 32) = Some b))
    \<and> (length (filter (\<lambda>p. wp_iface p = i) (t_rows (db_peers d))) < 253 \<longrightarrow> r \<noteq> Inl ErrConflict)"
proof -
  let ?pre = "take 3 (mask_bytes n q)"
  have pre: "length ?pre = 3" "octets ?pre"
    using assms mask_bytes_octets [OF assms(3), of n] by (auto simp: octets_def dest: in_set_takeD)
  let ?own = "filter (\<lambda>p. wp_iface p = i) (t_rows (db_peers d))"
  have few: "\<exists>b\<in>{2..254}. \<not> host_taken d i ?pre b" if "length ?own < 253"
  proof (rule ccontr)
    assume "\<not> ?thesis"
    then have "Some ` {2..254} \<subseteq> (\<lambda>p. used_host ?pre (wp_address p)) ` set ?own" unfolding host_taken_def by (force simp: image_iff eq_commute)
    then have "card (Some ` {2..254 :: nat}) \<le> card (set ?own)" by (meson card_image_le card_mono finite_imageI finite_set le_trans)
    also have "\<dots> \<le> length ?own" by (rule card_length)
    finally show False using that by (simp add: card_image)
  qed
  show ?thesis
  proof (cases "find (\<lambda>b. \<not> host_taken d i ?pre b) [2..<255]")
    case None
    then have "\<forall>b\<in>{2..254}. host_taken d i ?pre b" using find_upt_cases [OF None] by auto
    with few None show ?thesis unfolding NextClientIP_run [OF assms] by auto
  next
    case (Some b)
    have "2 \<le> b \<and> b < 255 \<and> \<not> host_taken d i ?pre b \<and> (\<forall>c\<in>{2..<b}. host_taken d i ?pre c)"
      using find_upt_cases [OF Some] by auto
    then show ?thesis
      unfolding NextClientIP_run [OF assms] Some using used_of_address [OF pre, of b] by auto
  qed
qed

text \<open>The tunnel itself has 10.100.1.2, and so has its first peer.\<close>

theorem next_client_ip_witness:
  "\<exists>t. NextClientIP 7 (cidr4 [10, 100, 1, 2] 30) sample_run = (Inr (cidr4 [10, 100, 1, 2] 32), t)"
proof -
  have "no_fault sample_run" "length [10, 100, 1, 2 :: nat] = 4" "octets [10, 100, 1, 2]"
    by (simp_all add: no_fault_def sample_run_def octets_def)
  note p = next_client_ip [OF this, of 30 7]
  have pre: "take 3 (mask_bytes 30 [10, 100, 1, 2]) = [10, 100, 1]" by code_simp
  have "filter (\<lambda>p. wp_iface p = 7) (t_rows (db_peers sample_run)) = []" by code_simp
  then have "\<not> host_taken sample_run 7 [10, 100, 1] c" for c by (auto simp: host_taken_def filter_empty_conv)
  with p show ?thesis unfolding pre by (force simp: le_less)
qed

end
