(* ===== verification/Refresh.thy ===== *)
theory Refresh
  imports Subscriptions "HOL-Library.Multiset"
begin

text \<open>
  What a refresh does to the nodes of a subscription and to the tunnels that use them: the run of
  \<open>FetchAndUpdate\<close> statement by statement, when no statement is interrupted.
\<close>

section \<open>Inserting the new nodes\<close>

definition add_node :: "vless_node \<Rightarrow> 'a database_scheme \<Rightarrow> 'a database_scheme" where
  "add_node n d = d\<lparr>db_nodes := t_insert (node_row n (db_now d)) (db_nodes d)\<rparr>"

fun add_nodes :: "vless_node list \<Rightarrow> 'a database_scheme \<Rightarrow> 'a database_scheme" where
  "add_nodes [] d = d"
| "add_nodes (n # ns) d = add_nodes ns (add_node n d)"

fun number_from :: "int \<Rightarrow> vless_node list \<Rightarrow> vless_node list" where
  "number_from k [] = []"
| "number_from k (n # ns) = n\<lparr>vn_id := k + 1\<rparr> # number_from (k + 1) ns"

lemma number_from_length [simp]: "length (number_from k ns) = length ns"
  by (induction ns arbitrary: k) auto

lemma number_from_Nil [simp]: "number_from k ns = [] \<longleftrightarrow> ns = []"
  by (cases ns) auto

lemma number_from_map [simp]: "map vn_raw (number_from k ns) = map vn_raw ns" "map vn_sub (number_from k ns) = map vn_sub ns"
  by (induction ns arbitrary: k) auto

lemma number_from_ids: "map vn_id (number_from k ns) = map (\<lambda>j. k + 1 + int j) [0..<length ns]"
proof (induction ns arbitrary: k)
  case (Cons n ns)
  have "map (\<lambda>j. k + 1 + int j) [0..<length (n # ns)] = (k + 1) # map (\<lambda>j. k + 1 + 1 + int j) [0..<length ns]"
    by (rule nth_equalityI) (auto simp: nth_Cons' simp del: upt_Suc)
  with Cons show ?case by simp
qed simp

lemma number_from_gt: "n \<in> set (number_from k ns) \<Longrightarrow> vn_id n > k"
  by (induction ns arbitrary: k) force+

lemma add_node_sel [simp]:
  "db_ifaces (add_node n d) = db_ifaces d" "db_subs (add_node n d) = db_subs d" "db_peers (add_node n d) = db_peers d"
  "db_tnodes (add_node n d) = db_tnodes d" "db_fault (add_node n d) = db_fault d" "db_now (add_node n d) = db_now d"
  "db_clock (add_node n d) = db_clock d" "no_fault (add_node n d) = no_fault d"
  "add_node n (ticks k d) = ticks k (add_node n d)"
  by (simp_all add: add_node_def no_fault_def ticks_def)

lemma add_nodes_sel [simp]:
  "db_ifaces (add_nodes ns d) = db_ifaces d" "db_subs (add_nodes ns d) = db_subs d" "db_peers (add_nodes ns d) = db_peers d"
  "db_tnodes (add_nodes ns d) = db_tnodes d" "db_fault (add_nodes ns d) = db_fault d" "db_now (add_nodes ns d) = db_now d"
  "db_clock (add_nodes ns d) = db_clock d" "no_fault (add_nodes ns d) = no_fault d"
  "add_nodes ns (ticks k d) = ticks k (add_nodes ns d)"
  by (induction ns arbitrary: d) simp_all

lemma add_nodes_rows:
  "t_rows (db_nodes (add_nodes ns d)) = t_rows (db_nodes d)
     @ map (\<lambda>n. node_row n (db_now d) (vn_id n)) (number_from (t_seq (db_nodes d)) ns)"
proof (induction ns arbitrary: d)
  case (Cons n ns)
  have "node_row (n\<lparr>vn_id := k\<rparr>) now i = node_row n now i" for k now i by (simp add: node_row_def)
  with Cons show ?case by (simp add: add_node_def t_insert_def)
qed simp

lemma node_row_sel [simp]: "vn_id (node_row n now i) = i" "vn_raw (node_row n now i) = vn_raw n"
  "vn_sub (node_row n now i) = vn_sub n"
  by (simp_all add: node_row_def)

lemma add_node_schema: "schema_ok d \<Longrightarrow> schema_ok (add_node n d)"
proof -
  assume a: "schema_ok d"
  have h: "has_id vn_id (db_nodes d) i \<Longrightarrow> has_id vn_id (db_nodes (add_node n d)) i" for i
    by (simp add: add_node_def has_id_insert)
  have "ids_ok (add_node n d)" using a by (simp add: add_node_def schema_ok_def ids_ok_upd table_ok_insert)
  moreover have "iface_refs_ok (add_node n d)" using a h ref_ok_mono [of vn_id "db_nodes d" _ "db_nodes (add_node n d)"]
    by (simp add: schema_ok_def iface_refs_ok_def)
  moreover have "tnode_refs_ok (add_node n d)" using a h by (simp add: schema_ok_def tnode_refs_ok_def)
  ultimately show ?thesis using a by (simp add: schema_ok_def peer_refs_ok_def unique_ok_def)
qed

lemma add_nodes_schema: "schema_ok d \<Longrightarrow> schema_ok (add_nodes ns d)"
  by (induction ns arbitrary: d) (simp_all add: add_node_schema)

lemma insert_nodes_run:
  assumes "schema_ok d" "no_fault d"
  shows "map_each insert_node ns d = (Inr (number_from (t_seq (db_nodes d)) ns), ticks (length ns) (add_nodes ns d))"
  using assms
proof (induction ns arbitrary: d)
  case Nil
  then show ?case by (simp add: ret_def)
next
  case (Cons n ns)
  let ?d = "ticks 1 (add_node n d)"
  have 1: "insert_node n d = (Inr (n\<lparr>vn_id := t_seq (db_nodes d) + 1\<rparr>), ?d)"
    unfolding insert_node_def
    using exec_step [of d "add_node n" "\<lambda>d. n\<lparr>vn_id := t_seq (db_nodes d) + 1\<rparr>"] Cons.prems
    by (simp add: add_node_schema) (simp add: add_node_def)
  have "map_each insert_node ns ?d = (Inr (number_from (t_seq (db_nodes ?d)) ns), ticks (length ns) (add_nodes ns ?d))"
    using Cons.prems by (intro Cons.IH) (simp_all add: add_node_schema)
  moreover have "t_seq (db_nodes ?d) = t_seq (db_nodes d) + 1" by (simp add: add_node_def t_insert_def)
  ultimately show ?case by (simp add: 1 bnd_def ret_def)
qed

lemma InsertNodes_run:
  assumes "schema_ok d" "no_fault d"
  shows "InsertNodes ns d = (Inr (number_from (t_seq (db_nodes d)) ns), ticks (length ns + 1) (add_nodes ns d))"
proof -
  have "InsertNodes ns d = (Inr (number_from (t_seq (db_nodes d)) ns), tick (ticks (length ns) (add_nodes ns d)))"
    unfolding InsertNodes_def using insert_nodes_run [OF assms, of ns] assms(2) by (intro tx_run) simp_all
  then show ?thesis by simp
qed

section \<open>Rebinding the tunnels\<close>

lemma first_by_uri_in:
  "first_by_uri ns k \<noteq> 0 \<Longrightarrow> \<exists>n\<in>set ns. vn_id n = first_by_uri ns k \<and> trim_space (vn_raw n) = k \<and> k \<noteq> []"
  by (induction ns) (auto split: if_splits)

lemma first_by_uri_zero:
  "0 \<notin> vn_id ` set ns \<Longrightarrow> first_by_uri ns k = 0 \<longleftrightarrow> k = [] \<or> k \<notin> (\<lambda>n. trim_space (vn_raw n)) ` set ns"
  by (induction ns) auto

fun remap_all :: "int \<Rightarrow> vless_node list \<Rightarrow> active_binding list \<Rightarrow> 'a database_scheme \<Rightarrow> 'a database_scheme" where
  "remap_all i ns [] d = d"
| "remap_all i ns (b # bs) d = remap_all i ns bs
     (let j = first_by_uri ns (trim_space (ab_raw b)) in if j = 0 then d else set_active i (ab_iface b) j d)"

fun restore_all :: "vless_node list \<Rightarrow> tunnel_binding list \<Rightarrow> 'a database_scheme \<Rightarrow> 'a database_scheme" where
  "restore_all ns [] d = d"
| "restore_all ns (b # bs) d = restore_all ns bs
     (let j = first_by_uri ns (trim_space (tb_raw b)) in if j = 0 then d else add_tnode (tb_iface b) j (tb_pos b) d)"

lemma set_active_sel [simp]:
  "db_nodes (set_active i f j d) = db_nodes d" "db_subs (set_active i f j d) = db_subs d"
  "db_tnodes (set_active i f j d) = db_tnodes d" "db_peers (set_active i f j d) = db_peers d"
  "db_fault (set_active i f j d) = db_fault d" "db_now (set_active i f j d) = db_now d"
  "no_fault (set_active i f j d) = no_fault d" "set_active i f j (ticks k d) = ticks k (set_active i f j d)"
  by (simp_all add: set_active_def no_fault_def ticks_def)

lemma set_active_ids [simp]: "wi_id ` set (t_rows (db_ifaces (set_active i f j d))) = wi_id ` set (t_rows (db_ifaces d))"
  unfolding set_active_def by (simp add: t_update_keys(2))

lemma set_active_schema:
  assumes "schema_ok d" "has_id vn_id (db_nodes d) j"
  shows "schema_ok (set_active i f j d)"
proof -
  let ?t = "db_ifaces (set_active i f j d)"
  have t: "?t = t_update (\<lambda>w. wi_id w = f \<and> wi_sub w = Some i) (\<lambda>w. w\<lparr>wi_node := Some j, wi_updated := db_now d\<rparr>) (db_ifaces d)"
    by (simp add: set_active_def)
  have k: "map wi_name (t_rows ?t) = map wi_name (t_rows (db_ifaces d))" "map wi_port (t_rows ?t) = map wi_port (t_rows (db_ifaces d))"
    unfolding t by (rule t_update_keys(1), simp)+
  have "unique_ok (set_active i f j d)" using assms(1) k by (simp add: schema_ok_def unique_ok_def)
  moreover have "iface_refs_ok (set_active i f j d)"
    using assms by (auto simp: schema_ok_def iface_refs_ok_def t t_update_def)
  moreover have "ids_ok (set_active i f j d)" using assms(1)
    by (simp add: schema_ok_def set_active_def ids_ok_upd table_ok_update)
  moreover have "peer_refs_ok (set_active i f j d)" "tnode_refs_ok (set_active i f j d)"
    using assms(1) by (auto simp: schema_ok_def peer_refs_ok_def tnode_refs_ok_def has_id_def)
  ultimately show ?thesis by (simp add: schema_ok_def)
qed

lemma remap_all_sel [simp]:
  "db_nodes (remap_all i ns bs d) = db_nodes d" "db_subs (remap_all i ns bs d) = db_subs d"
  "db_tnodes (remap_all i ns bs d) = db_tnodes d" "db_now (remap_all i ns bs d) = db_now d"
  "no_fault (remap_all i ns bs d) = no_fault d" "remap_all i ns bs (ticks k d) = ticks k (remap_all i ns bs d)"
  "db_peers (remap_all i ns bs d) = db_peers d"
  by (induction bs arbitrary: d) (simp_all add: Let_def)

lemma remap_run:
  assumes "schema_ok d" "no_fault d" "\<forall>n\<in>set ns. has_id vn_id (db_nodes d) (vn_id n)"
  shows "\<exists>k. for_each (remap_one i ns) bs d = (Inr (), ticks k (remap_all i ns bs d)) \<and> schema_ok (remap_all i ns bs d)"
  using assms
proof (induction bs arbitrary: d)
  case Nil
  then show ?case by (intro exI [of _ 0]) (simp add: ret_def)
next
  case (Cons b bs)
  let ?j = "first_by_uri ns (trim_space (ab_raw b))"
  show ?case
  proof (cases "?j = 0")
    case True
    with Cons.IH [OF Cons.prems] show ?thesis by (simp add: remap_one_def bnd_def ret_def)
  next
    case False
    then have j: "has_id vn_id (db_nodes d) ?j" using first_by_uri_in [OF False] Cons.prems(3) by metis
    let ?d = "ticks 1 (set_active i (ab_iface b) ?j d)"
    have s: "schema_ok (set_active i (ab_iface b) ?j d)" by (rule set_active_schema [OF Cons.prems(1) j])
    have 1: "remap_one i ns b d = (Inr (), ?d)"
      using exec_step [of d "set_active i (ab_iface b) ?j" "\<lambda>_. ()"] Cons.prems(2) s False
      by (simp add: remap_one_def)
    have "\<exists>k. for_each (remap_one i ns) bs ?d = (Inr (), ticks k (remap_all i ns bs ?d)) \<and> schema_ok (remap_all i ns bs ?d)"
      using Cons.prems s by (intro Cons.IH) simp_all
    with 1 False show ?thesis by (auto simp: bnd_Inr [of "remap_one i ns b", OF 1] Let_def)
  qed
qed

lemma restore_all_sel [simp]:
  "db_nodes (restore_all ns bs d) = db_nodes d" "db_subs (restore_all ns bs d) = db_subs d"
  "db_ifaces (restore_all ns bs d) = db_ifaces d" "db_now (restore_all ns bs d) = db_now d"
  "db_fault (restore_all ns bs d) = db_fault d" "db_peers (restore_all ns bs d) = db_peers d"
  "no_fault (restore_all ns bs d) = no_fault d" "restore_all ns bs (ticks k d) = ticks k (restore_all ns bs d)"
  by (induction bs arbitrary: d) (simp_all add: Let_def)

lemma restore_run:
  assumes "schema_ok d" "no_fault d" "\<forall>n\<in>set ns. has_id vn_id (db_nodes d) (vn_id n)"
    and "\<forall>b\<in>set bs. has_id wi_id (db_ifaces d) (tb_iface b)"
  shows "\<exists>k. for_each (restore_one ns) bs d = (Inr (), ticks k (restore_all ns bs d)) \<and> schema_ok (restore_all ns bs d)"
  using assms
proof (induction bs arbitrary: d)
  case Nil
  then show ?case by (intro exI [of _ 0]) (simp add: ret_def)
next
  case (Cons b bs)
  let ?j = "first_by_uri ns (trim_space (tb_raw b))"
  show ?case
  proof (cases "?j = 0")
    case True
    with Cons.IH [of d] Cons.prems show ?thesis by (simp add: restore_one_def bnd_def ret_def)
  next
    case False
    then have j: "has_id vn_id (db_nodes d) ?j" using first_by_uri_in [OF False] Cons.prems(3) by metis
    let ?d = "ticks 1 (add_tnode (tb_iface b) ?j (tb_pos b) d)"
    have s: "schema_ok ?d" using Cons.prems j by (simp add: add_tnode_schema)
    have 1: "restore_one ns b d = (Inr (), ?d)"
      using Cons.prems j False by (simp add: restore_one_def insert_tnode_run)
    have "\<exists>k. for_each (restore_one ns) bs ?d = (Inr (), ticks k (restore_all ns bs ?d)) \<and> schema_ok (restore_all ns bs ?d)"
      using Cons.prems s by (intro Cons.IH) simp_all
    with 1 False show ?thesis by (auto simp: bnd_Inr [of "restore_one ns b", OF 1] Let_def)
  qed
qed

section \<open>The whole replacement\<close>

definition refreshed :: "int \<Rightarrow> vless_node list \<Rightarrow> 'a database_scheme \<Rightarrow> 'a database_scheme" where
  "refreshed i ns d = (let new = number_from (t_seq (db_nodes d)) ns in
     restore_all new (tunnel_bindings i d) (remap_all i new (active_bindings i d) (add_nodes ns (wipe_nodes i d))))"

lemma bindings_ticks [simp]:
  "tunnel_bindings i (ticks k d) = tunnel_bindings i d" "active_bindings i (ticks k d) = active_bindings i d"
  unfolding tunnel_bindings_def active_bindings_def ticks_sel by simp_all

lemma wipe_nodes_ticks [simp]: "wipe_nodes i (ticks k d) = ticks k (wipe_nodes i d)"
proof (induction k)
  case (Suc k)
  have "ticks (Suc k) e = tick (ticks k e)" for e :: "'a database_scheme" by simp
  moreover have "wipe_nodes i (tick e) = tick (wipe_nodes i e)" for e :: "'a database_scheme"
    by (simp add: wipe_nodes_def)
  ultimately show ?case using Suc by metis
qed simp

lemma wipe_nodes_more [simp]: "no_fault (wipe_nodes i d) = no_fault d" "db_clock (wipe_nodes i d) = db_clock d"
  "t_seq (db_nodes (wipe_nodes i d)) = t_seq (db_nodes d)"
  "wi_id ` set (t_rows (db_ifaces (wipe_nodes i d))) = wi_id ` set (t_rows (db_ifaces d))"
  by (simp_all add: wipe_nodes_sel t_delete_def t_update_keys(2))
     (simp_all add: wipe_nodes_def delete_nodes_of_sub_def delete_tnodes_of_sub_def clear_active_of_sub_def no_fault_def)

lemma DeleteNodes_ticks:
  "schema_ok d \<Longrightarrow> no_fault d \<Longrightarrow> DeleteNodes i d = (Inr (), ticks 4 (wipe_nodes i d))"
  using DeleteNodes_run [of d i] by (simp add: ticks_def wipe_nodes_def delete_nodes_of_sub_def delete_tnodes_of_sub_def clear_active_of_sub_def)

lemma tunnel_bindings_iface:
  assumes "schema_ok d" "b \<in> set (tunnel_bindings i d)"
  shows "has_id wi_id (db_ifaces d) (tb_iface b)"
proof -
  obtain r where "r \<in> set (t_rows (db_tnodes d))" "tb_iface b = tn_iface r"
    using assms(2) by (auto simp: tunnel_bindings_def)
  with assms(1) show ?thesis by (simp add: schema_ok_def tnode_refs_ok_def)
qed

lemma added_nodes_id:
  assumes "n \<in> set (number_from (t_seq (db_nodes d)) ns)"
  shows "has_id vn_id (db_nodes (add_nodes ns d)) (vn_id n)"
proof -
  have "node_row n (db_now d) (vn_id n) \<in> set (t_rows (db_nodes (add_nodes ns d)))"
    using assms by (simp add: add_nodes_rows)
  then show ?thesis unfolding has_id_def by (metis image_eqI node_row_sel(1))
qed

lemma replace_nodes_run:
  assumes "schema_ok d" "no_fault d" "ns \<noteq> []"
  shows "\<exists>k. replace_nodes i ns d = (Inr (), ticks k (refreshed i ns d)) \<and> schema_ok (refreshed i ns d)"
proof -
  let ?new = "number_from (t_seq (db_nodes d)) ns" and ?ab = "active_bindings i d" and ?tb = "tunnel_bindings i d"
  let ?w = "wipe_nodes i d"
  let ?a = "add_nodes ns ?w"
  have s1: "schema_ok ?w" by (rule wipe_steps_schema(3) [OF assms(1)])
  have s2: "schema_ok ?a" by (rule add_nodes_schema [OF s1])
  have ids: "\<forall>n\<in>set ?new. has_id vn_id (db_nodes ?a) (vn_id n)"
    using added_nodes_id [of _ ?w ns] by simp
  have 1: "SnapshotActiveNodesForSubscription i d = (Inr ?ab, ticks 1 d)"
    using assms(2) by (simp add: SnapshotActiveNodesForSubscription_def query_step del: no_fault_query)
  have 2: "SnapshotTunnelNodesForSubscription i (ticks 1 d) = (Inr ?tb, ticks 2 d)"
    using assms(2) by (simp add: SnapshotTunnelNodesForSubscription_def query_step numeral_2_eq_2 del: no_fault_query)
  have 3: "DeleteNodes i (ticks 2 d) = (Inr (), ticks 6 ?w)"
    using DeleteNodes_ticks [of "ticks 2 d" i] assms by simp
  have 4: "InsertNodes ns (ticks 6 ?w) = (Inr ?new, ticks (length ns + 7) ?a)"
    using InsertNodes_run [of "ticks 6 ?w" ns] assms(2) s1 by (simp add: add.commute)
  have "\<exists>k. RemapActiveNodesAfterRefresh i ?ab ?new (ticks (length ns + 7) ?a) = (Inr (), ticks k (remap_all i ?new ?ab ?a))
      \<and> schema_ok (remap_all i ?new ?ab ?a)"
  proof (cases "?ab = []")
    case True
    then show ?thesis using s2 by (auto simp: RemapActiveNodesAfterRefresh_def ret_def)
  next
    case False
    then show ?thesis
      using remap_run [of "ticks (length ns + 7) ?a" ?new i ?ab] s2 assms(2,3) ids
      by (auto simp: RemapActiveNodesAfterRefresh_def)
  qed
  then obtain k where 5: "RemapActiveNodesAfterRefresh i ?ab ?new (ticks (length ns + 7) ?a) = (Inr (), ticks k (remap_all i ?new ?ab ?a))"
    and s3: "schema_ok (remap_all i ?new ?ab ?a)" by blast
  let ?r = "remap_all i ?new ?ab ?a"
  have fk: "\<forall>b\<in>set ?tb. has_id wi_id (db_ifaces ?r) (tb_iface b)"
  proof -
    have "wi_id ` set (t_rows (db_ifaces (remap_all i ns' bs e))) = wi_id ` set (t_rows (db_ifaces e))" for ns' bs and e :: "'a database_scheme"
      by (induction bs arbitrary: e) (simp_all add: Let_def)
    then show ?thesis using tunnel_bindings_iface [OF assms(1)] by (simp add: has_id_def)
  qed
  have "\<exists>k'. RestoreTunnelNodesAfterRefresh i ?tb ?new (ticks k ?r) = (Inr (), ticks k' (restore_all ?new ?tb ?r))
      \<and> schema_ok (restore_all ?new ?tb ?r)"
  proof (cases "?tb = []")
    case True
    then show ?thesis using s3 by (auto simp: RestoreTunnelNodesAfterRefresh_def ret_def)
  next
    case False
    obtain k' where k': "for_each (restore_one ?new) ?tb (ticks k ?r) = (Inr (), ticks k' (restore_all ?new ?tb (ticks k ?r)))"
      and s4: "schema_ok (restore_all ?new ?tb (ticks k ?r))"
      using restore_run [of "ticks k ?r" ?new ?tb] s3 assms(2) ids fk by auto
    have "tx (for_each (restore_one ?new) ?tb) (ticks k ?r) = (Inr (), tick (ticks k' (restore_all ?new ?tb (ticks k ?r))))"
      using k' assms(2) by (intro tx_run) simp_all
    then show ?thesis using False s4 assms(3) by (auto simp: RestoreTunnelNodesAfterRefresh_def)
  qed
  then obtain k' where 6: "RestoreTunnelNodesAfterRefresh i ?tb ?new (ticks k ?r) = (Inr (), ticks k' (restore_all ?new ?tb ?r))"
    and s4: "schema_ok (restore_all ?new ?tb ?r)" by blast
  have "replace_nodes i ns d = (Inr (), ticks k' (restore_all ?new ?tb ?r))"
    using assms(3) by (simp add: replace_nodes_def bnd_def 1 2 3 4 5 6 del: One_nat_def)
  then show ?thesis using s4 by (auto simp: refreshed_def Let_def)
qed

section \<open>What the tunnels are bound to\<close>

definition node_at :: "'a database_scheme \<Rightarrow> int \<Rightarrow> vless_node option" where
  "node_at d j = t_find (\<lambda>n. vn_id n = j) (db_nodes d)"

text \<open>A junction row as the operator sees it: tunnel, position, and the subscription and link of the node.\<close>

definition bind_of :: "'a database_scheme \<Rightarrow> tunnel_node_row \<Rightarrow> int \<times> int \<times> (int \<times> string) option" where
  "bind_of d r = (tn_iface r, tn_pos r, map_option (\<lambda>n. (vn_sub n, trim_space (vn_raw n))) (node_at d (tn_node r)))"

definition keeps :: "int \<Rightarrow> vless_node list \<Rightarrow> int \<times> int \<times> (int \<times> string) option \<Rightarrow> bool" where
  "keeps i ns b = (case snd (snd b) of None \<Rightarrow> True
     | Some (s, u) \<Rightarrow> s = i \<longrightarrow> u \<noteq> [] \<and> u \<in> (\<lambda>n. trim_space (vn_raw n)) ` set ns)"

lemma node_at_iff:
  assumes "table_ok vn_id (db_nodes d)"
  shows "node_at d j = Some n \<longleftrightarrow> n \<in> set (t_rows (db_nodes d)) \<and> vn_id n = j"
proof
  assume "node_at d j = Some n"
  then show "n \<in> set (t_rows (db_nodes d)) \<and> vn_id n = j" by (auto simp: node_at_def t_find_def dest: find_Some_set)
next
  assume "n \<in> set (t_rows (db_nodes d)) \<and> vn_id n = j"
  then show "node_at d j = Some n" using t_find_id [OF assms] by (auto simp: node_at_def)
qed

lemma node_of_sub_at:
  "table_ok vn_id (db_nodes d) \<Longrightarrow> node_of_sub d i j \<longleftrightarrow> (\<exists>n. node_at d j = Some n \<and> vn_sub n = i)"
  by (auto simp: node_of_sub_def node_at_iff)

lemma filter_id:
  assumes "distinct (map vn_id xs)"
  shows "filter (\<lambda>n. vn_id n = j \<and> P n) xs = (case find (\<lambda>n. vn_id n = j) xs of None \<Rightarrow> [] | Some n \<Rightarrow> if P n then [n] else [])"
  using assms by (induction xs) (auto simp: filter_empty_conv image_iff split: option.split dest!: find_Some_set)

definition binding_of :: "'a database_scheme \<Rightarrow> int \<Rightarrow> tunnel_node_row \<Rightarrow> tunnel_binding list" where
  "binding_of d i r = (case node_at d (tn_node r) of None \<Rightarrow> []
     | Some n \<Rightarrow> if vn_sub n = i then [\<lparr>tb_iface = tn_iface r, tb_raw = trim_space (vn_raw n), tb_pos = tn_pos r\<rparr>] else [])"

lemma tunnel_bindings_alt:
  assumes "table_ok vn_id (db_nodes d)"
  shows "tunnel_bindings i d = concat (map (binding_of d i) (t_rows (db_tnodes d)))"
proof -
  let ?ns = "t_rows (db_nodes d)"
  have c: "concat (map (\<lambda>n. if P n then [f n] else []) xs) = map f (filter P xs)" for P f and xs :: "vless_node list"
    by (induction xs) auto
  have "concat (map (\<lambda>n. if vn_id n = tn_node r \<and> vn_sub n = i
        then [\<lparr>tb_iface = tn_iface r, tb_raw = trim_space (vn_raw n), tb_pos = tn_pos r\<rparr>] else []) ?ns) = binding_of d i r" for r
    unfolding c filter_id [OF table_ok_distinct [OF assms]]
    by (simp add: binding_of_def node_at_def t_find_def split: option.split)
  then show ?thesis by (simp add: tunnel_bindings_def)
qed

definition new_row :: "vless_node list \<Rightarrow> tunnel_binding \<Rightarrow> tunnel_node_row \<Rightarrow> bool" where
  "new_row ns b r \<longleftrightarrow> tn_iface r = tb_iface b \<and> tn_pos r = tb_pos b \<and> tn_node r = first_by_uri ns (trim_space (tb_raw b))"

lemma add_tnode_rows: "t_rows (db_tnodes (add_tnode f j p d)) = t_rows (db_tnodes d)
    @ [\<lparr>tn_id = t_seq (db_tnodes d) + 1, tn_iface = f, tn_node = j, tn_pos = p, tn_created = db_now d\<rparr>]"
  by (simp add: add_tnode_def t_insert_def)

lemma number_from_sets: "vn_sub ` set (number_from k ns) = vn_sub ` set ns" "vn_raw ` set (number_from k ns) = vn_raw ` set ns"
  by (metis number_from_map set_map)+

lemma restore_all_rows:
  "\<exists>rs. t_rows (db_tnodes (restore_all ns bs d)) = t_rows (db_tnodes d) @ rs
     \<and> list_all2 (new_row ns) (filter (\<lambda>b. first_by_uri ns (trim_space (tb_raw b)) \<noteq> 0) bs) rs"
proof (induction bs arbitrary: d)
  case (Cons b bs)
  let ?j = "first_by_uri ns (trim_space (tb_raw b))"
  show ?case
  proof (cases "?j = 0")
    case True
    then show ?thesis using Cons [of d] by simp
  next
    case False
    let ?r = "\<lparr>tn_id = t_seq (db_tnodes d) + 1, tn_iface = tb_iface b, tn_node = ?j, tn_pos = tb_pos b, tn_created = db_now d\<rparr>"
    obtain rs where rs: "t_rows (db_tnodes (restore_all ns bs (add_tnode (tb_iface b) ?j (tb_pos b) d)))
        = t_rows (db_tnodes (add_tnode (tb_iface b) ?j (tb_pos b) d)) @ rs"
      "list_all2 (new_row ns) (filter (\<lambda>b. first_by_uri ns (trim_space (tb_raw b)) \<noteq> 0) bs) rs"
      using Cons by blast
    have "new_row ns b ?r" by (simp add: new_row_def)
    then show ?thesis
      by (intro exI [of _ "?r # rs"]) (use False rs in \<open>simp add: Let_def add_tnode_rows\<close>)
  qed
qed simp

text \<open>The nodes after the refresh: those of the other subscriptions, then the new ones.\<close>

lemma refreshed_nodes:
  "t_rows (db_nodes (refreshed i ns d)) = filter (\<lambda>n. vn_sub n \<noteq> i) (t_rows (db_nodes d))
     @ map (\<lambda>n. node_row n (db_now d) (vn_id n)) (number_from (t_seq (db_nodes d)) ns)"
  by (simp add: refreshed_def Let_def add_nodes_rows wipe_nodes_sel) (simp add: t_delete_def)

lemma refreshed_tnodes:
  "\<exists>rs. t_rows (db_tnodes (refreshed i ns d)) = filter (\<lambda>r. \<not> node_of_sub d i (tn_node r)) (t_rows (db_tnodes d)) @ rs
     \<and> list_all2 (new_row (number_from (t_seq (db_nodes d)) ns))
         (filter (\<lambda>b. first_by_uri (number_from (t_seq (db_nodes d)) ns) (trim_space (tb_raw b)) \<noteq> 0) (tunnel_bindings i d)) rs"
  unfolding refreshed_def Let_def
  using restore_all_rows [of "number_from (t_seq (db_nodes d)) ns" "tunnel_bindings i d"
      "remap_all i (number_from (t_seq (db_nodes d)) ns) (active_bindings i d) (add_nodes ns (wipe_nodes i d))"]
  by (simp add: wipe_nodes_sel) (simp add: t_delete_def)

lemma refreshed_new_node:
  assumes "schema_ok (refreshed i ns d)" "\<forall>n\<in>set ns. vn_sub n = i"
    and j: "first_by_uri (number_from (t_seq (db_nodes d)) ns) k \<noteq> 0"
  shows "\<exists>n. node_at (refreshed i ns d) (first_by_uri (number_from (t_seq (db_nodes d)) ns) k) = Some n
     \<and> vn_sub n = i \<and> trim_space (vn_raw n) = k"
proof -
  let ?new = "number_from (t_seq (db_nodes d)) ns"
  from first_by_uri_in [OF j] obtain n where n: "n \<in> set ?new" "vn_id n = first_by_uri ?new k" "trim_space (vn_raw n) = k" by blast
  let ?r = "node_row n (db_now d) (vn_id n)"
  have "?r \<in> set (t_rows (db_nodes (refreshed i ns d)))" using n(1) by (simp add: refreshed_nodes)
  moreover have "vn_sub n = i"
  proof -
    note number_from_sets(1) [of "t_seq (db_nodes d)" ns]
    with n(1) assms(2) show ?thesis by (metis (no_types, lifting) image_iff)
  qed
  ultimately show ?thesis using assms(1) n(2,3)
    by (intro exI [of _ ?r]) (simp add: node_at_iff schema_ok_def)
qed

lemma refreshed_kept_node:
  assumes "schema_ok d" "schema_ok (refreshed i ns d)" "node_at d j = Some n" "vn_sub n \<noteq> i"
  shows "node_at (refreshed i ns d) j = Some n"
  using assms by (simp add: node_at_iff schema_ok_def refreshed_nodes)

lemma first_by_uri_new:
  assumes "table_ok vn_id (db_nodes d)"
  shows "first_by_uri (number_from (t_seq (db_nodes d)) ns) k \<noteq> 0 \<longleftrightarrow> k \<noteq> [] \<and> k \<in> (\<lambda>n. trim_space (vn_raw n)) ` set ns"
proof -
  let ?new = "number_from (t_seq (db_nodes d)) ns"
  have "t_seq (db_nodes d) \<ge> 0" using assms by (simp add: table_ok_def)
  then have "0 \<notin> vn_id ` set ?new" using number_from_gt by fastforce
  moreover have "(\<lambda>n. trim_space (vn_raw n)) ` set ?new = (\<lambda>n. trim_space (vn_raw n)) ` set ns"
    using number_from_sets(2) [of "t_seq (db_nodes d)" ns] by (metis image_image)
  ultimately show ?thesis using first_by_uri_zero [of ?new k] by auto
qed

lemma rebound_rows:
  fixes d :: "'a database_scheme"
  assumes ok: "schema_ok d" "schema_ok (refreshed i ns d)" "\<forall>n\<in>set ns. vn_sub n = i"
    and R: "\<forall>r\<in>set R. node_at d (tn_node r) \<noteq> None"
    and rs: "list_all2 (new_row (number_from (t_seq (db_nodes d)) ns))
         (filter (\<lambda>b. first_by_uri (number_from (t_seq (db_nodes d)) ns) (trim_space (tb_raw b)) \<noteq> 0)
            (concat (map (binding_of d i) R))) rs"
  shows "mset (map (bind_of (refreshed i ns d)) (filter (\<lambda>r. \<not> node_of_sub d i (tn_node r)) R @ rs))
    = mset (filter (keeps i ns) (map (bind_of d) R))"
  using R rs
proof (induction R arbitrary: rs)
  case (Cons r R)
  let ?new = "number_from (t_seq (db_nodes d)) ns"
  obtain n where n: "node_at d (tn_node r) = Some n" using Cons.prems(1) by auto
  have tab: "table_ok vn_id (db_nodes d)" using ok(1) by (simp add: schema_ok_def)
  show ?case
  proof (cases "vn_sub n = i")
    case False
    then have k: "keeps i ns (bind_of d r)" "\<not> node_of_sub d i (tn_node r)" "binding_of d i r = []"
      using n by (simp_all add: keeps_def bind_of_def node_of_sub_at [OF tab] binding_of_def)
    have "bind_of (refreshed i ns d) r = bind_of d r"
      using refreshed_kept_node [OF ok(1,2) n False] n by (simp add: bind_of_def)
    with Cons.IH [of rs] Cons.prems k show ?thesis by simp
  next
    case True
    let ?b = "\<lparr>tb_iface = tn_iface r, tb_raw = trim_space (vn_raw n), tb_pos = tn_pos r\<rparr>"
    have s: "node_of_sub d i (tn_node r)" "binding_of d i r = [?b]"
      using n True by (simp_all add: node_of_sub_at [OF tab] binding_of_def)
    have kp: "keeps i ns (bind_of d r) \<longleftrightarrow> first_by_uri ?new (trim_space (vn_raw n)) \<noteq> 0"
      using n True by (simp add: keeps_def bind_of_def first_by_uri_new [OF tab])
    show ?thesis
    proof (cases "first_by_uri ?new (trim_space (vn_raw n)) = 0")
      case True
      with Cons.IH [of rs] Cons.prems s kp show ?thesis by simp
    next
      case False
      with Cons.prems(2) s obtain q qs where q: "rs = q # qs" "new_row ?new ?b q"
          "list_all2 (new_row ?new) (filter (\<lambda>b. first_by_uri ?new (trim_space (tb_raw b)) \<noteq> 0) (concat (map (binding_of d i) R))) qs"
        by (auto simp: list_all2_Cons1)
      have "bind_of (refreshed i ns d) q = bind_of d r"
        using refreshed_new_node [OF ok(2,3) False] q(2) n \<open>vn_sub n = i\<close>
        by (auto simp: bind_of_def new_row_def)
      with Cons.IH [OF _ q(3)] Cons.prems(1) s kp False q(1) show ?thesis by simp
    qed
  qed
qed simp

lemma refreshed_bindings:
  assumes "schema_ok d" "schema_ok (refreshed i ns d)" "\<forall>n\<in>set ns. vn_sub n = i"
  shows "mset (map (bind_of (refreshed i ns d)) (t_rows (db_tnodes (refreshed i ns d))))
    = mset (filter (keeps i ns) (map (bind_of d) (t_rows (db_tnodes d))))"
proof -
  have tab: "table_ok vn_id (db_nodes d)" using assms(1) by (simp add: schema_ok_def)
  have R: "\<forall>r\<in>set (t_rows (db_tnodes d)). node_at d (tn_node r) \<noteq> None"
  proof
    fix r assume "r \<in> set (t_rows (db_tnodes d))"
    then have "has_id vn_id (db_nodes d) (tn_node r)" using assms(1) by (simp add: schema_ok_def tnode_refs_ok_def)
    then show "node_at d (tn_node r) \<noteq> None" by (auto simp: has_id_def node_at_iff [OF tab])
  qed
  obtain rs where rs: "t_rows (db_tnodes (refreshed i ns d)) = filter (\<lambda>r. \<not> node_of_sub d i (tn_node r)) (t_rows (db_tnodes d)) @ rs"
    "list_all2 (new_row (number_from (t_seq (db_nodes d)) ns))
         (filter (\<lambda>b. first_by_uri (number_from (t_seq (db_nodes d)) ns) (trim_space (tb_raw b)) \<noteq> 0) (tunnel_bindings i d)) rs"
    using refreshed_tnodes by blast
  show ?thesis unfolding rs(1)
    by (rule rebound_rows [OF assms R]) (use rs(2) tunnel_bindings_alt [OF tab] in simp)
qed

section \<open>The active nodes\<close>

lemma remap_other:
  assumes "\<forall>b\<in>set bs. ab_iface b \<noteq> wi_id w" "w \<in> set (t_rows (db_ifaces d))"
  shows "\<exists>x\<in>set (t_rows (db_ifaces (remap_all i ns bs d))). wi_id x = wi_id w \<and> wi_node x = wi_node w \<and> wi_sub x = wi_sub w"
  using assms
proof (induction bs arbitrary: d w)
  case (Cons b bs)
  let ?j = "first_by_uri ns (trim_space (ab_raw b))"
  let ?d = "if ?j = 0 then d else set_active i (ab_iface b) ?j d"
  have "w \<in> set (t_rows (db_ifaces ?d))"
    using Cons.prems by (force simp: set_active_def t_update_def)
  with Cons.IH [of w ?d] Cons.prems show ?case by (simp add: Let_def)
qed auto

lemma active_bindings_iff:
  "b \<in> set (active_bindings i d) \<longleftrightarrow> (\<exists>w\<in>set (t_rows (db_ifaces d)). \<exists>n\<in>set (t_rows (db_nodes d)).
     wi_sub w = Some i \<and> wi_node w = Some (vn_id n) \<and> b = \<lparr>ab_iface = wi_id w, ab_raw = trim_space (vn_raw n)\<rparr>)"
  by (auto simp: active_bindings_def)

text \<open>All bindings of one tunnel carry the same link, so the last one written is as good as any.\<close>

lemma remap_bound:
  assumes "w \<in> set (t_rows (db_ifaces d))" "wi_sub w = Some i" "first_by_uri ns k \<noteq> 0" "k = trim_space k"
    and "\<forall>b\<in>set bs. ab_iface b = wi_id w \<longrightarrow> ab_raw b = k"
    and "wi_node w = Some (first_by_uri ns k) \<or> (\<exists>b\<in>set bs. ab_iface b = wi_id w)"
  shows "\<exists>x\<in>set (t_rows (db_ifaces (remap_all i ns bs d))). wi_id x = wi_id w \<and> wi_node x = Some (first_by_uri ns k)"
  using assms
proof (induction bs arbitrary: d w)
  case Nil
  then show ?case by auto
next
  case (Cons b bs)
  let ?j = "first_by_uri ns (trim_space (ab_raw b))"
  let ?d = "if ?j = 0 then d else set_active i (ab_iface b) ?j d"
  show ?case
  proof (cases "ab_iface b = wi_id w")
    case True
    then have raw: "ab_raw b = k" using Cons.prems(5) by simp
    then have j: "?j = first_by_uri ns k" using Cons.prems(4) by metis
    let ?w = "w\<lparr>wi_node := Some (first_by_uri ns k), wi_updated := db_now d\<rparr>"
    have "?w \<in> set (t_rows (db_ifaces ?d))"
      using Cons.prems(1-3) True by (auto simp: j set_active_def t_update_def image_iff intro!: bexI [of _ w])
    with Cons.IH [of ?w ?d] Cons.prems show ?thesis by (simp add: Let_def j)
  next
    case False
    then have "w \<in> set (t_rows (db_ifaces ?d))"
      using Cons.prems(1) by (force simp: set_active_def t_update_def)
    with Cons.IH [of w ?d] Cons.prems False show ?thesis by (auto simp: Let_def)
  qed
qed

lemma refreshed_active:
  assumes ok: "schema_ok d" "schema_ok (refreshed i ns d)" "\<forall>n\<in>set ns. vn_sub n = i"
    and w: "w \<in> set (t_rows (db_ifaces d))" "wi_sub w = Some i" "wi_node w = Some (vn_id n)" "n \<in> set (t_rows (db_nodes d))"
    and u: "trim_space (vn_raw n) \<noteq> []" "trim_space (vn_raw n) \<in> (\<lambda>n. trim_space (vn_raw n)) ` set ns"
  shows "\<exists>x m. x \<in> set (t_rows (db_ifaces (refreshed i ns d))) \<and> wi_id x = wi_id w
     \<and> m \<in> set (t_rows (db_nodes (refreshed i ns d))) \<and> wi_node x = Some (vn_id m)
     \<and> vn_sub m = i \<and> trim_space (vn_raw m) = trim_space (vn_raw n)"
proof -
  let ?new = "number_from (t_seq (db_nodes d)) ns" and ?k = "trim_space (vn_raw n)"
  have tab: "table_ok vn_id (db_nodes d)" "table_ok wi_id (db_ifaces d)" "table_ok vn_id (db_nodes (refreshed i ns d))"
    using ok by (simp_all add: schema_ok_def)
  have j: "first_by_uri ?new ?k \<noteq> 0" using u by (simp add: first_by_uri_new [OF tab(1)])
  let ?w = "if active_of_sub d i w then w\<lparr>wi_node := None\<rparr> else w"
  have "?w \<in> set (t_rows (db_ifaces (add_nodes ns (wipe_nodes i d))))"
    using w(1) by (auto simp: wipe_nodes_sel t_update_def)
  moreover have "\<forall>b\<in>set (active_bindings i d). ab_iface b = wi_id ?w \<longrightarrow> ab_raw b = ?k"
    using w table_ok_inj [OF tab(2)] table_ok_inj [OF tab(1)] by (fastforce simp: active_bindings_iff)
  moreover have "\<exists>b\<in>set (active_bindings i d). ab_iface b = wi_id ?w"
    using w by (intro bexI [of _ "\<lparr>ab_iface = wi_id w, ab_raw = ?k\<rparr>"]) (auto simp: active_bindings_iff)
  ultimately obtain x where x: "x \<in> set (t_rows (db_ifaces (refreshed i ns d)))" "wi_id x = wi_id w"
      "wi_node x = Some (first_by_uri ?new ?k)"
    using remap_bound [of ?w "add_nodes ns (wipe_nodes i d)" i ?new ?k "active_bindings i d"] w(2) j
    by (auto simp: refreshed_def Let_def split: if_splits)
  obtain m where "node_at (refreshed i ns d) (first_by_uri ?new ?k) = Some m" "vn_sub m = i" "trim_space (vn_raw m) = ?k"
    using refreshed_new_node [OF ok(2,3) j] by blast
  then have "m \<in> set (t_rows (db_nodes (refreshed i ns d)))" "vn_id m = first_by_uri ?new ?k"
      "vn_sub m = i" "trim_space (vn_raw m) = ?k"
    by (simp_all add: node_at_iff [OF tab(3)])
  with x show ?thesis by (intro exI [of _ x] exI [of _ m]) simp
qed

section \<open>The run of FetchAndUpdate\<close>

lemma t_find_update:
  assumes "\<And>r. k (f r) = k r"
  shows "t_find (\<lambda>r. k r = i) (t_update (\<lambda>r. k r = i) f t) = map_option f (t_find (\<lambda>r. k r = i) t)"
proof -
  have "find (\<lambda>r. k r = i) (map (\<lambda>r. if k r = i then f r else r) xs) = map_option f (find (\<lambda>r. k r = i) xs)" for xs
    using assms by (induction xs) auto
  then show ?thesis by (simp add: t_find_def t_update_def)
qed

definition set_sub :: "subscription \<Rightarrow> 'a database_scheme \<Rightarrow> 'a database_scheme" where
  "set_sub s d = d\<lparr>db_subs := t_update (\<lambda>r. sub_id r = sub_id s)
     (\<lambda>r. r\<lparr>sub_name := sub_name s, sub_url := sub_url s, sub_refresh := sub_refresh s,
            sub_fetched := sub_fetched s, sub_node_count := sub_node_count s,
            sub_status := sub_status s, sub_error := sub_error s, sub_updated := db_now d\<rparr>) (db_subs d)\<rparr>"

lemma set_sub_sel [simp]:
  "db_nodes (set_sub s d) = db_nodes d" "db_ifaces (set_sub s d) = db_ifaces d" "db_tnodes (set_sub s d) = db_tnodes d"
  "db_peers (set_sub s d) = db_peers d" "db_now (set_sub s d) = db_now d" "no_fault (set_sub s d) = no_fault d"
  "set_sub s (ticks k d) = ticks k (set_sub s d)" "has_id sub_id (db_subs (set_sub s d)) j = has_id sub_id (db_subs d) j"
  by (simp_all add: set_sub_def no_fault_def ticks_def)

lemma set_sub_schema: "schema_ok d \<Longrightarrow> schema_ok (set_sub s d)"
proof -
  assume a: "schema_ok d"
  have "ids_ok (set_sub s d)" using a by (simp add: set_sub_def schema_ok_def ids_ok_upd table_ok_update)
  moreover have "ref_ok sub_id (db_subs (set_sub s d)) v = ref_ok sub_id (db_subs d) v" for v
    by (cases v) simp_all
  then have "iface_refs_ok (set_sub s d)" using a
    by (simp add: schema_ok_def iface_refs_ok_def)
  ultimately show ?thesis using a by (simp add: schema_ok_def peer_refs_ok_def tnode_refs_ok_def unique_ok_def)
qed

lemma sub_Update_run:
  assumes "schema_ok d" "no_fault d" "has_id sub_id (db_subs d) (sub_id s)"
  shows "sub_Update s d = (Inr (), ticks 1 (set_sub s d))"
proof -
  have "t_count (\<lambda>r. sub_id r = sub_id s) (db_subs d) \<noteq> 0" using assms(3) by (simp add: t_count_id)
  moreover have "exec (\<lambda>d. (t_count (\<lambda>r. sub_id r = sub_id s) (db_subs d), set_sub s d)) d
      = (Inr (t_count (\<lambda>r. sub_id r = sub_id s) (db_subs d)), ticks 1 (set_sub s d))"
    using exec_step [of d "set_sub s" "\<lambda>d. t_count (\<lambda>r. sub_id r = sub_id s) (db_subs d)"] assms set_sub_schema [OF assms(1)]
    by (simp del: no_fault_exec)
  ultimately show ?thesis
    by (simp add: sub_Update_def affected_def set_sub_def bnd_def ret_def)
qed

lemma sub_GetByID_run:
  "no_fault d \<Longrightarrow> t_find (\<lambda>r. sub_id r = i) (db_subs d) = Some s \<Longrightarrow> sub_GetByID i d = (Inr s, ticks 1 d)"
  by (simp add: sub_GetByID_def bnd_def query_step ret_def del: no_fault_query)

lemma find_sub:
  assumes "t_find (\<lambda>r. sub_id r = i) (db_subs d) = Some s"
  shows "sub_id s = i" "has_id sub_id (db_subs d) i"
  using assms by (auto simp: t_find_def has_id_def dest!: find_Some_set)

definition done_sub :: "subscription \<Rightarrow> int \<Rightarrow> vless_node list \<Rightarrow> subscription" where
  "done_sub sub now ns = sub\<lparr>sub_fetched := Some now, sub_node_count := int (length ns), sub_status := SubActive, sub_error := []\<rparr>"

lemma remap_subs [simp]: "db_subs (refreshed i ns d) = db_subs d" "db_now (refreshed i ns d) = db_now d"
  "no_fault (refreshed i ns d) = no_fault d"
  by (simp_all add: refreshed_def Let_def wipe_nodes_sel)

lemma refreshed_ticks [simp]: "refreshed i ns (ticks k d) = ticks k (refreshed i ns d)"
  by (simp add: refreshed_def Let_def)

lemma parse_lines_sub: "n \<in> set (parse_lines i lines) \<Longrightarrow> vn_sub n = i"
  by (induction lines) (auto simp: parse_lines_def map_filter_simps split: sum.splits)

definition ready :: "(string \<Rightarrow> fetch_result) \<Rightarrow> int \<Rightarrow> vless_node list \<Rightarrow> 'a database_scheme \<Rightarrow> bool" where
  "ready http i ns d \<longleftrightarrow> (\<exists>sub body lines. t_find (\<lambda>r. sub_id r = i) (db_subs d) = Some sub
     \<and> sub_name sub \<noteq> ManualSubscriptionName \<and> trim_space (sub_url sub) \<noteq> [] \<and> http (sub_url sub) = Body body
     \<and> decodeSubscriptionBody (take 10485760 body) = Inr lines \<and> ns = parse_lines i lines)"

lemma FetchAndUpdate_run:
  fixes w :: "'a log_world_scheme"
  assumes "schema_ok w" "no_fault w" "ready http i ns w"
    and run: "\<And>k. \<exists>k'. replace_nodes i ns (ticks k w) = (Inr (), ticks k' r)" and r: "schema_ok r" "no_fault r"
      "db_subs r = db_subs w"
  shows "\<exists>k sub. t_find (\<lambda>r. sub_id r = i) (db_subs w) = Some sub
     \<and> FetchAndUpdate http i w = (Inr (), ticks k (set_sub (done_sub sub (db_now r) ns) r))"
proof -
  obtain sub body lines where a: "t_find (\<lambda>r. sub_id r = i) (db_subs w) = Some sub"
     "sub_name sub \<noteq> ManualSubscriptionName" "trim_space (sub_url sub) \<noteq> []" "http (sub_url sub) = Body body"
     "decodeSubscriptionBody (take 10485760 body) = Inr lines" "ns = parse_lines i lines"
    using assms(3) by (auto simp: ready_def)
  obtain k' where 2: "replace_nodes i ns (ticks 1 w) = (Inr (), ticks k' r)" using run by blast
  let ?s = "done_sub sub (db_now r) ns"
  have "sub_Update ?s (ticks k' r) = (Inr (), ticks (k' + 1) (set_sub ?s r))"
    using sub_Update_run [of "ticks k' r" ?s] r find_sub [OF a(1)] by (simp add: done_sub_def)
  then have "FetchAndUpdate http i w = (Inr (), ticks (k' + 1) (set_sub ?s r))"
    using a 2 sub_GetByID_run [OF assms(2) a(1)]
    by (simp add: FetchAndUpdate_def bnd_def gets_def Let_def done_sub_def del: One_nat_def)
  with a(1) show ?thesis by blast
qed

section \<open>Properties\<close>

text \<open>C9: a refresh that brings nodes keeps the tunnels: the junction rows afterwards are exactly those before
  that used a node of another subscription or a node whose link (trimmed) is among the new ones, at the
  same tunnel and position, now bound to a new node with that link; each tunnel of the subscription whose
  active node's link is among the new ones has an active node with that link again. The nodes of the
  subscription are the parsed ones, in order; those of the others are untouched; nothing fails on a
  foreign key.\<close>

theorem refresh_keeps_bindings:
  fixes w :: "'a log_world_scheme"
  assumes "schema_ok w" "no_fault w" "ready http i ns w" "ns \<noteq> []"
  shows "\<exists>t. FetchAndUpdate http i w = (Inr (), t) \<and> schema_ok t
     \<and> map vn_raw (filter (\<lambda>n. vn_sub n = i) (t_rows (db_nodes t))) = map vn_raw ns
     \<and> filter (\<lambda>n. vn_sub n \<noteq> i) (t_rows (db_nodes t)) = filter (\<lambda>n. vn_sub n \<noteq> i) (t_rows (db_nodes w))
     \<and> mset (map (bind_of t) (t_rows (db_tnodes t))) = mset (filter (keeps i ns) (map (bind_of w) (t_rows (db_tnodes w))))
     \<and> (\<forall>x\<in>set (t_rows (db_ifaces w)). \<forall>n\<in>set (t_rows (db_nodes w)).
          wi_sub x = Some i \<longrightarrow> wi_node x = Some (vn_id n) \<longrightarrow> trim_space (vn_raw n) \<noteq> []
          \<longrightarrow> trim_space (vn_raw n) \<in> (\<lambda>n. trim_space (vn_raw n)) ` set ns
          \<longrightarrow> (\<exists>y m. y \<in> set (t_rows (db_ifaces t)) \<and> wi_id y = wi_id x
                \<and> m \<in> set (t_rows (db_nodes t)) \<and> wi_node y = Some (vn_id m)
                \<and> vn_sub m = i \<and> trim_space (vn_raw m) = trim_space (vn_raw n)))"
proof -
  let ?r = "refreshed i ns w"
  have subs: "\<forall>n\<in>set ns. vn_sub n = i"
    using assms(3) parse_lines_sub by (auto simp: ready_def)
  have ok: "schema_ok ?r" using replace_nodes_run [OF assms(1,2,4)] by blast
  have "\<exists>k'. replace_nodes i ns (ticks k w) = (Inr (), ticks k' ?r)" for k
    using replace_nodes_run [of "ticks k w" ns i] assms by auto
  from FetchAndUpdate_run [OF assms(1-3) this ok] assms(2)
  obtain k s where k: "FetchAndUpdate http i w = (Inr (), ticks k (set_sub s ?r))" by auto
  have b: "bind_of (ticks k (set_sub s ?r)) = bind_of ?r" by (simp add: fun_eq_iff bind_of_def node_at_def)
  have new: "\<forall>n\<in>set (number_from (t_seq (db_nodes w)) ns). vn_sub n = i"
    using number_from_sets(1) [of "t_seq (db_nodes w)" ns] subs by force
  have f: "filter (\<lambda>n. vn_sub n = i) xs = []" if "\<forall>n\<in>set xs. vn_sub n \<noteq> i" for xs
    using that by (simp add: filter_empty_conv)
  show ?thesis
  proof (rule exI [of _ "ticks k (set_sub s ?r)"], intro conjI ballI impI)
    show "FetchAndUpdate http i w = (Inr (), ticks k (set_sub s ?r))" by (rule k)
    show "schema_ok (ticks k (set_sub s ?r))" using ok by (simp add: set_sub_schema)
    show "map vn_raw (filter (\<lambda>n. vn_sub n = i) (t_rows (db_nodes (ticks k (set_sub s ?r))))) = map vn_raw ns"
      using new by (simp add: refreshed_nodes filter_map o_def f filter_all_True [of _ "\<lambda>n. vn_sub n = i"])
    show "filter (\<lambda>n. vn_sub n \<noteq> i) (t_rows (db_nodes (ticks k (set_sub s ?r)))) = filter (\<lambda>n. vn_sub n \<noteq> i) (t_rows (db_nodes w))"
      using new by (simp add: refreshed_nodes filter_map o_def filter_empty_conv)
    show "mset (map (bind_of (ticks k (set_sub s ?r))) (t_rows (db_tnodes (ticks k (set_sub s ?r)))))
        = mset (filter (keeps i ns) (map (bind_of w) (t_rows (db_tnodes w))))"
      using refreshed_bindings [OF assms(1) ok subs] by (simp only: b ticks_sel set_sub_sel)
  next
    fix x n assume h: "x \<in> set (t_rows (db_ifaces w))" "n \<in> set (t_rows (db_nodes w))" "wi_sub x = Some i"
      "wi_node x = Some (vn_id n)" "trim_space (vn_raw n) \<noteq> []" "trim_space (vn_raw n) \<in> (\<lambda>n. trim_space (vn_raw n)) ` set ns"
    show "\<exists>y m. y \<in> set (t_rows (db_ifaces (ticks k (set_sub s ?r)))) \<and> wi_id y = wi_id x
        \<and> m \<in> set (t_rows (db_nodes (ticks k (set_sub s ?r)))) \<and> wi_node y = Some (vn_id m)
        \<and> vn_sub m = i \<and> trim_space (vn_raw m) = trim_space (vn_raw n)"
      using refreshed_active [OF assms(1) ok subs h(1,3,4,2,5,6)] by simp
  qed
qed

definition refresh_world :: log_world where
  "refresh_world = log_of (sample_db\<lparr>db_nodes := \<lparr>t_rows = [sample_node 1 1 ''vless://u@h'', sample_node 2 2 ''vless://b''], t_seq = 2\<rparr>\<rparr>)"

lemma refresh_world_ok: "schema_ok refresh_world" "no_fault refresh_world"
  by (simp_all add: refresh_world_def log_of_def database.defs log_world.defs sample_defs schema_defs no_fault_def
      table_ok_def has_id_def del: ids_ok_parts)

lemma refresh_world_sub: "t_find (\<lambda>r. sub_id r = 1) (db_subs refresh_world) = Some (sample_sub 1)"
  by (simp add: refresh_world_def log_of_def database.defs log_world.defs sample_defs t_find_def)

lemma ready_sample:
  assumes "decodeSubscriptionBody body = Inr lines" "length body \<le> 10485760"
  shows "ready (\<lambda>_. Body body) 1 (parse_lines 1 lines) refresh_world"
  unfolding ready_def
proof (intro exI conjI)
  show "t_find (\<lambda>r. sub_id r = 1) (db_subs refresh_world) = Some (sample_sub 1)" by (rule refresh_world_sub)
  show "sub_name (sample_sub 1) \<noteq> ManualSubscriptionName" "trim_space (sub_url (sample_sub 1)) \<noteq> []" by code_simp+
  show "decodeSubscriptionBody (take 10485760 body) = Inr lines" using assms by simp
qed simp_all

theorem refresh_keeps_bindings_witness:
  "(\<exists>t. FetchAndUpdate (\<lambda>_. Body ''vless://u@h?type=ws'') 1 refresh_world = (Inr (), t)
     \<and> mset (map (bind_of t) (t_rows (db_tnodes t))) = {#(1, 1, Some (2, ''vless://b''))#})
   \<and> (\<exists>t. FetchAndUpdate (\<lambda>_. Body ''vless://u@h'') 1 refresh_world = (Inr (), t)
     \<and> mset (map (bind_of t) (t_rows (db_tnodes t))) = {#(1, 0, Some (1, ''vless://u@h'')), (1, 1, Some (2, ''vless://b''))#})"
proof -
  have a: "decodeSubscriptionBody ''vless://u@h?type=ws'' = Inr [''vless://u@h?type=ws'']"
    "decodeSubscriptionBody ''vless://u@h'' = Inr [''vless://u@h'']" by code_simp+
  let ?a = "parse_lines 1 [''vless://u@h?type=ws'']" and ?b = "parse_lines 1 [''vless://u@h'']"
  have ne: "?a \<noteq> []" "?b \<noteq> []" by code_simp+
  have k: "filter (keeps 1 ?a) (map (bind_of refresh_world) (t_rows (db_tnodes refresh_world))) = [(1, 1, Some (2, ''vless://b''))]"
    "filter (keeps 1 ?b) (map (bind_of refresh_world) (t_rows (db_tnodes refresh_world)))
      = [(1, 0, Some (1, ''vless://u@h'')), (1, 1, Some (2, ''vless://b''))]" by code_simp+
  show ?thesis
    using refresh_keeps_bindings [OF refresh_world_ok ready_sample [OF a(1)] ne(1)] k(1)
      refresh_keeps_bindings [OF refresh_world_ok ready_sample [OF a(2)] ne(2)] k(2)
    by (intro conjI) (simp, blast)+
qed

text \<open>C16: a body whose vless lines all fail to parse passes for a good one: the refresh wipes every node of the
  subscription, every junction row and active node that used one, and reports success, with status active
  and no error.\<close>

theorem refresh_without_nodes:
  fixes w :: "'a log_world_scheme"
  assumes "schema_ok w" "no_fault w" "ready http i [] w"
  shows "\<exists>t s. FetchAndUpdate http i w = (Inr (), t) \<and> schema_ok t
     \<and> t_rows (db_nodes t) = filter (\<lambda>n. vn_sub n \<noteq> i) (t_rows (db_nodes w))
     \<and> t_rows (db_tnodes t) = filter (\<lambda>r. \<not> node_of_sub w i (tn_node r)) (t_rows (db_tnodes w))
     \<and> t_rows (db_ifaces t) = map (\<lambda>x. if active_of_sub w i x then x\<lparr>wi_node := None\<rparr> else x) (t_rows (db_ifaces w))
     \<and> t_find (\<lambda>r. sub_id r = i) (db_subs t) = Some s \<and> sub_status s = SubActive \<and> sub_node_count s = 0 \<and> sub_error s = []"
proof -
  let ?r = "wipe_nodes i w"
  have ok: "schema_ok ?r" by (rule wipe_steps_schema(3) [OF assms(1)])
  have "replace_nodes i [] (ticks k w) = (Inr (), ticks (k + 6) ?r)" for k
  proof -
    have 1: "SnapshotActiveNodesForSubscription i (ticks k w) = (Inr (active_bindings i w), ticks (k + 1) w)"
      using assms(2) by (simp add: SnapshotActiveNodesForSubscription_def query_step del: no_fault_query)
    have 2: "SnapshotTunnelNodesForSubscription i (ticks (k + 1) w) = (Inr (tunnel_bindings i w), ticks (k + 2) w)"
      using assms(2) by (simp add: SnapshotTunnelNodesForSubscription_def query_step del: no_fault_query)
    have 3: "DeleteNodes i (ticks (k + 2) w) = (Inr (), ticks (k + 6) ?r)"
      using DeleteNodes_ticks [of "ticks (k + 2) w" i] assms by (simp add: add.commute)
    show ?thesis by (simp add: replace_nodes_def bnd_def 1 2 3 ret_def del: One_nat_def add_2_eq_Suc')
  qed
  then have "\<exists>k'. replace_nodes i [] (ticks k w) = (Inr (), ticks k' ?r)" for k by blast
  from FetchAndUpdate_run [OF assms(1-3) this ok] assms(2)
  obtain k sub where sub: "t_find (\<lambda>r. sub_id r = i) (db_subs w) = Some sub"
    and run: "FetchAndUpdate http i w = (Inr (), ticks k (set_sub (done_sub sub (db_now ?r) []) ?r))"
    by (auto simp: wipe_nodes_sel)
  let ?s = "done_sub sub (db_now ?r) []"
  let ?f = "\<lambda>r. r\<lparr>sub_name := sub_name ?s, sub_url := sub_url ?s, sub_refresh := sub_refresh ?s,
            sub_fetched := sub_fetched ?s, sub_node_count := sub_node_count ?s,
            sub_status := sub_status ?s, sub_error := sub_error ?s, sub_updated := db_now ?r\<rparr>"
  have i: "sub_id ?s = i" using find_sub [OF sub] by (simp add: done_sub_def)
  have "t_find (\<lambda>r. sub_id r = i) (t_update (\<lambda>r. sub_id r = i) ?f (db_subs w)) = Some (?f sub)"
    using t_find_update [of sub_id ?f i "db_subs w"] sub by simp
  then have "t_find (\<lambda>r. sub_id r = i) (db_subs (set_sub ?s ?r)) = Some (?f sub)"
    by (simp add: set_sub_def i wipe_nodes_sel(1))
  then show ?thesis
    by (intro exI [of _ "ticks k (set_sub ?s ?r)"] exI [of _ "?f sub"])
       (simp add: run ok set_sub_schema wipe_nodes_sel, simp add: t_delete_def t_update_def done_sub_def)
qed

theorem refresh_without_nodes_witness:
  "\<exists>t. FetchAndUpdate (\<lambda>_. Body ''vless://no-user'') 1 refresh_world = (Inr (), t) \<and> map vn_id (t_rows (db_nodes t)) = [2]"
proof -
  have a: "decodeSubscriptionBody ''vless://no-user'' = Inr [''vless://no-user'']" by code_simp
  have e: "parse_lines 1 [''vless://no-user''] = []" by code_simp
  from refresh_without_nodes [OF refresh_world_ok] ready_sample [OF a] e
  obtain t where t: "FetchAndUpdate (\<lambda>_. Body ''vless://no-user'') 1 refresh_world = (Inr (), t)"
    "t_rows (db_nodes t) = filter (\<lambda>n. vn_sub n \<noteq> 1) (t_rows (db_nodes refresh_world))" by fastforce
  moreover have "map vn_id (filter (\<lambda>n. vn_sub n \<noteq> 1) (t_rows (db_nodes refresh_world))) = [2]" by code_simp
  ultimately show ?thesis by auto
qed

end
