(* ===== verification/ManualNodes.thy ===== *)
theory ManualNodes
  imports Refresh Triples
begin

text \<open>
  The nodes entered by hand: no link twice, whatever is added, edited or deleted in whatever order and
  whichever statements fail; and what each operation does on each of its branches.
\<close>

section \<open>The invariant\<close>

definition manual_first :: "int \<Rightarrow> 'a database_scheme \<Rightarrow> bool" where
  "manual_first m d \<longleftrightarrow> (\<exists>s. find (\<lambda>x. sub_name x = ManualSubscriptionName) (t_rows (db_subs d)) = Some s \<and> sub_id s = m)"

definition nodes_of :: "int \<Rightarrow> 'a database_scheme \<Rightarrow> vless_node list" where
  "nodes_of m d = t_select (\<lambda>n. vn_sub n = m) (db_nodes d)"

definition link :: "vless_node \<Rightarrow> string" where
  "link n = trim_space (vn_raw n)"

definition manual_ok :: "int \<Rightarrow> 'a database_scheme \<Rightarrow> bool" where
  "manual_ok m d \<longleftrightarrow> manual_first m d \<and> table_ok vn_id (db_nodes d) \<and> table_ok sub_id (db_subs d)
     \<and> distinct (map link (nodes_of m d))"

lemma manual_ok_clock [simp]: "manual_ok m (d\<lparr>db_clock := n\<rparr>) = manual_ok m d"
  by (simp add: manual_ok_def manual_first_def nodes_of_def)

lemma manual_ok_tick [simp]: "manual_ok m (tick d) = manual_ok m d"
  by (simp add: tick_def)

lemma nodes_of_tick [simp]: "nodes_of m (tick d) = nodes_of m d" "nodes_of m (d\<lparr>db_clock := n\<rparr>) = nodes_of m d"
  by (simp_all add: nodes_of_def tick_def)

lemma manual_ok_subs:
  assumes "\<And>r. sub_id (f r) = sub_id r" "\<And>r. r \<in> set (t_rows (db_subs d)) \<Longrightarrow> P r \<Longrightarrow> sub_name (f r) = sub_name r"
  shows "manual_ok m d \<Longrightarrow> manual_ok m (d\<lparr>db_subs := t_update P f (db_subs d)\<rparr>)"
proof -
  have "find (\<lambda>x. sub_name x = k) (map (\<lambda>r. if P r then f r else r) xs)
      = map_option (\<lambda>r. if P r then f r else r) (find (\<lambda>x. sub_name x = k) xs)" if "set xs \<subseteq> set (t_rows (db_subs d))" for k xs
    using that assms(2) by (induction xs) auto
  then show "manual_ok m d \<Longrightarrow> manual_ok m (d\<lparr>db_subs := t_update P f (db_subs d)\<rparr>)"
    using assms(1) by (auto simp: manual_ok_def manual_first_def nodes_of_def table_ok_update) (auto simp: t_update_def)
qed

section \<open>Triples of the steps\<close>

lemma valid_EnsureManual: "valid (manual_ok m) EnsureManual (\<lambda>x d. x = m \<and> manual_ok m d) (manual_ok m)"
  unfolding EnsureManual_def sub_List_def
proof (rule valid_bnd [where R = "\<lambda>l d. manual_ok m d \<and> l = t_rows (db_subs d)"], rule valid_query)
  fix d :: "'a database_scheme" assume d: "manual_ok m d"
  then have "table_ok sub_id (db_subs d)" by (simp add: manual_ok_def)
  from table_ok_sort [OF this, of "\<lambda>_. True"]
  show "manual_ok m (tick d) \<and> sort_key sub_id (t_select (\<lambda>_. True) (db_subs (tick d))) = t_rows (db_subs (tick d))"
    using d by (simp add: t_select_def)
  from d show "manual_ok m (tick d)" by simp
next
  fix l
  show "valid (\<lambda>d. manual_ok m d \<and> l = t_rows (db_subs d))
     (case find (\<lambda>x. sub_name x = ManualSubscriptionName) l of
        None \<Rightarrow> bnd (sub_Create (new_subscription ManualSubscriptionName [] 86400)) (\<lambda>s. ret (sub_id s))
      | Some x \<Rightarrow> ret (sub_id x)) (\<lambda>x d. x = m \<and> manual_ok m d) (manual_ok m)"
    by (rule validI) (auto simp: manual_ok_def manual_first_def ret_def)
qed

lemma valid_ListNodes: "valid (manual_ok m) (ListNodes m) (\<lambda>xs d. manual_ok m d \<and> xs = nodes_of m d) (manual_ok m)"
  unfolding ListNodes_def
proof (rule valid_query)
  fix d :: "'a database_scheme" assume d: "manual_ok m d"
  show "manual_ok m (tick d) \<and> sort_key vn_id (t_select (\<lambda>n. vn_sub n = m) (db_nodes (tick d))) = nodes_of m (tick d)"
  proof -
    have "table_ok vn_id (db_nodes d)" using d by (simp add: manual_ok_def)
    from table_ok_sort [OF this] show ?thesis using d by (simp add: nodes_of_def)
  qed
qed simp

lemma valid_GetNode: "valid (manual_ok m) (GetNode j) (\<lambda>n d. manual_ok m d \<and> n \<in> set (t_rows (db_nodes d)) \<and> vn_id n = j) (manual_ok m)"
  unfolding GetNode_def
proof (rule valid_bnd [where R = "\<lambda>r d. manual_ok m d \<and> r = t_find (\<lambda>n. vn_id n = j) (db_nodes d)"])
  show "valid (manual_ok m) (query (\<lambda>d. t_find (\<lambda>n. vn_id n = j) (db_nodes d)))
    (\<lambda>r d. manual_ok m d \<and> r = t_find (\<lambda>n. vn_id n = j) (db_nodes d)) (manual_ok m)"
    by (rule valid_query) simp_all
  fix r
  show "valid (\<lambda>d. manual_ok m d \<and> r = t_find (\<lambda>n. vn_id n = j) (db_nodes d))
     (case r of None \<Rightarrow> fail ErrNotFound | Some n \<Rightarrow> ret n)
     (\<lambda>n d. manual_ok m d \<and> n \<in> set (t_rows (db_nodes d)) \<and> vn_id n = j) (manual_ok m)"
    by (rule valid_case_option; rule valid_ret valid_fail; auto simp: t_find_def dest: find_Some_set)
qed

lemma valid_affected:
  assumes "valid P m (\<lambda>_. Q) E" "\<And>s. Q s \<Longrightarrow> E s"
  shows "valid P (affected m) (\<lambda>_. Q) E"
  unfolding affected_def by (rule valid_bnd [OF assms(1)], rule valid_if; rule valid_ret valid_fail; simp add: assms(2))

lemma valid_sub_Update:
  "valid (\<lambda>d. manual_ok m d \<and> (\<forall>r\<in>set (t_rows (db_subs d)). sub_id r = sub_id s \<longrightarrow> sub_name r = sub_name s))
     (sub_Update s) (\<lambda>_. manual_ok m) (manual_ok m)"
  unfolding sub_Update_def
proof (rule valid_affected, rule valid_exec)
  fix d :: "'a database_scheme" assume d: "manual_ok m d \<and> (\<forall>r\<in>set (t_rows (db_subs d)). sub_id r = sub_id s \<longrightarrow> sub_name r = sub_name s)"
  then show "manual_ok m (snd (t_count (\<lambda>r. sub_id r = sub_id s) (db_subs (tick d)), (tick d)\<lparr>db_subs :=
       t_update (\<lambda>r. sub_id r = sub_id s)
          (\<lambda>r. r\<lparr>sub_name := sub_name s, sub_url := sub_url s, sub_refresh := sub_refresh s,
                 sub_fetched := sub_fetched s, sub_node_count := sub_node_count s,
                 sub_status := sub_status s, sub_error := sub_error s, sub_updated := db_now (tick d)\<rparr>)
          (db_subs (tick d))\<rparr>))"
    unfolding snd_conv by (intro manual_ok_subs) auto
qed simp_all

lemma valid_get_manual:
  "valid (manual_ok m) (sub_GetByID m)
     (\<lambda>s d. manual_ok m d \<and> (\<forall>r\<in>set (t_rows (db_subs d)). sub_id r = sub_id s \<longrightarrow> sub_name r = sub_name s)) (manual_ok m)"
  unfolding sub_GetByID_def
proof (rule valid_bnd [where R = "\<lambda>r d. manual_ok m d \<and> r = t_find (\<lambda>r. sub_id r = m) (db_subs d)"], rule valid_query)
  fix v
  show "valid (\<lambda>d :: 'a database_scheme. manual_ok m d \<and> v = t_find (\<lambda>r. sub_id r = m) (db_subs d))
     (case v of None \<Rightarrow> fail ErrNotFound | Some s \<Rightarrow> ret s)
     (\<lambda>s d. manual_ok m d \<and> (\<forall>r\<in>set (t_rows (db_subs d)). sub_id r = sub_id s \<longrightarrow> sub_name r = sub_name s)) (manual_ok m)"
  proof (rule valid_case_option; rule valid_ret valid_fail)
    fix s and d :: "'a database_scheme"
    assume v: "v = Some s" and d: "manual_ok m d \<and> v = t_find (\<lambda>r. sub_id r = m) (db_subs d)"
    then have "s \<in> set (t_rows (db_subs d))" "table_ok sub_id (db_subs d)"
      by (auto simp: t_find_def manual_ok_def dest: find_Some_set)
    then show "manual_ok m d \<and> (\<forall>r\<in>set (t_rows (db_subs d)). sub_id r = sub_id s \<longrightarrow> sub_name r = sub_name s)"
      using d table_ok_inj by metis
  qed simp
qed simp_all

lemma valid_sync: "valid (manual_ok m) (syncManualSubscriptionMeta m) (\<lambda>_. manual_ok m) (manual_ok m)"
  unfolding syncManualSubscriptionMeta_def
  by (rule valid_bnd [OF valid_ListNodes], rule valid_bnd, rule valid_weaken [OF valid_get_manual], simp, assumption, simp,
      rule valid_weaken [OF valid_sub_Update]) auto

lemma valid_insert_one:
  "valid (\<lambda>d. manual_ok m d \<and> link n \<notin> link ` set (nodes_of m d)) (insert_node n) (\<lambda>_. manual_ok m) (\<lambda>_. True)"
  unfolding insert_node_def
proof (rule valid_exec)
  fix d :: "'a database_scheme" assume d: "manual_ok m d \<and> link n \<notin> link ` set (nodes_of m d)"
  let ?d = "(tick d)\<lparr>db_nodes := t_insert (node_row n (db_now (tick d))) (db_nodes (tick d))\<rparr>"
  have "nodes_of m ?d = nodes_of m d @ (if vn_sub n = m then [node_row n (db_now d) (t_seq (db_nodes d) + 1)] else [])"
    by (simp add: nodes_of_def t_insert_def t_select_def)
  with d show "manual_ok m (snd (n\<lparr>vn_id := t_seq (db_nodes (tick d)) + 1\<rparr>, ?d))"
    by (auto simp: manual_ok_def manual_first_def table_ok_insert link_def)
qed simp

lemma valid_insert_node:
  "valid (\<lambda>d. manual_ok m d \<and> link n \<notin> link ` set (nodes_of m d)) (InsertNodes [n]) (\<lambda>_. manual_ok m) (manual_ok m)"
  unfolding InsertNodes_def map_each.simps
  by (rule valid_tx [where E' = "\<lambda>_. True"], rule valid_bnd [OF valid_insert_one]) (auto intro!: valid_bnd valid_ret)

lemma valid_update_node:
  "valid (\<lambda>d. manual_ok m d \<and> link n \<notin> link ` set (filter (\<lambda>e. vn_id e \<noteq> vn_id n) (nodes_of m d)))
     (UpdateNode n) (\<lambda>_. manual_ok m) (manual_ok m)"
  unfolding UpdateNode_def
proof (rule valid_affected, rule valid_exec)
  fix d :: "'a database_scheme"
  assume d: "manual_ok m d \<and> link n \<notin> link ` set (filter (\<lambda>e. vn_id e \<noteq> vn_id n) (nodes_of m d))"
  let ?f = "\<lambda>r. n\<lparr>vn_id := vn_id r, vn_created := vn_created r, vn_transport := jsonOrEmpty (vn_transport n),
                 vn_sec_config := jsonOrEmpty (vn_sec_config n)\<rparr>"
  let ?t = "t_update (\<lambda>r. vn_id r = vn_id n) ?f (db_nodes d)"
  have tab: "table_ok vn_id (db_nodes d)" using d by (simp add: manual_ok_def)
  have one: "distinct (map link (filter (\<lambda>n. vn_sub n = m) (map (\<lambda>r. if vn_id r = vn_id n then ?f r else r) xs)))"
    if "distinct (map link (filter (\<lambda>n. vn_sub n = m) xs))" "distinct (map vn_id xs)"
      "link n \<notin> link ` set (filter (\<lambda>e. vn_id e \<noteq> vn_id n) (filter (\<lambda>n. vn_sub n = m) xs))" for xs
    using that
  proof (induction xs)
    case (Cons x xs)
    have lf: "link (?f r) = link n" for r by (simp add: link_def)
    have other: "\<forall>r\<in>set xs. vn_id r \<noteq> vn_id n" if "vn_id x = vn_id n"
      using Cons.prems(2) that by (metis distinct.simps(2) image_eqI list.simps(9) set_map)
    have same: "map (\<lambda>r. if vn_id r = vn_id n then ?f r else r) xs = xs" if "vn_id x = vn_id n"
      using other [OF that] by (intro map_idI) simp
    show ?case
    proof (cases "vn_id x = vn_id n")
      case True
      have "map (\<lambda>r. if vn_id r = vn_id n then ?f r else r) (x # xs) = ?f x # xs"
        using same [OF True] True by simp
      then show ?thesis using Cons.prems other [OF True] by (auto simp: lf split: if_splits)
    next
      case False
      let ?xs = "map (\<lambda>r. if vn_id r = vn_id n then ?f r else r) xs"
      have ih: "distinct (map link (filter (\<lambda>n. vn_sub n = m) ?xs))"
        using Cons.prems by (intro Cons.IH) (auto split: if_splits)
      have "link x \<notin> link ` set (filter (\<lambda>n. vn_sub n = m) ?xs)" if "vn_sub x = m"
      proof
        assume "link x \<in> link ` set (filter (\<lambda>n. vn_sub n = m) ?xs)"
        then obtain r where r: "r \<in> set xs" "link x = link (if vn_id r = vn_id n then ?f r else r)"
          "vn_sub (if vn_id r = vn_id n then ?f r else r) = m" by auto
        show False
        proof (cases "vn_id r = vn_id n")
          case True
          with r(2) have "link x = link n" by (simp add: link_def)
          with Cons.prems(3) False that show False by (auto simp: image_iff)
        next
          case False
          with r have "link x = link r" "r \<in> set (filter (\<lambda>n. vn_sub n = m) xs)" by simp_all
          with Cons.prems(1) that show False by (auto simp: image_iff)
        qed
      qed
      with ih False show ?thesis by simp
    qed
  qed simp
  show "manual_ok m (snd (t_count (\<lambda>r. vn_id r = vn_id n) (db_nodes (tick d)), (tick d)\<lparr>db_nodes :=
       t_update (\<lambda>r. vn_id r = vn_id n) ?f (db_nodes (tick d))\<rparr>))"
    using d one [of "t_rows (db_nodes d)"] table_ok_distinct [OF tab]
    by (simp add: manual_ok_def manual_first_def nodes_of_def t_select_def table_ok_update) (simp add: t_update_def)
qed simp_all

lemma nodes_of_delete:
  "nodes_of m (d\<lparr>db_nodes := t_delete P (db_nodes d)\<rparr>) = filter (\<lambda>n. \<not> P n) (nodes_of m d)"
  by (auto simp: nodes_of_def t_delete_def t_select_def intro: filter_cong)

lemma valid_delete_node: "valid (manual_ok m) (DeleteNode j) (\<lambda>_. manual_ok m) (manual_ok m)"
  unfolding DeleteNode_def
proof (rule valid_affected, rule valid_exec)
  fix d :: "'a database_scheme" assume "manual_ok m d"
  then have "manual_ok m (tick d)" by simp
  then show "manual_ok m (snd (t_count (\<lambda>r. vn_id r = j) (db_nodes (tick d)),
      (tick d)\<lparr>db_nodes := t_delete (\<lambda>r. vn_id r = j) (db_nodes (tick d))\<rparr>))"
    unfolding snd_conv manual_ok_def nodes_of_delete
    by (simp add: manual_first_def table_ok_delete distinct_map_filter)
qed simp_all

section \<open>Triples of the operations\<close>

lemma valid_insert_manual: "valid (manual_ok m) (insert_manual m n) (\<lambda>_. manual_ok m) (manual_ok m)"
  unfolding insert_manual_def Let_def
  by (rule valid_bnd [OF valid_ListNodes], rule valid_if, rule valid_fail, simp,
      rule valid_bnd [where R = "\<lambda>_. manual_ok m"], rule valid_weaken [OF valid_insert_node])
     (auto simp: link_def intro!: valid_bnd [OF valid_sync] valid_ret)

lemma valid_replace_manual: "valid (manual_ok m) (replace_manual m j n) (\<lambda>_. manual_ok m) (manual_ok m)"
  unfolding replace_manual_def Let_def
  by (rule valid_bnd [OF valid_ListNodes], rule valid_if, rule valid_fail, simp,
      rule valid_bnd [where R = "\<lambda>_. manual_ok m"], rule valid_weaken [OF valid_update_node])
     (auto simp: link_def intro!: valid_bnd [OF valid_sync] valid_weaken [OF valid_GetNode])

lemma valid_lift_any: "valid P (lift r) (\<lambda>_. P) P"
  by (rule valid_lift)

lemma valid_ensure: "(\<And>k. k = m \<Longrightarrow> valid (manual_ok m) (f k) Q (manual_ok m)) \<Longrightarrow> valid (manual_ok m) (bnd EnsureManual f) Q (manual_ok m)"
  by (rule valid_bnd [OF valid_EnsureManual], rule valid_pre [where b = "_ = m"]) (auto intro: valid_weaken)

lemma valid_own_node:
  "(\<And>n. valid (manual_ok m) (f n) Q (manual_ok m)) \<Longrightarrow> valid (manual_ok m) (bnd (GetNode j) f) Q (manual_ok m)"
  by (rule valid_bnd [OF valid_GetNode]) (auto intro: valid_weaken)

datatype manual_op =
    AddUri string
  | AddBuilt build_input
  | EditUri int string
  | EditBuilt int build_input
  | Remove int

fun manual_call :: "manual_op \<Rightarrow> ('a database_scheme, unit) call" where
  "manual_call (AddUri raw) = bnd (AddManualVlessNode raw) (\<lambda>_. ret ())"
| "manual_call (AddBuilt i) = bnd (AddManualNodeStructured i) (\<lambda>_. ret ())"
| "manual_call (EditUri j raw) = bnd (UpdateManualVlessNode j raw) (\<lambda>_. ret ())"
| "manual_call (EditBuilt j i) = bnd (UpdateManualNodeStructured j i) (\<lambda>_. ret ())"
| "manual_call (Remove j) = DeleteManualVlessNode j"

lemmas manual_op_defs = AddManualVlessNode_def AddManualNodeStructured_def UpdateManualVlessNode_def
  UpdateManualNodeStructured_def DeleteManualVlessNode_def

lemmas manual_op_triples = valid_insert_manual valid_replace_manual valid_sync

lemma valid_refs: "valid (manual_ok m) (FindTunnelIDsUsingNode j) (\<lambda>_. manual_ok m) (manual_ok m)"
  unfolding FindTunnelIDsUsingNode_def by (rule valid_query) simp_all

lemma valid_manual_call: "valid (manual_ok m) (manual_call p) (\<lambda>_. manual_ok m) (manual_ok m)"
proof (cases p)
  case (Remove j)
  show ?thesis unfolding Remove manual_call.simps DeleteManualVlessNode_def
    by (intro valid_ensure valid_own_node valid_if valid_fail valid_bnd [OF valid_refs] valid_bnd [OF valid_delete_node])
       (auto intro: valid_sync)
qed (auto simp: manual_op_defs Let_def intro!: valid_bnd [where R = "\<lambda>_. manual_ok m"] valid_ensure valid_own_node valid_if
       valid_fail valid_ret valid_lift_any manual_op_triples)

section \<open>Runs without failing statements\<close>

lemma EnsureManual_run:
  assumes "schema_ok d" "no_fault d" "manual_first m d"
  shows "EnsureManual d = (Inr m, ticks 1 d)"
proof -
  have "table_ok sub_id (db_subs d)" using assms(1) by (simp add: schema_ok_def)
  from table_ok_sort [OF this, of "\<lambda>_. True"] have "sub_List d = (Inr (t_rows (db_subs d)), ticks 1 d)"
    using assms(2) by (simp add: sub_List_def query_step t_select_def del: no_fault_query)
  with assms(3) show ?thesis by (auto simp: EnsureManual_def bnd_def manual_first_def ret_def)
qed

lemma ListNodes_run:
  assumes "schema_ok d" "no_fault d"
  shows "ListNodes m d = (Inr (nodes_of m d), ticks 1 d)"
proof -
  have "table_ok vn_id (db_nodes d)" using assms(1) by (simp add: schema_ok_def)
  from table_ok_sort [OF this] show ?thesis
    using assms(2) by (simp add: ListNodes_def query_step nodes_of_def del: no_fault_query)
qed

lemma GetNode_run:
  assumes "schema_ok d" "no_fault d" "n \<in> set (t_rows (db_nodes d))"
  shows "GetNode (vn_id n) d = (Inr n, ticks 1 d)"
proof -
  have "table_ok vn_id (db_nodes d)" using assms(1) by (simp add: schema_ok_def)
  from t_find_id [OF this assms(3)] show ?thesis
    using assms(2) by (simp add: GetNode_def bnd_def query_step ret_def del: no_fault_query)
qed

lemma FindTunnel_run:
  "no_fault d \<Longrightarrow> FindTunnelIDsUsingNode j d = (Inr (map wi_id (t_select (\<lambda>w. wi_node w = Some j) (db_ifaces d))), ticks 1 d)"
  by (simp add: FindTunnelIDsUsingNode_def query_step del: no_fault_query)

definition meta_sub :: "subscription \<Rightarrow> nat \<Rightarrow> subscription" where
  "meta_sub s n = s\<lparr>sub_node_count := int n, sub_status := SubActive, sub_error := []\<rparr>"

lemma sync_run:
  assumes "schema_ok d" "no_fault d" "t_find (\<lambda>r. sub_id r = m) (db_subs d) = Some s"
  shows "syncManualSubscriptionMeta m d = (Inr (), ticks 3 (set_sub (meta_sub s (length (nodes_of m d))) d))"
proof -
  let ?s = "meta_sub s (length (nodes_of m d))"
  have 1: "ListNodes m d = (Inr (nodes_of m d), ticks 1 d)" by (rule ListNodes_run [OF assms(1,2)])
  have 2: "sub_GetByID m (ticks 1 d) = (Inr s, ticks 2 d)"
    using sub_GetByID_run [of "ticks 1 d" m s] assms(2,3) by (simp add: numeral_2_eq_2)
  have 3: "sub_Update ?s (ticks 2 d) = (Inr (), ticks 3 (set_sub ?s d))"
    using sub_Update_run [of "ticks 2 d" ?s] assms find_sub [OF assms(3)] by (simp add: meta_sub_def)
  show ?thesis by (simp add: syncManualSubscriptionMeta_def bnd_def 1 2 3 [unfolded meta_sub_def] meta_sub_def del: One_nat_def)
qed

lemma manual_first_find:
  assumes "schema_ok d" "manual_first m d"
  shows "\<exists>s. t_find (\<lambda>r. sub_id r = m) (db_subs d) = Some s"
proof -
  obtain s where "s \<in> set (t_rows (db_subs d))" "sub_id s = m"
    using assms(2) by (auto simp: manual_first_def dest: find_Some_set)
  with assms(1) show ?thesis using t_find_id [of sub_id "db_subs d" s] by (auto simp: schema_ok_def)
qed

lemma nodes_of_ticks [simp]: "nodes_of m (ticks k d) = nodes_of m d" "manual_first m (ticks k d) = manual_first m d"
  by (simp_all add: nodes_of_def manual_first_def)

lemma nodes_of_set_sub [simp]: "nodes_of m (set_sub s d) = nodes_of m d"
  by (simp add: nodes_of_def)

lemma nodes_of_add: "nodes_of m (add_node n d) = nodes_of m d @ (if vn_sub n = m then [node_row n (db_now d) (t_seq (db_nodes d) + 1)] else [])"
  by (simp add: nodes_of_def add_node_def t_insert_def t_select_def)

lemma insert_manual_run:
  fixes n :: vless_node
  assumes "schema_ok d" "no_fault d" "t_find (\<lambda>r. sub_id r = m) (db_subs d) = Some s"
  defines "n' \<equiv> n\<lparr>vn_sub := m\<rparr>"
  shows "link n \<in> link ` set (nodes_of m d) \<Longrightarrow> insert_manual m n d = (Inl ErrConflict, ticks 1 d)"
    and "link n \<notin> link ` set (nodes_of m d) \<Longrightarrow> insert_manual m n d =
      (Inr (n'\<lparr>vn_id := t_seq (db_nodes d) + 1\<rparr>),
       ticks 6 (set_sub (meta_sub s (Suc (length (nodes_of m d)))) (add_node n' d)))"
proof -
  have 1: "ListNodes m d = (Inr (nodes_of m d), ticks 1 d)" by (rule ListNodes_run [OF assms(1,2)])
  show "insert_manual m n d = (Inl ErrConflict, ticks 1 d)" if "link n \<in> link ` set (nodes_of m d)"
    using that by (auto simp: insert_manual_def bnd_def 1 fail_def link_def image_iff)
  assume new: "link n \<notin> link ` set (nodes_of m d)"
  have 2: "InsertNodes [n'] (ticks 1 d) = (Inr [n'\<lparr>vn_id := t_seq (db_nodes d) + 1\<rparr>], ticks 3 (add_node n' d))"
    using InsertNodes_run [of "ticks 1 d" "[n']"] assms(1,2) by (simp add: numeral_3_eq_3)
  have "syncManualSubscriptionMeta m (ticks 3 (add_node n' d))
      = (Inr (), ticks 3 (set_sub (meta_sub s (length (nodes_of m (ticks 3 (add_node n' d))))) (ticks 3 (add_node n' d))))"
    using assms by (intro sync_run) (simp_all add: add_node_schema)
  then have 3: "syncManualSubscriptionMeta m (ticks 3 (add_node n' d))
      = (Inr (), ticks 6 (set_sub (meta_sub s (Suc (length (nodes_of m d)))) (add_node n' d)))"
    by (simp add: nodes_of_add n'_def)
  have c: "\<forall>e\<in>set (nodes_of m d). trim_space (vn_raw e) \<noteq> trim_space (vn_raw n')"
    using new by (simp add: link_def image_iff n'_def) metis
  show "insert_manual m n d =
      (Inr (n'\<lparr>vn_id := t_seq (db_nodes d) + 1\<rparr>),
       ticks 6 (set_sub (meta_sub s (Suc (length (nodes_of m d)))) (add_node n' d)))"
    unfolding insert_manual_def Let_def n'_def [symmetric]
    by (simp add: bnd_def 1 2 3 c ret_def del: One_nat_def)
qed

section \<open>Properties\<close>

definition run_manual :: "manual_op list \<Rightarrow> 'a database_scheme \<Rightarrow> 'a database_scheme" where
  "run_manual ps d = fold (\<lambda>p d. snd (manual_call p d)) ps d"

text \<open>C10: however nodes are added, edited and deleted by hand, with valid or invalid input, and whichever of
  the statements fail, no two nodes of the manual subscription ever have the same link (white space
  around it aside), and the manual subscription stays the one it was.\<close>

theorem manual_links_unique:
  assumes "manual_first m d" "ids_ok d" "distinct (map link (nodes_of m d))"
  shows "distinct (map link (nodes_of m (run_manual ps d))) \<and> manual_first m (run_manual ps d)"
proof -
  have "manual_ok m d" using assms by (simp add: manual_ok_def)
  then have "manual_ok m (run_manual ps d)"
  proof (induction ps arbitrary: d)
    case (Cons p ps)
    have "manual_ok m (snd (manual_call p d))"
      by (rule preserves_run [OF iffD1 [OF valid_preserves valid_manual_call] Cons.prems])
    from Cons.IH [OF this] show ?case by (simp add: run_manual_def)
  qed (simp add: run_manual_def)
  then show ?thesis by (simp add: manual_ok_def)
qed

definition manual_db :: database where
  "manual_db = sample_db\<lparr>db_subs := \<lparr>t_rows = [(sample_sub 1)\<lparr>sub_name := ''__manual__''\<rparr>, sample_sub 2], t_seq = 2\<rparr>,
     db_nodes := \<lparr>t_rows = [sample_node 1 1 ''vless://u@h'', sample_node 2 1 ''vless://v@h'', sample_node 3 1 ''vless://w@h''], t_seq = 3\<rparr>\<rparr>"

lemma manual_db_ok: "schema_ok manual_db" "no_fault manual_db" "manual_first 1 manual_db"
  by (simp_all add: manual_db_def manual_first_def ManualSubscriptionName_def sample_defs schema_defs no_fault_def table_ok_def
      has_id_def del: ids_ok_parts)

theorem manual_links_unique_witness:
  "distinct (map link (nodes_of 1 (run_manual [AddUri ''vless://u@h'', AddUri ''vless://x@h'', AddUri ''vless://x@h'', Remove 3] manual_db)))"
proof -
  have "distinct (map link (nodes_of 1 manual_db))" by code_simp
  moreover have "ids_ok manual_db" using manual_db_ok(1) by (simp add: schema_ok_def)
  ultimately show ?thesis using manual_links_unique [OF manual_db_ok(3)] by blast
qed

text \<open>C14: adding a node by its link, when no statement is interrupted: blank input and a link that does not parse
  are refused with that error; a link already there is a conflict, and no row changes; otherwise exactly
  one node is stored under the manual subscription, with the next id, and the subscription's count is
  the number of its nodes.\<close>

theorem add_manual_node:
  assumes "schema_ok d" "no_fault d" "manual_first m d"
  shows "\<exists>r t. AddManualVlessNode raw d = (r, t) \<and>
    (if trim_space raw = [] then r = Inl ErrValidation \<and> t = d
     else case ParseURI (trim_space raw) of
       Inl e \<Rightarrow> r = Inl e \<and> t = ticks 1 d
     | Inr n \<Rightarrow>
         if link n \<in> link ` set (nodes_of m d) then r = Inl ErrConflict \<and> t = ticks 2 d
         else (\<exists>n' s. r = Inr n' \<and> vn_id n' = t_seq (db_nodes d) + 1 \<and> vn_sub n' = m \<and> vn_raw n' = vn_raw n
              \<and> t_rows (db_nodes t) = t_rows (db_nodes d) @ [node_row n' (db_now d) (vn_id n')]
              \<and> db_ifaces t = db_ifaces d \<and> db_tnodes t = db_tnodes d
              \<and> t_find (\<lambda>r. sub_id r = m) (db_subs t) = Some s \<and> sub_node_count s = int (length (nodes_of m t))))"
proof (cases "trim_space raw = []")
  case True
  then show ?thesis by (simp add: AddManualVlessNode_def fail_def)
next
  case False
  have e: "EnsureManual d = (Inr m, ticks 1 d)" by (rule EnsureManual_run [OF assms])
  show ?thesis
  proof (cases "ParseURI (trim_space raw)")
    case (Inl err)
    with False show ?thesis by (simp add: AddManualVlessNode_def bnd_def e lift_def)
  next
    case (Inr n)
    obtain s where s: "t_find (\<lambda>r. sub_id r = m) (db_subs d) = Some s" using manual_first_find [OF assms(1,3)] by blast
    have run: "AddManualVlessNode raw d = insert_manual m n (ticks 1 d)"
      using False Inr by (simp add: AddManualVlessNode_def bnd_def e lift_def)
    have i: "schema_ok (ticks 1 d)" "no_fault (ticks 1 d)" "t_find (\<lambda>r. sub_id r = m) (db_subs (ticks 1 d)) = Some s"
      using assms s by simp_all
    show ?thesis
    proof (cases "link n \<in> link ` set (nodes_of m d)")
      case True
      then show ?thesis using insert_manual_run(1) [OF i, of n] False Inr by (simp add: run numeral_2_eq_2)
    next
      case new: False
      let ?n = "n\<lparr>vn_sub := m\<rparr>"
      let ?s = "meta_sub s (Suc (length (nodes_of m d)))"
      let ?t = "set_sub ?s (add_node ?n d)"
      have r: "AddManualVlessNode raw d = (Inr (?n\<lparr>vn_id := t_seq (db_nodes d) + 1\<rparr>), ticks 7 ?t)"
        using insert_manual_run(2) [OF i, of n] new by (simp add: run)
      have id: "sub_id ?s = m" using find_sub [OF s] by (simp add: meta_sub_def)
      have "t_find (\<lambda>r. sub_id r = m) (db_subs ?t) \<noteq> None \<and> sub_node_count (the (t_find (\<lambda>r. sub_id r = m) (db_subs ?t)))
          = int (Suc (length (nodes_of m d)))"
        unfolding set_sub_def id by (simp add: t_find_update [of sub_id] s) (simp add: meta_sub_def)
      moreover have "length (nodes_of m ?t) = Suc (length (nodes_of m d))" by (simp add: nodes_of_add)
      moreover have "t_rows (db_nodes ?t) = t_rows (db_nodes d) @ [node_row (?n\<lparr>vn_id := t_seq (db_nodes d) + 1\<rparr>) (db_now d) (t_seq (db_nodes d) + 1)]"
        by (simp add: add_node_def t_insert_def node_row_def)
      ultimately show ?thesis
        using False Inr new r
        by (intro exI [of _ "Inr (?n\<lparr>vn_id := t_seq (db_nodes d) + 1\<rparr>)"] exI [of _ "ticks 7 ?t"]) auto
    qed
  qed
qed

theorem add_manual_node_witness:
  "(\<exists>t. AddManualVlessNode '' vless://u@h'' manual_db = (Inl ErrConflict, t) \<and> t_rows (db_nodes t) = t_rows (db_nodes manual_db))
   \<and> (\<exists>n t. AddManualVlessNode ''vless://x@h'' manual_db = (Inr n, t) \<and> vn_id n = 4 \<and> length (t_rows (db_nodes t)) = 4)"
proof -
  have "case ParseURI (trim_space '' vless://u@h'') of Inl e \<Rightarrow> False | Inr n \<Rightarrow> link n = ''vless://u@h''"
    "case ParseURI (trim_space ''vless://x@h'') of Inl e \<Rightarrow> False | Inr n \<Rightarrow> link n = ''vless://x@h''" by code_simp+
  then obtain n k where n: "ParseURI (trim_space '' vless://u@h'') = Inr n" "link n = ''vless://u@h''"
    and k: "ParseURI (trim_space ''vless://x@h'') = Inr k" "link k = ''vless://x@h''"
    by (auto split: sum.splits)
  have l: "link ` set (nodes_of 1 manual_db) = {''vless://u@h'', ''vless://v@h'', ''vless://w@h''}" by code_simp
  have t: "trim_space '' vless://u@h'' \<noteq> []" "trim_space ''vless://x@h'' \<noteq> []" by code_simp+
  have s: "t_seq (db_nodes manual_db) = 3" "length (t_rows (db_nodes manual_db)) = 3" by (simp_all add: manual_db_def)
  show ?thesis
    using add_manual_node [OF manual_db_ok, of "'' vless://u@h''"] add_manual_node [OF manual_db_ok, of "''vless://x@h''"]
    by (auto simp: n k t l s)
qed

text \<open>C13: deleting a node by hand: the active node of a tunnel is protected and reported as in use; a node that
  only the node list of a tunnel uses is protected too, but by a bare foreign-key error, which the API
  answers with 500 instead of the conflict it means; any other node of the manual subscription is
  deleted, and nothing else.\<close>

theorem delete_manual_node:
  assumes "schema_ok d" "no_fault d" "manual_first m d" "n \<in> set (nodes_of m d)"
  shows "\<exists>r t. DeleteManualVlessNode (vn_id n) d = (r, t) \<and>
    (if \<exists>w\<in>set (t_rows (db_ifaces d)). wi_node w = Some (vn_id n) then r = Inl ErrNodeInUse \<and> t = ticks 3 d
     else if \<exists>q\<in>set (t_rows (db_tnodes d)). tn_node q = vn_id n
       then r = Inl fk_error \<and> me_status (mapError fk_error) = 500 \<and> t = ticks 4 d
     else r = Inr () \<and> t_rows (db_nodes t) = filter (\<lambda>k. k \<noteq> n) (t_rows (db_nodes d))
       \<and> db_ifaces t = db_ifaces d \<and> db_tnodes t = db_tnodes d \<and> schema_ok t)"
proof -
  have n: "n \<in> set (t_rows (db_nodes d))" "vn_sub n = m" using assms(4) by (auto simp: nodes_of_def t_select_def)
  have tab: "table_ok vn_id (db_nodes d)" using assms(1) by (simp add: schema_ok_def)
  have e: "EnsureManual d = (Inr m, ticks 1 d)" by (rule EnsureManual_run [OF assms(1-3)])
  have g: "GetNode (vn_id n) (ticks 1 d) = (Inr n, ticks 2 d)"
    using GetNode_run [of "ticks 1 d" n] assms(1,2) n(1) by (simp add: numeral_2_eq_2)
  let ?refs = "map wi_id (t_select (\<lambda>w. wi_node w = Some (vn_id n)) (db_ifaces d))"
  have f: "FindTunnelIDsUsingNode (vn_id n) (ticks 2 d) = (Inr ?refs, ticks 3 d)"
    using FindTunnel_run [of "ticks 2 d" "vn_id n"] assms(2) by (simp add: numeral_3_eq_3 numeral_2_eq_2)
  have refs: "?refs = [] \<longleftrightarrow> \<not> (\<exists>w\<in>set (t_rows (db_ifaces d)). wi_node w = Some (vn_id n))"
    by (auto simp: t_select_def filter_empty_conv)
  have run: "DeleteManualVlessNode (vn_id n) d = (if ?refs \<noteq> [] then (Inl ErrNodeInUse, ticks 3 d)
      else bnd (DeleteNode (vn_id n)) (\<lambda>_. syncManualSubscriptionMeta m) (ticks 3 d))"
    by (simp add: DeleteManualVlessNode_def bnd_def e g f n(2) fail_def del: One_nat_def)
  let ?del = "\<lambda>d. d\<lparr>db_nodes := t_delete (\<lambda>r. vn_id r = vn_id n) (db_nodes d)\<rparr>"
  let ?d = "ticks 3 d"
  have kept: "filter (\<lambda>r. vn_id r \<noteq> vn_id n) (t_rows (db_nodes d)) = filter (\<lambda>k. k \<noteq> n) (t_rows (db_nodes d))"
    using table_ok_inj [OF tab _ n(1)] by (intro filter_cong) auto
  have cnt: "t_count (\<lambda>r. vn_id r = vn_id n) (db_nodes d) \<noteq> 0"
    using n(1) by (auto simp: t_count_id has_id_def)
  have gone: "has_id vn_id (t_delete (\<lambda>r. vn_id r = vn_id n) (db_nodes d)) j \<longleftrightarrow> has_id vn_id (db_nodes d) j \<and> j \<noteq> vn_id n" for j
    by (auto simp: has_id_def t_delete_def)
  show ?thesis
  proof (cases "?refs = []")
    case False
    then show ?thesis using refs by (auto simp: run)
  next
    case noref: True
    show ?thesis
    proof (cases "\<exists>q\<in>set (t_rows (db_tnodes d)). tn_node q = vn_id n")
      case True
      have "unique_ok (?del (tick ?d))" using assms(1) by (simp add: schema_ok_def unique_ok_def)
      moreover have "\<not> refs_ok (?del (tick ?d))" using True by (auto simp: refs_ok_def tnode_refs_ok_def gone)
      ultimately have "DeleteNode (vn_id n) ?d = (Inl fk_error, ticks 4 d)"
        using assms(2) by (simp add: DeleteNode_def affected_def bnd_def dml_def)
      then have "DeleteManualVlessNode (vn_id n) d = (Inl fk_error, ticks 4 d)" using noref by (simp add: run bnd_def)
      moreover have "me_status (mapError fk_error) = 500" by code_simp
      ultimately show ?thesis using True noref refs by auto
    next
      case False
      have ok: "schema_ok (?del d)"
      proof -
        have "iface_refs_ok (?del d)"
          using assms(1) noref refs by (auto simp: schema_ok_def iface_refs_ok_def ref_ok_def gone split: option.splits)
        moreover have "tnode_refs_ok (?del d)" using assms(1) False by (auto simp: schema_ok_def tnode_refs_ok_def gone)
        ultimately show ?thesis using assms(1)
          by (simp add: schema_ok_def peer_refs_ok_def unique_ok_def ids_ok_upd table_ok_delete)
      qed
      have t: "?del (ticks k d) = ticks k (?del d)" for k by (simp add: ticks_def)
      have x: "exec (\<lambda>d. (t_count (\<lambda>r. vn_id r = vn_id n) (db_nodes d), ?del d)) ?d
          = (Inr (t_count (\<lambda>r. vn_id r = vn_id n) (db_nodes d)), ticks 4 (?del d))"
      proof -
        have "exec (\<lambda>d. (t_count (\<lambda>r. vn_id r = vn_id n) (db_nodes d), ?del d)) ?d
            = (Inr (t_count (\<lambda>r. vn_id r = vn_id n) (db_nodes (ticks 1 ?d))), ticks 1 (?del ?d))"
        proof (rule exec_step)
          show "no_fault ?d" using assms(2) by simp
          show "schema_ok (?del ?d)" unfolding t using ok by simp
          show "?del (ticks 1 ?d) = ticks 1 (?del ?d)" by (simp add: ticks_def)
        qed
        then show ?thesis unfolding t by simp
      qed
      have 1: "DeleteNode (vn_id n) ?d = (Inr (), ticks 4 (?del d))"
        using cnt unfolding DeleteNode_def affected_def bnd_def x by (simp add: ret_def)
      obtain s where s: "t_find (\<lambda>r. sub_id r = m) (db_subs d) = Some s" using manual_first_find [OF assms(1,3)] by blast
      let ?s = "meta_sub s (length (nodes_of m (?del d)))"
      have nf: "no_fault (?del d)" using assms(2) by (simp add: no_fault_def)
      have 2: "syncManualSubscriptionMeta m (ticks 4 (?del d)) = (Inr (), ticks 7 (set_sub ?s (?del d)))"
        using sync_run [of "ticks 4 (?del d)" m s] ok nf s by simp
      have "DeleteManualVlessNode (vn_id n) d = (Inr (), ticks 7 (set_sub ?s (?del d)))"
        using noref by (simp add: run bnd_def 1 2)
      moreover have "t_rows (db_nodes (ticks 7 (set_sub ?s (?del d)))) = filter (\<lambda>k. k \<noteq> n) (t_rows (db_nodes d))"
        using kept by (simp add: t_delete_def)
      ultimately show ?thesis using False noref refs set_sub_schema [OF ok, of ?s]
        by (intro exI [of _ "Inr ()"] exI [of _ "ticks 7 (set_sub ?s (?del d))"]) auto
    qed
  qed
qed

theorem delete_manual_node_witness:
  "(\<exists>t. DeleteManualVlessNode 1 manual_db = (Inl ErrNodeInUse, t)) \<and> (\<exists>t. DeleteManualVlessNode 2 manual_db = (Inl fk_error, t))
   \<and> (\<exists>t. DeleteManualVlessNode 3 manual_db = (Inr (), t) \<and> map vn_id (t_rows (db_nodes t)) = [1, 2])"
proof -
  let ?n = "\<lambda>i raw. sample_node i 1 raw"
  have r: "nodes_of 1 manual_db = [?n 1 ''vless://u@h'', ?n 2 ''vless://v@h'', ?n 3 ''vless://w@h'']"
    "t_rows (db_nodes manual_db) = [?n 1 ''vless://u@h'', ?n 2 ''vless://v@h'', ?n 3 ''vless://w@h'']"
    by (simp_all add: manual_db_def nodes_of_def t_select_def sample_node_def)
  have i: "t_rows (db_ifaces manual_db) = [sample_iface 1 ''wg1'' 51820 (Some 1) (Some 1)]"
    "map tn_node (t_rows (db_tnodes manual_db)) = [1, 2]" by (simp_all add: manual_db_def sample_defs)
  have q: "(\<exists>q\<in>set (t_rows (db_tnodes manual_db)). tn_node q = j) \<longleftrightarrow> j = 1 \<or> j = 2" for j
    by (auto simp: manual_db_def sample_defs)
  have w: "wi_node (sample_iface 1 ''wg1'' 51820 (Some 1) (Some 1)) = Some 1" by (simp add: sample_iface_def)
  have id: "vn_id (?n i raw) = i" "?n i raw = ?n j raw' \<longleftrightarrow> i = j \<and> raw = raw'" for i j raw raw'
    by (simp_all add: sample_node_def)
  show ?thesis
    using delete_manual_node [OF manual_db_ok, of "?n 1 ''vless://u@h''"] delete_manual_node [OF manual_db_ok, of "?n 2 ''vless://v@h''"]
      delete_manual_node [OF manual_db_ok, of "?n 3 ''vless://w@h''"]
    by (auto simp: r i q w id)
qed

end
