(* ===== verification/Spec2Isabelle.thy ===== *)
theory Spec2Isabelle
  imports TlsManager ApiRoutes Migration AuthProps Ownership Collector NodeHealth PeerProps TunnelLife TunnelRepo LinkText XrayConfig AuditLog PeerRepo StatsRepo SubBody Subscriptions Refresh ManualNodes
begin

text \<open>
  The backend of xray2wg (\<open>src/backend\<close>, written in Go) turns VLESS subscriptions into WireGuard gateways: it
  downloads lists of \<open>vless://\<close> links, stores the nodes they describe in SQLite, and runs tunnels. A tunnel is a
  userspace WireGuard device for the clients, an Xray instance that forwards to the nodes, and the policy route,
  TPROXY chain, forward and NAT rules on the host that lead the traffic of the one into the other. An HTTP API,
  guarded by an administrator's password and JSON web tokens, drives it.

  \<^bold>\<open>How the model is built.\<close> Data are records and datatypes with the fields of the Go structs. An operation that can
  fail and changes state is a \<open>call\<close> (theory Prelude): a function from a state to an error or a result and the
  next state; \<open>bnd\<close> is Go's early return on an error, \<open>attempt\<close> a call whose error the code looks at, \<open>ignore\<close> one
  whose error it drops, \<open>for_each\<close> a range loop. The worlds are records that extend each other, so that each
  operation is written over the state it needs and used in any larger one: \<open>database\<close> (Db), \<open>log_world\<close> (the event
  ring, AuditLog), \<open>sub_world\<close> (what the download of a subscription returns, Subscriptions), \<open>auth_world\<close> (Auth) and
  \<open>run_world\<close> (the host, the managers' maps, the running set, Managers). Every SQL statement is one step of a clock
  and may fail by a given fault (\<open>db_fault\<close>), so that every prefix of an operation that a failing statement can leave
  behind is in the model; \<open>tx\<close> is a transaction, which restores the tables when its body fails. Foreign keys are
  checked at each statement (\<open>refs_ok\<close>).

  Randomness is a stream the world draws from; times are integers (seconds in the database, nanoseconds in Auth);
  the formatted text of an error keeps its literal part. Strings are lists of bytes, as in Go.

  \<^bold>\<open>Code that is not in the repository\<close> is a record of operations handed to the definitions: go-iptables, netlink,
  wireguard-go and xray-core (\<open>host\<close>, Host), AES-GCM and Curve25519 (\<open>crypto_lib\<close>, Crypto), bcrypt and JWT
  (\<open>auth_lib\<close>, Auth). What the properties need of it is a named law (\<open>host_law\<close> in HostLaw and its parts, the laws of
  Auth and Crypto), documented behaviour of that library; every property with such a hypothesis has a witness that
  runs it on concrete functions. The standard library is modelled where its result matters: strings, numbers, base64
  and hex (GoStrings), \<open>encoding/json\<close> (GoJson), \<open>net/url\<close> (GoUrl), \<open>net\<close> addresses (GoNet).

  \<^bold>\<open>The theories and the code.\<close>
  \<^item> Prelude: the \<open>call\<close> combinators, their simp rules, the two program logics (\<open>preserves\<close>, and with Triples
    \<open>valid\<close>) and the collections \<open>preserves_intro\<close>, \<open>schema_intros\<close>, \<open>frame_intro\<close>, \<open>run_intro\<close> the components fill.
  \<^item> Domain: \<open>domain/*.go\<close>, the errors and \<open>api/middleware/errors.go\<close> (\<open>mapError\<close>, \<open>ErrorHandler\<close>), \<open>app/tunnel_merge.go\<close>.
  \<^item> Db: \<open>infrastructure/db/models.go\<close> and \<open>sqlite.go\<close>: tables, identifiers, foreign keys, faults, transactions, the
    invariant \<open>schema_ok\<close>, which every operation of the repositories preserves.
  \<^item> SubscriptionRepo, TunnelRepo, PeerRepo, StatsRepo, AuditLog: the files of that name in \<open>infrastructure/db\<close> with
    \<open>eventlog\<close> and \<open>settings_repo.go\<close>.
  \<^item> Vless, ShareLinks, LinkText: \<open>vless/transport\<close>, \<open>vless/security\<close>, \<open>vless/uri.go\<close> and \<open>build.go\<close>: the six transports, the three
    security modes, reading and writing a share link; LinkText holds the round trips.
  \<^item> XrayConfig: \<open>infrastructure/xrayinfra/config.go\<close>, the JSON document an Xray instance is started with.
  \<^item> SubBody, Subscriptions, Refresh, ManualNodes: \<open>service/subscription.go\<close> and \<open>app/subscriptions_api.go\<close>: decoding a
    downloaded body, refreshing a subscription, the nodes entered by hand.
  \<^item> Sessions, Auth, AuthProps: \<open>service/auth.go\<close>, \<open>session\<close>, the token middleware and the settings API.
  \<^item> GoNet: addresses, \<open>service/wg_address.go\<close> and the choice of the endpoint host. Crypto: \<open>crypto\<close> and the keys.
  \<^item> Host, HostLaw, HostRules, HostRoutes: \<open>infrastructure/netconf\<close>: the rules, routes and devices of a tunnel; the laws
    of the libraries and what each set-up and teardown does to the rules and routes.
  \<^item> Managers, Peers, Tunnels: \<open>infrastructure/wireguard/manager.go\<close>, \<open>xrayinfra/manager.go\<close>, \<open>service/peer.go\<close>,
    \<open>service/mikrotik.go\<close>, \<open>service/tunnel.go\<close>, \<open>app/tunnels.go\<close> and \<open>app/tunnels_api.go\<close>.
  \<^item> TunnelFrame, TunnelRules, TunnelLife: what the operations of a tunnel leave alone, and the life of a tunnel on the
    host, from start to stop.

  \<^bold>\<open>What the lemmas show.\<close> Each repository operation preserves the schema and behaves as its SQL; a share link that was
  built is read back as the same node, and what was read can be run; a refresh replaces exactly the nodes of its
  subscription and keeps the bindings whose link is still served; no sequence of manual edits makes two equal nodes;
  a refresh token works once and the password is set once; a tunnel that was started and stopped leaves the host's
  rules as it found them, whatever failed in between, and a failed route set-up leaks a policy rule.

  \<^bold>\<open>Bounds and fuel.\<close> Every definition is total: recursion is structural or on a shrinking string, with a termination
  proof, and no definition takes fuel. The ring of events, the five tries of a login, and the addresses 2 to 254 are the
  code's own bounds.

  \<^bold>\<open>Not modelled.\<close> The web frontend (\<open>src/frontend\<close>), the wiring of \<open>cmd/server/main.go\<close>, telemetry, log lines and request
  metrics, the build scripts and tests.
\<close>

end
